(* ===== verification/GoPrelude.thy ===== *)
theory GoPrelude
  imports Main "HOL-Library.Word" "HOL-Library.Sublist"
begin

text \<open>
  The part of the Go language and of its standard library that every component uses:
  machine integers, the \<open>error\<close> values of the packages, and the string
  functions of packages \<open>strings\<close>, \<open>bytes\<close> and \<open>unicode/utf8\<close>.

  A Go \<open>string\<close> or \<open>[]byte\<close> is a sequence of bytes, and so is an Isabelle
  \<^typ>\<open>string\<close> (a list of 8-bit characters).  A Go \<open>int\<close> (64 bits on the platforms the
  repository is built for) is an \<^typ>\<open>int\<close>: the code never does arithmetic on an \<open>int\<close>,
  it compares, prints and converts it, so the only place where the width shows is the
  parsing of a number, which checks the range, and the conversion to an unsigned type,
  which wraps.  Unsigned types are words of their width.
\<close>

section \<open>Types\<close>

type_synonym uint8 = "8 word"
type_synonym uint16 = "16 word"
type_synonym uint32 = "32 word"
type_synonym uint64 = "64 word"
type_synonym bytes = string

text \<open>
  The values of type \<open>error\<close>.  A variable of the source that holds an error keeps its
  name; an error built in place is a constructor named after what it says, with the
  values it is built from.
\<close>

datatype (plugins only: code size) go_error =
    ErrSyntax string              \<comment> \<open>\<open>strconv.ErrSyntax\<close>, with the input\<close>
  | ErrRange string               \<comment> \<open>\<open>strconv.ErrRange\<close>, with the input\<close>
  | ErrInvalidMAC string          \<comment> \<open>\<open>net.ParseMAC\<close>\<close>
  | ErrScan string                \<comment> \<open>\<open>fmt.Sscanf\<close>, with the input\<close>
  | EOF                           \<comment> \<open>\<open>io.EOF\<close>\<close>
  | ErrUnexpectedEOF              \<comment> \<open>\<open>io.ErrUnexpectedEOF\<close>\<close>
  | ErrTooLong                    \<comment> \<open>\<open>bufio.ErrTooLong\<close>\<close>
  | ErrHardwareAddressLength nat
  | ErrWildcardMaskLength nat
  | ErrInvalidIPv4 string
  | ErrInvalidIPv6 string
  | ErrInvalidModNetwork
  | ErrInvalidIPv4Address string
  | ErrIntegerTooLarge int int
  | ErrNoActionMatchedFor string string
  | ErrInvalidValueFor string string
  | ErrTCPFlagsLength
  | ErrInvalidVLANTCI string
  | ErrInvalidVLANTCI1 string
  | ErrInvalidIPv6LabelMatch string
  | ErrInvalidCTMark string
  | ErrInvalidMetadata string
  | ErrInvalidTunID string
  | ErrInvalidAction string
  | ErrNoActionMatched string
  | errCTNoArguments
  | errInvalidIPv6Label
  | errInvalidARPOP
  | errInvalidVLANVID
  | errInvalidVLANPCP
  | errOutputNegativePort
  | errResubmitPortTableZero
  | errLoadSetFieldZero
  | errResubmitPortInvalid
  | errDimensionTooLarge
  | errMoveEmpty
  | errOutputFieldEmpty
  | errLearnedNil
  | errActionsWithDrop
  | errInvalidActions
  | errNoActions
  | errNotEnoughElements
  | errInvalidLearnedActions
  | errEmptyMatchFlow
  | ErrInvalidPortRange
  | ErrInvalidFlowStats
  | ErrInvalidPortStats
  | ErrInvalidTable
  | errMultipleValues
  | errNotCommitted
  | errMissingMandatoryDataPathName
  | errUninitializedClient
  | errMissingMandatoryZone
  | errWrongArgumentNumber
  | errWrongDefaultArgument
  | errWrongZoneArgument
  | ErrMatchFormat string         \<comment> \<open>a match of a trace that is no key and value\<close>
  | ErrJSON                       \<comment> \<open>an error of package \<open>encoding/json\<close>\<close>
  | FlowError string go_error     \<comment> \<open>\<open>FlowError{Str, Err}\<close>\<close>
  | MatchFlowError string go_error
  | ErrDiscarding go_error
  | ErrExec string go_error       \<comment> \<open>\<open>ovs.Error{Out, Err}\<close>\<close>
  | ErrPipe string go_error       \<comment> \<open>\<open>pipeError{out, err}\<close>\<close>
  | ErrExternal string            \<comment> \<open>an error of code outside the repository\<close>
  | GoPanic string                \<comment> \<open>a run-time panic: the goroutine does not return\<close>

text \<open>A call that returns \<open>(T, error)\<close>.\<close>

type_synonym 'a result = "go_error + 'a"

text \<open>
  A loop that calls \<open>f\<close> on every element, appends what it returns and stops at the first
  error: the shape of \<open>marshalFunctions\<close> and of the parsers of value lists.
\<close>

fun mapR :: "('a \<Rightarrow> 'e + 'b) \<Rightarrow> 'a list \<Rightarrow> 'e + 'b list" where
  "mapR f [] = Inr []"
| "mapR f (x # xs) =
     (case f x of
        Inl e \<Rightarrow> Inl e
      | Inr y \<Rightarrow> (case mapR f xs of Inl e \<Rightarrow> Inl e | Inr ys \<Rightarrow> Inr (y # ys)))"

lemma mapR_Cons_Inr:
  "mapR f (x # xs) = Inr ys \<longleftrightarrow> (\<exists>z zs. ys = z # zs \<and> f x = Inr z \<and> mapR f xs = Inr zs)"
  by (auto split: sum.splits)

lemma mapR_Inr_iff: "mapR f xs = Inr ys \<longleftrightarrow> list_all2 (\<lambda>x y. f x = Inr y) xs ys"
proof (induction xs arbitrary: ys)
  case Nil
  then show ?case by auto
next
  case (Cons x xs)
  show ?case
    unfolding mapR_Cons_Inr Cons.IH by (auto simp: list_all2_Cons1)
qed

lemma mapR_InlE:
  assumes "mapR f xs = Inl e"
  obtains us x vs where "xs = us @ x # vs" and "\<forall>u \<in> set us. \<exists>y. f u = Inr y" and "f x = Inl e"
  using assms
proof (induction xs arbitrary: thesis)
  case Nil
  then show ?case by simp
next
  case (Cons x xs)
  show ?case
  proof (cases "f x")
    case (Inl e')
    with Cons.prems show ?thesis by (intro Cons.prems(1)[of "[]" x xs]) auto
  next
    case (Inr y)
    with Cons.prems(2) have "mapR f xs = Inl e" by (auto split: sum.splits)
    then obtain us z vs where *: "xs = us @ z # vs" "\<forall>u \<in> set us. \<exists>y. f u = Inr y" "f z = Inl e"
      using Cons.IH by metis
    with Inr show ?thesis by (intro Cons.prems(1)[of "x # us" z vs]) auto
  qed
qed

lemma mapR_map: "mapR f (map g xs) = mapR (\<lambda>x. f (g x)) xs"
  by (induction xs) (auto split: sum.splits)

lemma mapR_all_Inr: "(\<And>x. x \<in> set xs \<Longrightarrow> f x = Inr (g x)) \<Longrightarrow> mapR f xs = Inr (map g xs)"
  by (induction xs) auto

lemma mapR_length: "mapR f xs = Inr ys \<Longrightarrow> length ys = length xs"
  by (auto simp: mapR_Inr_iff dest: list_all2_lengthD)

lemma mapR_append:
  "mapR f (xs @ ys) =
     (case mapR f xs of
        Inl e \<Rightarrow> Inl e
      | Inr us \<Rightarrow> (case mapR f ys of Inl e \<Rightarrow> Inl e | Inr vs \<Rightarrow> Inr (us @ vs)))"
  by (induction xs) (auto split: sum.splits)

section \<open>Bytes and characters\<close>

definition byte :: "char \<Rightarrow> nat" where
  "byte c = of_char c"

lemma byte_less [simp]: "byte c < 256"
  by (simp add: byte_def)

lemma byte_inject: "byte c = byte d \<longleftrightarrow> c = d"
  by (simp add: byte_def)

definition ascii_space :: "char \<Rightarrow> bool" where
  "ascii_space c \<longleftrightarrow> c = CHR '' '' \<or> (9 \<le> byte c \<and> byte c \<le> 13)"

definition is_digit :: "char \<Rightarrow> bool" where
  "is_digit c \<longleftrightarrow> 48 \<le> byte c \<and> byte c \<le> 57"

text \<open>Bytes of ASCII: a character below \<open>utf8.RuneSelf\<close> is a rune of its own.\<close>

definition ascii :: "string \<Rightarrow> bool" where
  "ascii s \<longleftrightarrow> list_all (\<lambda>c. byte c < 128) s"

lemma ascii_simps [simp]:
  "ascii []"
  "ascii (c # s) \<longleftrightarrow> byte c < 128 \<and> ascii s"
  "ascii (s @ t) \<longleftrightarrow> ascii s \<and> ascii t"
  by (auto simp: ascii_def)

subsection \<open>Runes\<close>

text \<open>
  The width of the well-formed UTF-8 encoding at the head of a byte string, 0 where
  there is none (\<open>utf8.DecodeRune\<close> then returns \<open>RuneError\<close> of width 1).
\<close>

definition cont_byte :: "nat \<Rightarrow> bool" where
  "cont_byte b \<longleftrightarrow> 128 \<le> b \<and> b \<le> 191"

definition second_byte_ok :: "nat \<Rightarrow> nat \<Rightarrow> bool" where
  "second_byte_ok b0 b1 \<longleftrightarrow>
     (if b0 = 224 then 160 \<le> b1 \<and> b1 \<le> 191
      else if b0 = 237 then 128 \<le> b1 \<and> b1 \<le> 159
      else if b0 = 240 then 144 \<le> b1 \<and> b1 \<le> 191
      else if b0 = 244 then 128 \<le> b1 \<and> b1 \<le> 143
      else cont_byte b1)"

definition rune_size :: "nat \<Rightarrow> nat" where
  "rune_size b0 =
     (if b0 < 128 then 1
      else if 194 \<le> b0 \<and> b0 \<le> 223 then 2
      else if 224 \<le> b0 \<and> b0 \<le> 239 then 3
      else if 240 \<le> b0 \<and> b0 \<le> 244 then 4
      else 0)"

fun rune_len :: "string \<Rightarrow> nat" where
  "rune_len [] = 0"
| "rune_len (c # s) =
     (let n = rune_size (byte c) in
      if n \<le> 1 then n
      else if length s < n - 1 then 0
      else if second_byte_ok (byte c) (byte (hd s)) \<and>
              list_all (\<lambda>d. cont_byte (byte d)) (take (n - 2) (tl s))
           then n else 0)"

text \<open>
  \<open>ReadRune\<close> followed by \<open>WriteRune\<close>: the bytes written for the first rune, and the rest
  of the input.  An ill-formed byte is written as the encoding of \<open>U+FFFD\<close>.
\<close>

definition rune_error :: string where
  "rune_error = [CHR 0xEF, CHR 0xBF, CHR 0xBD]"

definition read_rune :: "string \<Rightarrow> (string \<times> string) option" where
  "read_rune s =
     (if s = [] then None
      else if rune_len s = 0 then Some (rune_error, tl s)
      else Some (take (rune_len s) s, drop (rune_len s) s))"

lemma read_rune_Nil [simp]: "read_rune [] = None"
  by (simp add: read_rune_def)

lemma read_rune_ascii [simp]: "byte c < 128 \<Longrightarrow> read_rune (c # s) = Some ([c], s)"
  by (simp add: read_rune_def rune_size_def)

lemma read_rune_shrinks: "read_rune s = Some (r, t) \<Longrightarrow> length t < length s"
  by (cases s) (auto simp: read_rune_def Let_def split: if_splits)

subsection \<open>White space\<close>

text \<open>
  The width of the white space rune (\<open>unicode.IsSpace\<close>) at the head of a byte string, 0
  where there is none.  The encodings of the non-ASCII ones start with a byte that occurs
  only as the first byte of a rune, so that scanning byte by byte finds the same runes as
  scanning rune by rune.
\<close>

fun space_len :: "string \<Rightarrow> nat" where
  "space_len [] = 0"
| "space_len (c # s) =
     (if ascii_space c then 1
      else if byte c = 194 \<and> s \<noteq> [] \<and> byte (hd s) \<in> {133, 160} then 2
      else if length s \<ge> 2 \<and>
        (byte c = 225 \<and> byte (s ! 0) = 154 \<and> byte (s ! 1) = 128 \<or>
         byte c = 226 \<and> byte (s ! 0) = 128 \<and>
           (128 \<le> byte (s ! 1) \<and> byte (s ! 1) \<le> 138 \<or> byte (s ! 1) \<in> {168, 169, 175}) \<or>
         byte c = 226 \<and> byte (s ! 0) = 129 \<and> byte (s ! 1) = 159 \<or>
         byte c = 227 \<and> byte (s ! 0) = 128 \<and> byte (s ! 1) = 128) then 3
      else 0)"

lemma space_len_ascii [simp]: "byte c < 128 \<Longrightarrow> space_len (c # s) = (if ascii_space c then 1 else 0)"
  by (cases s) auto

lemma space_len_le: "space_len s \<le> length s"
  by (cases s) (auto simp: Suc_le_eq)

declare space_len.simps [simp del]

lemma space_len_Nil [simp]: "space_len [] = 0"
  by (simp add: space_len.simps)

text \<open>The same for the last rune: its width at the end of the string.\<close>

definition ends_space_len :: "string \<Rightarrow> nat" where
  "ends_space_len s =
     (if s \<noteq> [] \<and> space_len (drop (length s - 1) s) = 1 then 1
      else if length s \<ge> 2 \<and> space_len (drop (length s - 2) s) = 2 then 2
      else if length s \<ge> 3 \<and> space_len (drop (length s - 3) s) = 3 then 3
      else 0)"

section \<open>Package strings\<close>

subsection \<open>Prefixes and substrings\<close>

definition has_prefix :: "string \<Rightarrow> string \<Rightarrow> bool" where
  "has_prefix s p \<longleftrightarrow> prefix p s"

definition has_suffix :: "string \<Rightarrow> string \<Rightarrow> bool" where
  "has_suffix s p \<longleftrightarrow> suffix p s"

definition trim_prefix :: "string \<Rightarrow> string \<Rightarrow> string" where
  "trim_prefix s p = (if prefix p s then drop (length p) s else s)"

definition trim_suffix :: "string \<Rightarrow> string \<Rightarrow> string" where
  "trim_suffix s p = (if suffix p s then take (length s - length p) s else s)"

text \<open>\<open>strings.Index\<close>: the position of the first occurrence.\<close>

fun index_of :: "string \<Rightarrow> string \<Rightarrow> nat option" where
  "index_of [] p = (if p = [] then Some 0 else None)"
| "index_of (c # s) p = (if prefix p (c # s) then Some 0 else map_option Suc (index_of s p))"

lemma index_of_char:
  "c \<notin> set s \<Longrightarrow> index_of s [c] = None"
  "c \<notin> set s \<Longrightarrow> index_of (s @ c # t) [c] = Some (length s)"
  by (induction s) auto

definition contains :: "string \<Rightarrow> string \<Rightarrow> bool" where
  "contains s p \<longleftrightarrow> index_of s p \<noteq> None"

lemma contains_iff: "contains s p \<longleftrightarrow> sublist p s"
  by (induction s) (auto simp: contains_def sublist_Cons_right)

lemma contains_char [simp]: "contains s [c] \<longleftrightarrow> c \<in> set s"
  by (induction s) (auto simp: contains_def)

lemma index_of_Some: "index_of s p = Some i \<Longrightarrow> i + length p \<le> length s \<and> prefix p (drop i s)"
proof (induction s arbitrary: i)
  case Nil
  then show ?case by (auto split: if_splits)
next
  case (Cons c s)
  then show ?case by (auto split: if_splits dest: prefix_length_le)
qed

subsection \<open>Split, Join and ReplaceAll\<close>

text \<open>
  \<open>strings.Split\<close> with a separator that is not empty (the code has no other): the pieces
  between the leftmost non-overlapping occurrences.
\<close>

function split :: "string \<Rightarrow> string \<Rightarrow> string list" where
  "split sep [] = [[]]"
| "split sep (c # s) =
     (if prefix sep (c # s) then [] # split sep (drop (length sep - 1) s)
      else (case split sep s of [] \<Rightarrow> [[c]] | p # ps \<Rightarrow> (c # p) # ps))"
  by pat_completeness auto
termination
  by (relation "measure (\<lambda>(sep, s). length s)") auto

lemma split_not_Nil [simp]: "split sep s \<noteq> []"
  by (induction sep s rule: split.induct) (auto split: list.splits)

text \<open>\<open>strings.SplitN(s, sep, 2)\<close>.\<close>

definition split2 :: "string \<Rightarrow> string \<Rightarrow> string list" where
  "split2 sep s =
     (case index_of s sep of
        None \<Rightarrow> [s]
      | Some i \<Rightarrow> [take i s, drop (i + length sep) s])"

fun join :: "string \<Rightarrow> string list \<Rightarrow> string" where
  "join sep [] = []"
| "join sep [p] = p"
| "join sep (p # q # ps) = p @ sep @ join sep (q # ps)"

lemma join_Cons: "join sep (p # ps) = (if ps = [] then p else p @ sep @ join sep ps)"
  by (cases ps) auto

lemma join_append:
  "ps \<noteq> [] \<Longrightarrow> qs \<noteq> [] \<Longrightarrow> join sep (ps @ qs) = join sep ps @ sep @ join sep qs"
  by (induction ps) (auto simp: join_Cons)

lemma join_eq_concat: "join [] ps = concat ps"
  by (induction ps) (auto simp: join_Cons)

lemma set_join_subset: "set (join sep ps) \<subseteq> set sep \<union> \<Union> (set ` set ps)"
  by (induction ps) (auto simp: join_Cons)

lemma split_char_no_sep: "c \<notin> set s \<Longrightarrow> split [c] s = [s]"
  by (induction s) auto

lemma split_char_append: "c \<notin> set p \<Longrightarrow> split [c] (p @ c # s) = p # split [c] s"
  by (induction p) auto

text \<open>Splitting what was joined gives the pieces back when no piece holds the separator.\<close>

lemma split_join:
  assumes "ps \<noteq> []" and "\<And>p. p \<in> set ps \<Longrightarrow> c \<notin> set p"
  shows "split [c] (join [c] ps) = ps"
  using assms
  by (induction ps) (auto simp: join_Cons split_char_no_sep split_char_append)

text \<open>And joining what was split gives the string back, always.\<close>

lemma join_split: "sep \<noteq> [] \<Longrightarrow> join sep (split sep s) = s"
proof (induction sep s rule: split.induct)
  case (1 sep)
  then show ?case by simp
next
  case (2 sep c s)
  show ?case
  proof (cases "prefix sep (c # s)")
    case True
    then obtain t where t: "c # s = sep @ t" by (auto simp: prefix_def)
    with 2 have s: "drop (length sep - 1) s = t"
      by (cases sep) auto
    have "join sep (split sep (c # s)) = sep @ join sep (split sep t)"
      using True s by (simp add: join_Cons)
    with 2 True s t show ?thesis by simp
  next
    case False
    with 2 have IH: "join sep (split sep s) = s" by simp
    from False IH show ?thesis
      by (cases "split sep s") (auto simp: join_Cons)
  qed
qed

text \<open>A multi-character separator, where it occurs once.\<close>

lemma split_no_occurrence: "\<not> contains s sep \<Longrightarrow> sep \<noteq> [] \<Longrightarrow> split sep s = [s]"
  by (induction s) (auto simp: contains_def split: if_splits)

text \<open>\<open>strings.ReplaceAll\<close> of a one-byte string.\<close>

definition replace_all :: "string \<Rightarrow> char \<Rightarrow> string \<Rightarrow> string" where
  "replace_all s c new = concat (map (\<lambda>d. if d = c then new else [d]) s)"

lemma replace_all_simps [simp]:
  "replace_all [] c new = []"
  "replace_all (d # s) c new = (if d = c then new else [d]) @ replace_all s c new"
  "replace_all (s @ t) c new = replace_all s c new @ replace_all t c new"
  by (auto simp: replace_all_def)

subsection \<open>Trimming and Fields\<close>

text \<open>\<open>strings.Trim(s, cutset)\<close> for a cutset of one byte.\<close>

definition trim_char :: "char \<Rightarrow> string \<Rightarrow> string" where
  "trim_char c s = rev (dropWhile (\<lambda>d. d = c) (rev (dropWhile (\<lambda>d. d = c) s)))"

function trim_left :: "string \<Rightarrow> string" where
  "trim_left s = (if space_len s = 0 then s else trim_left (drop (space_len s) s))"
  by pat_completeness auto
termination
  by (relation "measure length") (auto simp: diff_less neq_Nil_conv intro!: diff_less)

declare trim_left.simps [simp del]

function trim_right :: "string \<Rightarrow> string" where
  "trim_right s =
     (if ends_space_len s = 0 then s else trim_right (take (length s - ends_space_len s) s))"
  by pat_completeness auto
termination
  by (relation "measure length") (auto simp: ends_space_len_def split: if_splits)

declare trim_right.simps [simp del]

definition trim_space :: "string \<Rightarrow> string" where
  "trim_space s = trim_right (trim_left s)"

text \<open>
  \<open>strings.Fields\<close>: the maximal runs of bytes that are not white space.  \<open>cur\<close> is the
  field being read, \<open>None\<close> between fields.
\<close>

function fields_aux :: "string option \<Rightarrow> string \<Rightarrow> string list" where
  "fields_aux cur [] = (case cur of None \<Rightarrow> [] | Some f \<Rightarrow> [f])"
| "fields_aux cur (c # s) =
     (if space_len (c # s) = 0
      then fields_aux (Some (case cur of None \<Rightarrow> [c] | Some f \<Rightarrow> f @ [c])) s
      else (case cur of None \<Rightarrow> [] | Some f \<Rightarrow> [f]) @
           fields_aux None (drop (space_len (c # s) - 1) s))"
  by pat_completeness auto
termination
  by (relation "measure (\<lambda>(cur, s). length s)") auto

definition Fields :: "string \<Rightarrow> string list" where
  "Fields s = fields_aux None s"

text \<open>A text that neither begins nor ends with white space is not changed by trimming.\<close>

lemma ends_space_len_ascii:
  assumes "s = [] \<or> byte (last s) < 128 \<and> \<not> ascii_space (last s)"
  shows "ends_space_len s = 0"
proof (cases "s = []")
  case False
  then obtain t c where s: "s = t @ [c]" by (metis rev_exhaust)
  with assms have c: "byte c < 128" "\<not> ascii_space c" by auto
  have 1: "drop (length s - 1) s = [c]" by (simp add: s)
  have 2: "space_len (drop (length s - 2) s) \<noteq> 2"
    using c by (cases t rule: rev_cases) (auto simp: s space_len.simps)
  have 3: "space_len (drop (length s - 3) s) \<noteq> 3"
  proof (cases "length t < 2")
    case True
    then have "length s - 3 = 0" by (simp add: s)
    then show ?thesis using True space_len_le[of s] by (auto simp: s)
  next
    case False
    then obtain u a b where "t = u @ [a, b]"
      by (metis append.assoc append_Cons append_Nil length_0_conv length_append_singleton
          less_Suc_eq numeral_2_eq_2 rev_exhaust zero_less_Suc)
    then show ?thesis using c by (auto simp: s space_len.simps)
  qed
  show ?thesis using 1 2 3 c by (auto simp: ends_space_len_def)
qed (simp add: ends_space_len_def)

lemma trim_space_id:
  assumes "s = [] \<or> byte (hd s) < 128 \<and> \<not> ascii_space (hd s) \<and> byte (last s) < 128 \<and> \<not> ascii_space (last s)"
  shows "trim_space s = s"
proof -
  have "space_len s = 0" using assms by (cases s) auto
  then have "trim_left s = s" by (subst trim_left.simps) simp
  moreover have "trim_right s = s"
    using ends_space_len_ascii[of s] assms by (subst trim_right.simps) auto
  ultimately show ?thesis by (simp add: trim_space_def)
qed

lemma trim_space_lf:
  assumes "s \<noteq> []" and "byte (hd s) < 128 \<and> \<not> ascii_space (hd s)" and "byte (last s) < 128 \<and> \<not> ascii_space (last s)"
  shows "trim_space (s @ [CHR 0x0A]) = s"
proof -
  have "space_len (s @ [CHR 0x0A]) = 0" using assms(1,2) by (cases s) auto
  then have "trim_left (s @ [CHR 0x0A]) = s @ [CHR 0x0A]" by (subst trim_left.simps) simp
  moreover have "ends_space_len (s @ [CHR 0x0A]) = 1"
    by (simp add: ends_space_len_def space_len.simps ascii_space_def byte_def)
  then have "trim_right (s @ [CHR 0x0A]) = trim_right s" by (subst trim_right.simps) simp
  moreover have "trim_right s = s"
    using ends_space_len_ascii[of s] assms by (subst trim_right.simps) auto
  ultimately show ?thesis by (simp add: trim_space_def)
qed

subsection \<open>Splitting at a longer separator\<close>

lemma prefix_before: "prefix p (u @ c # v) \<Longrightarrow> c \<notin> set p \<Longrightarrow> prefix p u"
  by (induction u arbitrary: p) (auto simp: prefix_Cons)

lemma sublist_around:
  "sublist p (a @ c # b) \<Longrightarrow> c \<notin> set p \<Longrightarrow> sublist p a \<or> sublist p b"
proof (induction a)
  case Nil
  then show ?case using prefix_before[of p "[]" c b] by (auto simp: sublist_Cons_right)
next
  case (Cons d a)
  then show ?case using prefix_before[of p "d # a" c b]
    by (auto simp: sublist_Cons_right)
qed

lemma not_contains_join:
  assumes "c \<notin> set p" and "p \<noteq> []" and "\<forall>s \<in> set ss. \<not> contains s p"
  shows "\<not> contains (join [c] ss) p"
  using assms by (induction ss) (auto simp: join_Cons contains_iff dest!: sublist_around)

lemma split_token:
  assumes "\<not> contains t sep" and "c \<notin> set sep" and "sep \<noteq> []"
  shows "split sep (t @ c # s) = (t @ c # hd (split sep s)) # tl (split sep s)"
  using assms(1)
proof (induction t)
  case Nil
  have "\<not> prefix sep (c # s)" using assms(2,3) by (cases sep) auto
  then show ?case by (cases "split sep s") auto
next
  case (Cons d t)
  have "\<not> prefix sep (d # t @ c # s)"
    using Cons.prems assms(2) prefix_before[of sep "d # t" c s]
    by (auto simp: contains_iff sublist_Cons_right)
  moreover have "\<not> contains t sep" using Cons.prems by (auto simp: contains_iff sublist_Cons_right)
  ultimately show ?case using Cons.IH by simp
qed

lemma split_tokens:
  assumes "\<forall>t \<in> set ts. \<not> contains t sep" and "c \<notin> set sep" and "sep \<noteq> []"
  shows "split sep (concat (map (\<lambda>t. t @ [c]) ts) @ sep @ q) = concat (map (\<lambda>t. t @ [c]) ts) # split sep q"
  using assms(1)
proof (induction ts)
  case Nil
  obtain d p where "sep = d # p" using assms(3) by (cases sep) auto
  then show ?case by simp
next
  case (Cons t ts)
  then show ?case using split_token[of t sep c] assms(2,3) by simp
qed

lemma concat_commas: "ts \<noteq> [] \<Longrightarrow> concat (map (\<lambda>t. t @ [c]) ts) = join [c] ts @ [c]"
  by (induction ts) (auto simp: join_Cons)

text \<open>The first occurrence of a text that starts behind a byte it does not hold.\<close>

lemma index_of_after:
  assumes "\<not> contains u p" and "c \<notin> set p" and "p \<noteq> []"
  shows "index_of (u @ c # p @ s) p = Some (Suc (length u))"
  using assms(1)
proof (induction u)
  case Nil
  have "\<not> prefix p (c # p @ s)" using assms(2,3) by (cases p) auto
  moreover have "index_of (p @ s) p = Some 0" using assms(3) by (cases p) simp_all
  ultimately show ?case by simp
next
  case (Cons d u)
  have "\<not> prefix p (d # u @ c # p @ s)"
    using Cons.prems assms(2) prefix_before[of p "d # u" c "p @ s"] by (auto simp: contains_iff sublist_Cons_right)
  moreover have "\<not> contains u p" using Cons.prems by (auto simp: contains_iff sublist_Cons_right)
  ultimately show ?case using Cons.IH by simp
qed

section \<open>Values printed side by side and read back\<close>

text \<open>
  The contract between a printer and a parser of single values that makes a list of them, joined
  with a separator and split at it, read back as it was: what is printed parses to
  the value, and never holds the separator.
\<close>

locale sep_codec =
  fixes enc :: "'a \<Rightarrow> string"
    and dec1 :: "string \<Rightarrow> 'e + 'a"
    and sep :: char
    and ok :: "'a \<Rightarrow> bool"
  assumes dec1_enc: "ok x \<Longrightarrow> dec1 (enc x) = Inr x"
    and enc_sep: "ok x \<Longrightarrow> sep \<notin> set (enc x)"
begin

lemma values_roundtrip:
  assumes "xs \<noteq> []" and "\<And>x. x \<in> set xs \<Longrightarrow> ok x"
  shows "mapR dec1 (split [sep] (join [sep] (map enc xs))) = Inr xs"
proof -
  have "split [sep] (join [sep] (map enc xs)) = map enc xs"
    using assms by (intro split_join) (auto simp: enc_sep)
  moreover have "mapR dec1 (map enc xs) = Inr (map (\<lambda>x. x) xs)"
    unfolding mapR_map using assms(2) by (intro mapR_all_Inr) (auto simp: dec1_enc)
  ultimately show ?thesis by simp
qed

lemma values_roundtrip1:
  assumes "ok x" shows "mapR dec1 (split [sep] (enc x)) = Inr [x]"
  using values_roundtrip[of "[x]"] assms by simp

lemma values_roundtrip2:
  assumes "ok x" and "ok y"
  shows "mapR dec1 (split [sep] (enc x @ sep # enc y)) = Inr [x, y]"
proof -
  have "join [sep] (map enc [x, y]) = enc x @ sep # enc y" by simp
  then show ?thesis using values_roundtrip[of "[x, y]"] assms by auto
qed

lemma enc_inject:
  assumes "ok x" and "ok y" and "enc x = enc y"
  shows "x = y"
proof -
  have "Inr x = dec1 (enc x)" using assms(1) by (simp add: dec1_enc)
  also have "\<dots> = Inr y" unfolding assms(3) using assms(2) by (rule dec1_enc)
  finally show ?thesis by simp
qed

end

end
