(* ===== verification/GoNumbers.thy ===== *)
theory GoNumbers
  imports GoPrelude
begin

text \<open>
  Packages \<open>strconv\<close> and \<open>fmt\<close> on integers: printing in a base with the paddings the code
  asks for, parsing with the syntax and range errors of \<open>ParseUint\<close>, \<open>ParseInt\<close> and
  \<open>Atoi\<close>, and the round trips between the two.
\<close>

section \<open>Digits\<close>

definition digit_char :: "nat \<Rightarrow> char" where
  "digit_char d = (if d < 10 then char_of (48 + d) else char_of (87 + d))"

text \<open>The value of a digit as \<open>ParseUint\<close> reads it, lower or upper case.\<close>

definition digit_val :: "char \<Rightarrow> nat option" where
  "digit_val c =
     (if 48 \<le> byte c \<and> byte c \<le> 57 then Some (byte c - 48)
      else if 97 \<le> byte c \<and> byte c \<le> 122 then Some (byte c - 87)
      else if 65 \<le> byte c \<and> byte c \<le> 90 then Some (byte c - 55)
      else None)"

lemma byte_digit_char: "d < 36 \<Longrightarrow> byte (digit_char d) = (if d < 10 then 48 + d else 87 + d)"
  by (simp add: digit_char_def byte_def)

lemma digit_val_digit_char [simp]: "d < 36 \<Longrightarrow> digit_val (digit_char d) = Some d"
  by (simp add: digit_val_def byte_digit_char)

lemma digit_char_0 [simp]: "digit_char 0 = CHR ''0''"
proof -
  have "byte (digit_char 0) = byte (CHR ''0'')" by (simp add: digit_char_def byte_def)
  then show ?thesis by (simp only: byte_inject)
qed

text \<open>The digits of a number, the most significant first, with no leading zero.\<close>

function fmt_nat :: "nat \<Rightarrow> nat \<Rightarrow> string" where
  "fmt_nat b n =
     (if n < b \<or> b < 2 then [digit_char n] else fmt_nat b (n div b) @ [digit_char (n mod b)])"
  by pat_completeness auto
termination
  by (relation "measure snd") (auto intro!: div_less_dividend)

declare fmt_nat.simps [simp del]

lemma fmt_nat_small: "n < b \<Longrightarrow> fmt_nat b n = [digit_char n]"
  by (simp add: fmt_nat.simps)

lemma fmt_nat_step:
  "b \<le> n \<Longrightarrow> 2 \<le> b \<Longrightarrow> fmt_nat b n = fmt_nat b (n div b) @ [digit_char (n mod b)]"
  by (subst fmt_nat.simps) simp

lemma fmt_nat_not_Nil [simp]: "fmt_nat b n \<noteq> []"
  by (subst fmt_nat.simps) simp

lemma fmt_nat_digits:
  assumes "2 \<le> b" and "c \<in> set (fmt_nat b n)"
  shows "\<exists>d < b. c = digit_char d"
  using assms
proof (induction b n rule: fmt_nat.induct)
  case (1 b n)
  show ?case
  proof (cases "n < b")
    case True
    with 1 show ?thesis by (auto simp: fmt_nat_small)
  next
    case False
    with "1.prems" have "c \<in> set (fmt_nat b (n div b)) \<or> c = digit_char (n mod b)"
      by (auto simp: fmt_nat_step)
    with 1 False show ?thesis
      by (auto intro: exI[of _ "n mod b"])
  qed
qed

section \<open>Parsing\<close>

text \<open>
  The loop of \<open>ParseUint\<close> over the bytes of its argument, for a value of at most
  \<open>mx\<close>: a byte that is no digit of the base is a syntax error, and the first digit that takes the
  value past \<open>mx\<close> is a range error, also where a later byte is no digit.  \<open>us\<close> says that
  underscores are skipped (base prefix given by the input).
\<close>

datatype num_error = Syntax | Range

fun uint_loop :: "bool \<Rightarrow> nat \<Rightarrow> nat \<Rightarrow> nat \<Rightarrow> string \<Rightarrow> num_error + nat" where
  "uint_loop us b mx n [] = Inr n"
| "uint_loop us b mx n (c # s) =
     (if us \<and> c = CHR ''_'' then uint_loop us b mx n s
      else (case digit_val c of
              None \<Rightarrow> Inl Syntax
            | Some d \<Rightarrow>
                if b \<le> d then Inl Syntax
                else if mx < n * b + d then Inl Range
                else uint_loop us b mx (n * b + d) s))"

lemma uint_loop_append:
  "uint_loop us b mx n (s @ t) =
     (case uint_loop us b mx n s of Inl e \<Rightarrow> Inl e | Inr m \<Rightarrow> uint_loop us b mx m t)"
  by (induction s arbitrary: n) (auto split: option.splits)

lemma uint_loop_bound: "uint_loop us b mx n s = Inr m \<Longrightarrow> n \<le> mx \<Longrightarrow> m \<le> mx"
  by (induction s arbitrary: n) (auto split: option.splits if_splits)

lemma digit_char_underscore: "d < 36 \<Longrightarrow> digit_char d \<noteq> CHR ''_''"
  using byte_digit_char[of d] by (auto simp: byte_def split: if_splits)

text \<open>Parsing what was printed gives the number back.\<close>

lemma uint_loop_fmt_nat:
  assumes "2 \<le> b" and "b \<le> 36" and "n \<le> mx"
  shows "uint_loop us b mx 0 (fmt_nat b n) = Inr n"
  using assms
proof (induction b n rule: fmt_nat.induct)
  case (1 b n)
  show ?case
  proof (cases "n < b")
    case True
    with 1 show ?thesis by (simp add: fmt_nat_small digit_char_underscore)
  next
    case False
    have m: "n mod b < b" and d: "n div b \<le> mx"
      using "1.prems" by (auto intro: order_trans[OF div_le_dividend])
    have IH: "uint_loop us b mx 0 (fmt_nat b (n div b)) = Inr (n div b)"
      using 1 False d by simp
    have "uint_loop us b mx 0 (fmt_nat b n) = uint_loop us b mx (n div b) [digit_char (n mod b)]"
      using False "1.prems" by (simp add: fmt_nat_step uint_loop_append IH)
    also have "\<dots> = Inr n"
      using order_less_le_trans[OF m "1.prems"(2)] m "1.prems"(3)
      by (simp add: digit_char_underscore)
    finally show ?thesis .
  qed
qed

text \<open>
  \<open>underscoreOK\<close>: whether the underscores of a number with a base prefix are where they may be.
  \<open>last\<close> is the kind of the byte before, as in the source: a digit or prefix (\<open>0\<close>), an
  underscore, the start, or another byte.
\<close>

datatype us_kind = UStart | UDigit | UUnder | UOther

fun underscore_loop :: "bool \<Rightarrow> us_kind \<Rightarrow> string \<Rightarrow> bool" where
  "underscore_loop hex k [] = (k \<noteq> UUnder)"
| "underscore_loop hex k (c # s) =
     (if is_digit c \<or> (hex \<and> (case digit_val c of None \<Rightarrow> False | Some d \<Rightarrow> d < 16))
      then underscore_loop hex UDigit s
      else if c = CHR ''_'' then k = UDigit \<and> underscore_loop hex UUnder s
      else k \<noteq> UUnder \<and> underscore_loop hex UOther s)"

definition to_lower_char :: "char \<Rightarrow> char" where
  "to_lower_char c = (if 65 \<le> byte c \<and> byte c \<le> 90 then char_of (byte c + 32) else c)"

definition underscore_ok :: "string \<Rightarrow> bool" where
  "underscore_ok s =
     (let s1 = (if s \<noteq> [] \<and> (hd s = CHR ''-'' \<or> hd s = CHR ''+'') then tl s else s) in
      if length s1 \<ge> 2 \<and> hd s1 = CHR ''0'' \<and> to_lower_char (s1 ! 1) \<in> {CHR ''b'', CHR ''o'', CHR ''x''}
      then underscore_loop (to_lower_char (s1 ! 1) = CHR ''x'') UDigit (drop 2 s1)
      else underscore_loop False UStart s1)"

text \<open>
  \<open>strconv.ParseUint(s, base, bitSize)\<close>: base 0 takes the base from the prefix of the input.
\<close>

definition base_prefix :: "string \<Rightarrow> nat \<times> string" where
  "base_prefix s =
     (if hd s = CHR ''0'' then
        (if length s \<ge> 3 \<and> to_lower_char (s ! 1) = CHR ''b'' then (2, drop 2 s)
         else if length s \<ge> 3 \<and> to_lower_char (s ! 1) = CHR ''o'' then (8, drop 2 s)
         else if length s \<ge> 3 \<and> to_lower_char (s ! 1) = CHR ''x'' then (16, drop 2 s)
         else (8, tl s))
      else (10, s))"

definition parse_uint :: "string \<Rightarrow> nat \<Rightarrow> nat \<Rightarrow> num_error + nat" where
  "parse_uint s base bits =
     (if s = [] then Inl Syntax
      else if base = 0 then
        (let (b, t) = base_prefix s in
         case uint_loop True b (2 ^ bits - 1) 0 t of
           Inl e \<Rightarrow> Inl e
         | Inr n \<Rightarrow> if CHR ''_'' \<in> set t \<and> \<not> underscore_ok s then Inl Syntax else Inr n)
      else uint_loop False base (2 ^ bits - 1) 0 s)"

text \<open>\<open>strconv.ParseInt(s, base, bitSize)\<close>.\<close>

definition parse_int :: "string \<Rightarrow> nat \<Rightarrow> nat \<Rightarrow> num_error + int" where
  "parse_int s base bits =
     (if s = [] then Inl Syntax
      else
        (let neg = (hd s = CHR ''-'');
             t = (if hd s = CHR ''+'' \<or> neg then tl s else s) in
         case parse_uint t base bits of
           Inl e \<Rightarrow> Inl e
         | Inr un \<Rightarrow>
             if \<not> neg \<and> 2 ^ (bits - 1) \<le> un then Inl Range
             else if neg \<and> 2 ^ (bits - 1) < un then Inl Range
             else Inr (if neg then - int un else int un)))"

text \<open>The errors as values of type \<open>error\<close>: a \<open>NumError\<close> holds the input.\<close>

definition num_result :: "string \<Rightarrow> num_error + 'a \<Rightarrow> 'a result" where
  "num_result s r =
     (case r of
        Inl Syntax \<Rightarrow> Inl (ErrSyntax s)
      | Inl Range \<Rightarrow> Inl (ErrRange s)
      | Inr x \<Rightarrow> Inr x)"

definition ParseUint :: "string \<Rightarrow> nat \<Rightarrow> nat \<Rightarrow> nat result" where
  "ParseUint s base bits = num_result s (parse_uint s base bits)"

text \<open>\<open>strconv.ParseInt(s, 10, 0)\<close> and \<open>strconv.Atoi\<close>, for a 64-bit \<open>int\<close>.\<close>

definition Atoi :: "string \<Rightarrow> int result" where
  "Atoi s = num_result s (parse_int s 10 64)"

definition int_range :: "int \<Rightarrow> bool" where
  "int_range i \<longleftrightarrow> - (2 ^ 63) \<le> i \<and> i < 2 ^ 63"

section \<open>Printing\<close>

text \<open>\<open>strconv.Itoa\<close>, \<open>strconv.AppendInt(b, i, 10)\<close> and \<open>%d\<close>.\<close>

definition itoa :: "int \<Rightarrow> string" where
  "itoa i = (if i < 0 then CHR ''-'' # fmt_nat 10 (nat (- i)) else fmt_nat 10 (nat i))"

text \<open>\<open>%d\<close> and \<open>%v\<close> of an unsigned value.\<close>

definition dec :: "'a::len word \<Rightarrow> string" where
  "dec w = fmt_nat 10 (unat w)"

definition pad_left :: "nat \<Rightarrow> char \<Rightarrow> string \<Rightarrow> string" where
  "pad_left n c s = replicate (n - length s) c @ s"

text \<open>\<open>%0<n>x\<close>: lower-case hexadecimal with at least \<open>n\<close> digits.\<close>

definition hex_pad :: "nat \<Rightarrow> 'a::len word \<Rightarrow> string" where
  "hex_pad n w = pad_left n (CHR ''0'') (fmt_nat 16 (unat w))"

text \<open>The same with the prefix, \<open>0x%0<n>x\<close>.\<close>

definition hex_lit :: "nat \<Rightarrow> 'a::len word \<Rightarrow> string" where
  "hex_lit n w = ''0x'' @ hex_pad n w"

text \<open>\<open>%#x\<close>.\<close>

definition hex_sharp :: "'a::len word \<Rightarrow> string" where
  "hex_sharp w = ''0x'' @ fmt_nat 16 (unat w)"

section \<open>Round trips\<close>

lemma uint_loop_zeros: "b > 0 \<Longrightarrow> uint_loop us b mx 0 (replicate k (CHR ''0'') @ s) = uint_loop us b mx 0 s"
  by (induction k) (auto simp: digit_val_def byte_def)

lemma uint_loop_hex_pad:
  assumes "unat w \<le> mx"
  shows "uint_loop us 16 mx 0 (hex_pad n w) = Inr (unat w)"
  using assms by (simp add: hex_pad_def pad_left_def uint_loop_zeros uint_loop_fmt_nat)

lemma hex_pad_not_Nil [simp]: "hex_pad n w \<noteq> []"
  by (simp add: hex_pad_def pad_left_def)

lemma dec_not_Nil [simp]: "dec w \<noteq> []"
  by (simp add: dec_def)

lemma itoa_not_Nil [simp]: "itoa i \<noteq> []"
  by (simp add: itoa_def)

lemma fmt_nat_chars:
  assumes "c \<in> set (fmt_nat b n)" and "2 \<le> b" and "b \<le> 36"
  shows "is_digit c \<or> 97 \<le> byte c \<and> byte c < 87 + b"
proof -
  from fmt_nat_digits[OF assms(2,1)] obtain d where "d < b" and "c = digit_char d" by blast
  with assms(3) show ?thesis by (auto simp: byte_digit_char is_digit_def)
qed

lemma hd_fmt_nat: "2 \<le> b \<Longrightarrow> b \<le> 36 \<Longrightarrow> byte (hd (fmt_nat b n)) \<ge> 48"
  using fmt_nat_chars[of "hd (fmt_nat b n)" b n] by (auto simp: is_digit_def)

lemma hd_fmt_nat_sign [simp]:
  "hd (fmt_nat 10 n) \<noteq> CHR ''-''" "hd (fmt_nat 10 n) \<noteq> CHR ''+''"
  using hd_fmt_nat[of 10 n] by (auto simp: byte_def)

theorem Atoi_itoa:
  assumes "int_range i"
  shows "Atoi (itoa i) = Inr i"
proof (cases "i < 0")
  case True
  have "parse_uint (fmt_nat 10 (nat (- i))) 10 64 = Inr (nat (- i))"
    using assms True by (simp add: parse_uint_def uint_loop_fmt_nat int_range_def)
  with True assms show ?thesis
    by (simp add: Atoi_def itoa_def parse_int_def num_result_def int_range_def)
next
  case False
  have "parse_uint (fmt_nat 10 (nat i)) 10 64 = Inr (nat i)"
    using assms False by (simp add: parse_uint_def uint_loop_fmt_nat int_range_def)
  with False assms show ?thesis
    by (simp add: Atoi_def itoa_def parse_int_def num_result_def int_range_def)
qed

lemma ParseUint_dec:
  assumes "LENGTH('a) \<le> bits"
  shows "ParseUint (dec (w :: 'a::len word)) 10 bits = Inr (unat w)"
proof -
  have "unat w < 2 ^ LENGTH('a)" by (rule unsigned_less)
  also have "\<dots> \<le> (2 :: nat) ^ bits" using assms by simp
  finally show ?thesis
    by (simp add: ParseUint_def parse_uint_def dec_def num_result_def uint_loop_fmt_nat)
qed

lemma Atoi_dec:
  assumes "LENGTH('a) \<le> 63"
  shows "Atoi (dec (w :: 'a::len word)) = Inr (uint w)"
proof -
  have "unat w < 2 ^ LENGTH('a)" by (rule unsigned_less)
  also have "\<dots> \<le> (2 :: nat) ^ 63" using assms by (intro power_increasing) auto
  finally have "unat w < 2 ^ 63" .
  then have "int (unat w) < 2 ^ 63" by (metis of_nat_less_iff of_nat_numeral of_nat_power)
  then have "int_range (int (unat w))" by (simp add: int_range_def order_trans[of _ 0])
  from Atoi_itoa[OF this] show ?thesis
    by (simp add: itoa_def dec_def)
qed

lemma ParseUint_hex:
  assumes "LENGTH('a) \<le> bits"
  shows "ParseUint (hex_pad n (w :: 'a::len word)) 16 bits = Inr (unat w)"
proof -
  have "unat w < 2 ^ LENGTH('a)" by (rule unsigned_less)
  also have "\<dots> \<le> (2 :: nat) ^ bits" using assms by simp
  finally show ?thesis
    by (simp add: ParseUint_def parse_uint_def num_result_def uint_loop_hex_pad)
qed

lemma Atoi_range: "Atoi s = Inr i \<Longrightarrow> int_range i"
  by (auto simp: Atoi_def parse_int_def num_result_def int_range_def Let_def
      split: sum.splits num_error.splits if_splits)

lemma ParseUint_range: "ParseUint s b bits = Inr n \<Longrightarrow> n < 2 ^ bits"
  by (auto simp: ParseUint_def parse_uint_def num_result_def Let_def
      split: sum.splits num_error.splits if_splits prod.splits dest!: uint_loop_bound
      intro: le_imp_less_Suc[THEN order_less_le_trans])

lemma dec_chars: "c \<in> set (dec w) \<Longrightarrow> is_digit c"
  by (auto simp: dec_def is_digit_def dest!: fmt_nat_chars)

lemma itoa_chars: "c \<in> set (itoa i) \<Longrightarrow> is_digit c \<or> c = CHR ''-''"
  by (auto simp: itoa_def is_digit_def dest!: fmt_nat_chars split: if_splits)

section \<open>Evaluating the printers\<close>

lemma digit_chars:
  "digit_char (Suc 0) = CHR ''1''" "digit_char 1 = CHR ''1''" "digit_char 2 = CHR ''2''"
  "digit_char 3 = CHR ''3''" "digit_char 4 = CHR ''4''" "digit_char 5 = CHR ''5''"
  "digit_char 6 = CHR ''6''" "digit_char 7 = CHR ''7''" "digit_char 8 = CHR ''8''"
  "digit_char 9 = CHR ''9''" "digit_char 10 = CHR ''a''" "digit_char 11 = CHR ''b''"
  "digit_char 12 = CHR ''c''" "digit_char 13 = CHR ''d''" "digit_char 14 = CHR ''e''"
  "digit_char 15 = CHR ''f''"
  unfolding byte_inject[symmetric] by (simp_all add: digit_char_def byte_def)

text \<open>Printed numbers, and the readers on literals.\<close>

lemmas print_eval = fmt_nat.simps digit_chars itoa_def dec_def hex_pad_def hex_lit_def pad_left_def

lemmas read_eval = Atoi_def ParseUint_def parse_int_def parse_uint_def uint_loop.simps digit_val_def
  byte_def num_result_def

end
