(* ===== verification/PortRanges.thy ===== *)
theory PortRanges
  imports GoNumbers
begin

unbundle bit_operations_syntax

text \<open>
  \<open>ovs/portrange.go\<close>: a range of 16-bit ports as value/mask pairs.  The theory shows that
  \<open>BitwiseMatch\<close> returns for every valid range, that the pairs match exactly the ports of the
  range and none of them twice, in ascending order, and that the code for a remainder on the right is never
  reached.
\<close>

section \<open>The code\<close>

(* src: ovs/portrange.go type PortRange *)
record PortRange =
  Start :: uint16
  End :: uint16

(* src: ovs/portrange.go type BitRange *)
record BitRange =
  Value :: uint16
  Mask :: uint16

(* src: ovs/portrange.go func getMask *)
definition getMask :: "nat \<Rightarrow> uint16" where
  "getMask bitLength = 0xffff XOR (push_bit bitLength 1 - 1)"

(* src: ovs/portrange.go func getRange *)
definition getRange :: "uint16 \<Rightarrow> nat \<Rightarrow> uint16 \<times> uint16" where
  "getRange end bitLength =
     (let rangeLength = push_bit bitLength 1 - 1;
          rangeStart = end AND NOT rangeLength;
          rangeEnd = rangeStart + rangeLength
      in (rangeStart, rangeEnd))"

text \<open>
  \<open>uint(math.Floor(math.Log2(float64(window))))\<close>: the window is at most \<open>65535\<close>, for which
  the logarithm in double precision rounds down to the exact value.
\<close>

fun log2_floor :: "nat \<Rightarrow> nat" where
  "log2_floor n = (if n < 2 then 0 else Suc (log2_floor (n div 2)))"

declare log2_floor.simps [simp del]

text \<open>
  The loop \<open>for rangeEnd > r.End\<close>.  At bit length 0 the block is the port itself and the loop
  stops, so that the decrement of the unsigned \<open>bitLength\<close> does not wrap (\<open>fit_zero\<close> below).
\<close>

(* src: ovs/portrange.go 56-62 BitwiseMatch: the loop that decrements the mask *)
fun fit :: "uint16 \<Rightarrow> nat \<Rightarrow> nat" where
  "fit end 0 = 0"
| "fit end (Suc bl) = (if snd (getRange end (Suc bl)) > end then fit end bl else Suc bl)"

section \<open>Blocks of ports\<close>

text \<open>The first port of the block of size \<open>2 ^ n\<close> that holds port \<open>e\<close>, and the last one.\<close>

lemma block_mask: "(2 ^ n - 1 :: uint16) = mask n"
  by (simp add: mask_eq_decr_exp)

lemma and_not_mask: "(w :: 'a::len word) AND NOT (mask n) = push_bit n (drop_bit n w)"
  by (rule bit_eqI) (auto simp: bit_simps)

lemma unat_and_not_mask: "unat ((w :: 'a::len word) AND NOT (mask n)) = unat w div 2 ^ n * 2 ^ n"
proof -
  have "unat w div 2 ^ n * 2 ^ n \<le> unat w" by (rule div_times_less_eq_dividend)
  also have "\<dots> < 2 ^ LENGTH('a)" by (rule unsigned_less)
  finally have less: "push_bit n (drop_bit n (unat w)) < 2 ^ LENGTH('a)"
    by (simp add: push_bit_eq_mult drop_bit_eq_div)
  have "unat (w AND NOT (mask n)) = take_bit LENGTH('a) (push_bit n (drop_bit n (unat w)))"
    by (simp only: and_not_mask unsigned_push_bit_eq unat_drop_bit_eq)
  also have "\<dots> = push_bit n (drop_bit n (unat w))"
    using less by (rule take_bit_nat_eq_self)
  finally show ?thesis by (simp add: push_bit_eq_mult drop_bit_eq_div)
qed

lemma unat_mask16: "n \<le> 16 \<Longrightarrow> unat (mask n :: uint16) = 2 ^ n - 1"
proof -
  assume n: "n \<le> 16"
  have "unat (mask n :: uint16) = unat (word_of_nat (mask n) :: uint16)" by (simp add: of_nat_mask_eq)
  also have "\<dots> = take_bit 16 (mask n)" by (simp only: unsigned_of_nat) simp
  also have "\<dots> = mask n"
  proof (rule take_bit_nat_eq_self)
    have "mask n < (2 :: nat) ^ n" by (simp add: mask_eq_exp_minus_1)
    also have "\<dots> \<le> 2 ^ 16" using n by (intro power_increasing) auto
    finally show "mask n < (2 :: nat) ^ 16" .
  qed
  finally show ?thesis by (simp add: mask_eq_exp_minus_1)
qed

lemma block_fits:
  assumes "n \<le> 16" and "e < 2 ^ 16"
  shows "e div 2 ^ n * 2 ^ n + (2 ^ n - 1) < (2 ^ 16 :: nat)"
proof -
  have "e div 2 ^ n < 2 ^ (16 - n)"
    using assms by (simp add: less_mult_imp_div_less flip: power_add)
  then have "Suc (e div 2 ^ n) * 2 ^ n \<le> 2 ^ (16 - n) * 2 ^ n"
    by (intro mult_le_mono1) simp
  also have "\<dots> = (2 ^ 16 :: nat)" using assms(1) by (simp flip: power_add)
  finally have le: "e div 2 ^ n * 2 ^ n + 2 ^ n \<le> (2 ^ 16 :: nat)" by simp
  have "(0 :: nat) < 2 ^ n" by simp
  with le show ?thesis by linarith
qed

lemma unat_getRange:
  assumes "n \<le> 16"
  shows "unat (fst (getRange e n)) = unat e div 2 ^ n * 2 ^ n"
    and "unat (snd (getRange e n)) = unat e div 2 ^ n * 2 ^ n + (2 ^ n - 1)"
proof -
  show s: "unat (fst (getRange e n)) = unat e div 2 ^ n * 2 ^ n"
    by (simp add: getRange_def Let_def block_mask unat_and_not_mask)
  have "unat e < 2 ^ 16" using unsigned_less[of e] by simp
  from block_fits[OF assms this] show "unat (snd (getRange e n)) = unat e div 2 ^ n * 2 ^ n + (2 ^ n - 1)"
    using assms by (simp add: getRange_def Let_def block_mask unat_and_not_mask
        unat_word_ariths unat_mask16)
qed

lemma getRange_zero: "getRange e 0 = (e, e)"
  by (simp add: getRange_def)

lemma getRange_bounds:
  assumes "n \<le> 16"
  shows "fst (getRange e n) \<le> e" and "e \<le> snd (getRange e n)"
proof -
  show "fst (getRange e n) \<le> e"
    using assms by (simp add: word_le_nat_alt unat_getRange)
  have "unat e = unat e div 2 ^ n * 2 ^ n + unat e mod 2 ^ n" by (simp add: div_mult_mod_eq)
  moreover have "unat e mod 2 ^ n < 2 ^ n" by simp
  ultimately have "unat e \<le> unat e div 2 ^ n * 2 ^ n + (2 ^ n - 1)" by linarith
  then show "e \<le> snd (getRange e n)"
    using assms by (simp add: word_le_nat_alt unat_getRange)
qed

lemma fit_le: "fit e n \<le> n"
  by (induction n) (auto intro: le_SucI)

text \<open>The loop ends with a block whose last port is the end of the range.\<close>

lemma fit_end:
  assumes "n \<le> 16"
  shows "snd (getRange e (fit e n)) = e"
  using assms
proof (induction n)
  case 0
  then show ?case by (simp add: getRange_zero)
next
  case (Suc n)
  then show ?case
    using getRange_bounds(2)[OF Suc.prems, of e] by (auto intro: antisym)
qed

lemma fit_zero: "\<not> snd (getRange e 0) > e"
  by (simp add: getRange_zero)

lemma log2_floor_bounds: "n > 0 \<Longrightarrow> 2 ^ log2_floor n \<le> n \<and> n < 2 ^ Suc (log2_floor n)"
proof (induction n rule: log2_floor.induct)
  case (1 n)
  show ?case
  proof (cases "n < 2")
    case True
    with 1 show ?thesis by (simp add: log2_floor.simps[of n])
  next
    case False
    with 1 have IH: "2 ^ log2_floor (n div 2) \<le> n div 2 \<and> n div 2 < 2 ^ Suc (log2_floor (n div 2))"
      by simp
    have "2 * 2 ^ log2_floor (n div 2) \<le> n" and "n < 2 * 2 ^ Suc (log2_floor (n div 2))"
      using IH by linarith+
    with False show ?thesis by (simp add: log2_floor.simps[of n])
  qed
qed

text \<open>The length of the window: no wrap-around, since the range starts at 1 at least.\<close>

lemma unat_window:
  assumes "0 < s" and "s \<le> (e :: uint16)"
  shows "unat (e - s + 1) = unat e - unat s + 1"
proof -
  have "unat (e - s) = unat e - unat s" using assms(2) by (simp add: unat_sub word_le_nat_alt)
  moreover have "unat e < 65536" using unsigned_less[of e] by simp
  moreover have "0 < unat s" using assms(1) by (simp add: word_less_nat_alt)
  ultimately show ?thesis by (simp add: unat_word_ariths)
qed

text \<open>The block chosen for a valid range lies in it.\<close>

lemma chosen_block:
  assumes "0 < s" and "s \<le> (e :: uint16)"
  defines "bl \<equiv> fit e (log2_floor (unat (e - s + 1)))"
  shows "bl \<le> 15" and "s \<le> fst (getRange e bl)" and "fst (getRange e bl) \<le> e"
    and "snd (getRange e bl) = e"
proof -
  let ?w = "unat (e - s + 1)"
  have w: "?w = unat e - unat s + 1" using assms by (simp add: unat_window)
  have se: "unat s \<le> unat e" "0 < unat s"
    using assms by (simp_all add: word_le_nat_alt word_less_nat_alt)
  have "unat e < 65536" using unsigned_less[of e] by simp
  with w se have "?w < 2 ^ 16" by simp
  moreover have lb: "2 ^ log2_floor ?w \<le> ?w" using log2_floor_bounds[of ?w] w by simp
  ultimately have "(2::nat) ^ log2_floor ?w < 2 ^ 16" by linarith
  then have l15: "log2_floor ?w < 16" 
    by (rule power_less_imp_less_exp[rotated]) simp
  then show bl: "bl \<le> 15" unfolding bl_def using fit_le[of e "log2_floor ?w"] by linarith
  show "fst (getRange e bl) \<le> e" using bl by (intro getRange_bounds) simp
  show e: "snd (getRange e bl) = e" unfolding bl_def using l15 by (intro fit_end) simp
  have "2 ^ bl \<le> (2::nat) ^ log2_floor ?w"
    unfolding bl_def by (intro power_increasing fit_le) simp
  with lb w have "2 ^ bl \<le> unat e - unat s + 1" by linarith
  moreover have "unat (fst (getRange e bl)) + (2 ^ bl - 1) = unat e"
    using unat_getRange[of bl e] e bl by simp
  ultimately have "unat s \<le> unat (fst (getRange e bl))" using se by linarith
  then show "s \<le> fst (getRange e bl)" by (simp add: word_le_nat_alt)
qed

section \<open>BitwiseMatch\<close>

(* src: ovs/portrange.go func PortRange.BitwiseMatch *)
function BitwiseMatch :: "PortRange \<Rightarrow> BitRange list result" where
  "BitwiseMatch r =
     (if Start r \<le> 0 \<or> End r \<le> 0 then Inl ErrInvalidPortRange
      else if Start r > End r then Inl ErrInvalidPortRange
      else if Start r = End r then Inr [\<lparr>Value = Start r, Mask = 0xffff\<rparr>]
      else
        (let window = End r - Start r + 1;
             bitLength = fit (End r) (log2_floor (unat window));
             rangeStart = fst (getRange (End r) bitLength);
             rangeEnd = snd (getRange (End r) bitLength);
             current = \<lparr>Value = rangeStart, Mask = getMask bitLength\<rparr>
         in case (if Start r \<noteq> rangeStart
                  then BitwiseMatch \<lparr>Start = Start r, End = rangeStart - 1\<rparr> else Inr []) of
              Inl e \<Rightarrow> Inl e
            | Inr left \<Rightarrow>
                (case (if End r \<noteq> rangeEnd
                       then BitwiseMatch \<lparr>Start = rangeEnd + 1, End = End r\<rparr> else Inr []) of
                   Inl e \<Rightarrow> Inl e
                 | Inr right \<Rightarrow> Inr (left @ [current] @ right))))"
  by pat_completeness auto
termination
proof (relation "measure (\<lambda>r. unat (End r))", goal_cases)
  case 1
  show ?case by simp
next
  case (2 r window bl rangeStart rangeEnd current)
  then have pos: "0 < Start r" and le: "Start r \<le> End r"
    by (auto simp: word_neq_0_conv)
  from chosen_block[OF pos le] 2 have "Start r \<le> rangeStart" "rangeStart \<le> End r" by simp_all
  then have u: "0 < unat rangeStart" "unat rangeStart \<le> unat (End r)"
    using pos by (simp_all add: word_le_nat_alt word_less_nat_alt)
  then have "unat (rangeStart - 1) = unat rangeStart - 1" by (intro unat_minus_one) auto
  with u have "unat (rangeStart - 1) < unat (End r)" by linarith
  then show ?case by simp
next
  case (3 r window bl rangeStart rangeEnd current x)
  then have pos: "0 < Start r" and le: "Start r \<le> End r"
    by (auto simp: word_neq_0_conv)
  from chosen_block(4)[OF pos le] 3 show ?case by simp
qed

declare BitwiseMatch.simps [simp del]

lemma valid_range_iff: "\<not> (Start r \<le> 0 \<or> End r \<le> 0) \<and> \<not> Start r > End r \<longleftrightarrow> 0 < Start r \<and> Start r \<le> End r"
  by (auto simp: word_neq_0_conv)

lemma BitwiseMatch_invalid:
  "\<not> (0 < Start r \<and> Start r \<le> End r) \<Longrightarrow> BitwiseMatch r = Inl ErrInvalidPortRange"
  using valid_range_iff[of r] by (subst BitwiseMatch.simps) auto

lemma BitwiseMatch_single:
  "0 < Start r \<Longrightarrow> Start r = End r \<Longrightarrow> BitwiseMatch r = Inr [\<lparr>Value = Start r, Mask = 0xffff\<rparr>]"
  using valid_range_iff[of r] by (subst BitwiseMatch.simps) auto

text \<open>
  The step of the recursion on a valid range of several ports: the block at the end, after what
  the recursive call on the ports before it gives.  The call for the ports after the block is gone.
\<close>

lemma BitwiseMatch_step:
  assumes "0 < Start r" and "Start r < End r"
  defines "bl \<equiv> fit (End r) (log2_floor (unat (End r - Start r + 1)))"
  defines "rs \<equiv> fst (getRange (End r) bl)"
  shows "BitwiseMatch r =
    (case (if Start r \<noteq> rs then BitwiseMatch \<lparr>Start = Start r, End = rs - 1\<rparr> else Inr []) of
       Inl e \<Rightarrow> Inl e
     | Inr left \<Rightarrow> Inr (left @ [\<lparr>Value = rs, Mask = getMask bl\<rparr>]))"
proof -
  have le: "Start r \<le> End r" using assms(2) by simp
  have e: "snd (getRange (End r) bl) = End r"
    unfolding bl_def using assms(1) le by (rule chosen_block(4))
  have v: "\<not> (Start r \<le> 0 \<or> End r \<le> 0)" "\<not> Start r > End r" "Start r \<noteq> End r"
    using valid_range_iff[of r] assms(1,2) le by auto
  show ?thesis
    using e v by (subst BitwiseMatch.simps) (simp add: Let_def bl_def rs_def split: sum.split)
qed

section \<open>What the pairs match\<close>

text \<open>A port matches a pair when it agrees with the value on the bits of the mask.\<close>

definition bit_matches :: "BitRange \<Rightarrow> uint16 \<Rightarrow> bool" where
  "bit_matches br p \<longleftrightarrow> p AND Mask br = Value br"

text \<open>
  The specification: the pairs tile the interval from \<open>lo\<close> to \<open>hi\<close> (exclusive) with aligned blocks whose
  sizes are powers of two, one behind the other.
\<close>

fun tiles :: "nat \<Rightarrow> nat \<Rightarrow> BitRange list \<Rightarrow> bool" where
  "tiles lo hi [] \<longleftrightarrow> lo = hi"
| "tiles lo hi (br # brs) \<longleftrightarrow>
     (\<exists>n \<in> {..16}. unat (Value br) = lo \<and> 2 ^ n dvd lo \<and> Mask br = getMask n \<and>
        tiles (lo + 2 ^ n) hi brs)"

lemma tiles_le: "tiles lo hi brs \<Longrightarrow> lo \<le> hi"
  by (induction brs arbitrary: lo) fastforce+

lemma tiles_append: "tiles lo mid xs \<Longrightarrow> tiles mid hi ys \<Longrightarrow> tiles lo hi (xs @ ys)"
  by (induction xs arbitrary: lo) auto

lemma getMask_not: "getMask n = NOT (mask n)"
proof -
  have m1: "(0xffff :: uint16) = - 1" by simp
  have pb: "push_bit n (1 :: uint16) - 1 = mask n" by (simp add: block_mask)
  show ?thesis unfolding getMask_def pb m1 by simp
qed

lemma getMask_zero: "getMask 0 = 0xffff"
  by (simp add: getMask_def)

lemma same_block_iff:
  fixes p lo m :: nat
  assumes "m > 0" and "m dvd lo"
  shows "p div m * m = lo \<longleftrightarrow> lo \<le> p \<and> p < lo + m"
proof
  assume "p div m * m = lo"
  moreover have "p = p div m * m + p mod m" by (simp add: div_mult_mod_eq)
  moreover have "p mod m < m" using assms(1) by simp
  ultimately show "lo \<le> p \<and> p < lo + m" by linarith
next
  assume b: "lo \<le> p \<and> p < lo + m"
  from assms(2) obtain k where k: "lo = k * m" by (auto simp: dvd_def mult.commute)
  define d where "d = p - lo"
  with b have "p = d + k * m" and "d < m" using k by auto
  then show "p div m * m = lo" using k by simp
qed

lemma block_matches:
  assumes "n \<le> 16" and "unat (Value br) = lo" and "2 ^ n dvd lo" and "Mask br = getMask n"
  shows "bit_matches br p \<longleftrightarrow> lo \<le> unat p \<and> unat p < lo + 2 ^ n"
proof -
  have "bit_matches br p \<longleftrightarrow> unat (p AND NOT (mask n)) = unat (Value br)"
    by (simp add: bit_matches_def assms(4) getMask_not word_unat_eq_iff)
  also have "\<dots> \<longleftrightarrow> unat p div 2 ^ n * 2 ^ n = lo"
    by (simp add: unat_and_not_mask assms(2))
  finally show ?thesis using same_block_iff[OF _ assms(3), of "unat p"] by simp
qed

text \<open>In a tiling every port of the interval matches one pair, every other port none.\<close>

lemma tiles_count:
  assumes "tiles lo hi brs"
  shows "length (filter (\<lambda>br. bit_matches br p) brs) =
         (if lo \<le> unat p \<and> unat p < hi then 1 else 0)"
  using assms
proof (induction brs arbitrary: lo)
  case Nil
  then show ?case by simp
next
  case (Cons br brs)
  then obtain n where n: "n \<le> 16" "unat (Value br) = lo" "2 ^ n dvd lo" "Mask br = getMask n"
    and t: "tiles (lo + 2 ^ n) hi brs" by auto
  note m = block_matches[OF n, of p] and le = tiles_le[OF t]
  have IH: "length (filter (\<lambda>br. bit_matches br p) brs) =
      (if lo + 2 ^ n \<le> unat p \<and> unat p < hi then 1 else 0)"
    using t by (rule Cons.IH)
  show ?case using m le IH by auto
qed

lemma BitwiseMatch_tiles:
  assumes "0 < Start r" and "Start r \<le> End r"
  shows "\<exists>brs. BitwiseMatch r = Inr brs \<and> tiles (unat (Start r)) (Suc (unat (End r))) brs"
  using assms
proof (induction "unat (End r)" arbitrary: r rule: less_induct)
  case less
  show ?case
  proof (cases "Start r = End r")
    case True
    with less.prems show ?thesis
      by (auto simp: BitwiseMatch_single getMask_zero intro!: bexI[of _ 0])
  next
    case False
    with less.prems have lt: "Start r < End r" by simp
    define bl where "bl = fit (End r) (log2_floor (unat (End r - Start r + 1)))"
    define rs where "rs = fst (getRange (End r) bl)"
    from chosen_block[OF less.prems] have bl: "bl \<le> 15" and rs: "Start r \<le> rs" "rs \<le> End r"
      and e: "snd (getRange (End r) bl) = End r" unfolding bl_def rs_def by auto
    have "unat rs = unat (End r) div 2 ^ bl * 2 ^ bl" and "unat rs + (2 ^ bl - 1) = unat (End r)"
      unfolding rs_def using unat_getRange[of bl "End r"] bl e by simp_all
    moreover have "(0 :: nat) < 2 ^ bl" by simp
    ultimately have dv: "2 ^ bl dvd unat rs" and en: "unat rs + 2 ^ bl = Suc (unat (End r))"
      by (simp, linarith)
    have last: "tiles (unat rs) (Suc (unat (End r))) [\<lparr>Value = rs, Mask = getMask bl\<rparr>]"
      using bl dv en by (auto intro!: bexI[of _ bl])
    note step = BitwiseMatch_step[OF less.prems(1) lt, folded bl_def, folded rs_def]
    show ?thesis
    proof (cases "Start r = rs")
      case True
      with step last show ?thesis by auto
    next
      case False
      with rs less.prems have u: "unat (Start r) < unat rs" "0 < unat (Start r)"
        by (auto simp: word_le_nat_alt word_less_nat_alt unsigned_word_eqI order_le_less)
      then have m: "unat (rs - 1) = unat rs - 1" by (intro unat_minus_one) auto
      with u rs have "unat (rs - 1) < unat (End r)" "Start r \<le> rs - 1"
        by (auto simp: word_le_nat_alt)
      with less.hyps[of "\<lparr>Start = Start r, End = rs - 1\<rparr>"] less.prems(1) obtain left where
        "BitwiseMatch \<lparr>Start = Start r, End = rs - 1\<rparr> = Inr left"
        and "tiles (unat (Start r)) (Suc (unat (rs - 1))) left" by auto
      moreover have "Suc (unat (rs - 1)) = unat rs" using m u by simp
      ultimately have "BitwiseMatch r = Inr (left @ [\<lparr>Value = rs, Mask = getMask bl\<rparr>])"
        and l: "tiles (unat (Start r)) (unat rs) left" using False step by simp_all
      then show ?thesis using tiles_append[OF l last] by blast
    qed
  qed
qed

text \<open>No pair of a range without port 0 has the mask 0, which would stand for no mask at all.\<close>

lemma getMask_nonzero: "n < 16 \<Longrightarrow> getMask n \<noteq> 0"
proof
  assume n: "n < 16" and "getMask n = 0"
  then have "bit (getMask n) 15 = False" by simp
  with n show False by (simp add: getMask_not bit_simps)
qed

lemma tiles_mask:
  assumes "tiles lo hi brs" and "0 < lo" and "hi \<le> 2 ^ 16" and "br \<in> set brs"
  shows "\<exists>n < 16. Mask br = getMask n \<and> 2 ^ n dvd unat (Value br)"
  using assms
proof (induction brs arbitrary: lo)
  case (Cons b brs)
  then obtain n where n: "n \<le> 16" "unat (Value b) = lo" "2 ^ n dvd lo" "Mask b = getMask n"
    and t: "tiles (lo + 2 ^ n) hi brs" by auto
  have "lo + 2 ^ n \<le> 2 ^ 16" using tiles_le[OF t] Cons.prems(3) by linarith
  with Cons.prems(2) have "n \<noteq> 16" by auto
  with n have "n < 16" by simp
  with n t Cons show ?case by auto
qed simp

lemma BitwiseMatch_mask:
  assumes "BitwiseMatch r = Inr brs" and "br \<in> set brs"
  shows "\<exists>n < 16. Mask br = getMask n \<and> 2 ^ n dvd unat (Value br)"
proof -
  have v: "0 < Start r \<and> Start r \<le> End r" using BitwiseMatch_invalid[of r] assms(1) by (cases "0 < Start r \<and> Start r \<le> End r") auto
  with BitwiseMatch_tiles[of r] assms(1) have "tiles (unat (Start r)) (Suc (unat (End r))) brs" by auto
  moreover have "0 < unat (Start r)" using v by (simp add: word_less_nat_alt)
  moreover have "Suc (unat (End r)) \<le> 2 ^ 16" using unsigned_less[of "End r", where ?'a = nat] by simp
  ultimately show ?thesis using assms(2) by (rule tiles_mask)
qed

lemma BitwiseMatch_count:
  assumes "BitwiseMatch r = Inr brs"
  shows "length (filter (\<lambda>br. bit_matches br p) brs) = (if Start r \<le> p \<and> p \<le> End r then 1 else 0)"
proof -
  have v: "0 < Start r \<and> Start r \<le> End r" using BitwiseMatch_invalid[of r] assms(1) by (cases "0 < Start r \<and> Start r \<le> End r") auto
  with BitwiseMatch_tiles[of r] assms(1) have "tiles (unat (Start r)) (Suc (unat (End r))) brs" by auto
  from tiles_count[OF this, of p] show ?thesis by (simp add: word_le_nat_alt less_Suc_eq_le)
qed

lemma tiles_sorted: "tiles lo hi brs \<Longrightarrow> sorted_wrt (\<lambda>a b. Value a < Value b) brs \<and> (\<forall>b \<in> set brs. lo \<le> unat (Value b))"
proof (induction brs arbitrary: lo)
  case (Cons b brs)
  then obtain n where n: "unat (Value b) = lo" and t: "tiles (lo + 2 ^ n) hi brs" by auto
  from Cons.IH[OF t] have IH: "sorted_wrt (\<lambda>a b. Value a < Value b) brs" "\<forall>b \<in> set brs. lo + 2 ^ n \<le> unat (Value b)"
    by auto
  have less: "lo < lo + 2 ^ n" by simp
  have "\<forall>c \<in> set brs. lo < unat (Value c)" using IH(2) by (auto intro: less_le_trans[OF less])
  with IH(1) n show ?case by (auto simp: word_less_nat_alt)
qed simp

section \<open>Properties\<close>

text \<open>
  C4.  \<open>BitwiseMatch\<close> fails with \<open>ErrInvalidPortRange\<close> exactly on the ranges that start at port 0 or are
  empty; otherwise every port of the range matches exactly one of the pairs it returns, and a
  port outside of the range none.
\<close>

theorem BitwiseMatch_exact:
  "case BitwiseMatch r of
     Inl e \<Rightarrow> e = ErrInvalidPortRange \<and> \<not> (0 < Start r \<and> Start r \<le> End r)
   | Inr brs \<Rightarrow> 0 < Start r \<and> Start r \<le> End r \<and>
       (\<forall>p. length (filter (\<lambda>br. bit_matches br p) brs) = (if Start r \<le> p \<and> p \<le> End r then 1 else 0))"
proof (cases "0 < Start r \<and> Start r \<le> End r")
  case True
  with BitwiseMatch_tiles[of r] obtain brs where "BitwiseMatch r = Inr brs" by auto
  with True BitwiseMatch_count[OF this] show ?thesis by simp
next
  case False
  with BitwiseMatch_invalid[OF False] show ?thesis by simp
qed

text \<open>
  The pairs come in ascending order, and each is well formed: its mask clears less than the 16 bits of a port, the
  lowest ones, and its value has none of the cleared bits.
\<close>

theorem BitwiseMatch_ordered:
  assumes "BitwiseMatch r = Inr brs"
  shows "sorted_wrt (\<lambda>a b. Value a < Value b) brs \<and>
    (\<forall>br \<in> set brs. \<exists>n < 16. Mask br = NOT (mask n) \<and> Value br AND Mask br = Value br)"
proof -
  from assms BitwiseMatch_invalid[of r] BitwiseMatch_tiles[of r]
  have t: "tiles (unat (Start r)) (Suc (unat (End r))) brs"
    by (cases "0 < Start r \<and> Start r \<le> End r") auto
  have "Value br AND NOT (mask n) = Value br" if "2 ^ n dvd unat (Value br)" for br n
    using that by (simp add: word_unat_eq_iff unat_and_not_mask)
  with tiles_sorted[OF t] BitwiseMatch_mask[OF assms] show ?thesis
    by (metis getMask_not)
qed

lemma BitwiseMatch_ordered_witness:
  "sorted_wrt (\<lambda>a b. Value a < Value b)
     [\<lparr>Value = 1, Mask = 0xffff\<rparr>, \<lparr>Value = 2, Mask = 0xfffe\<rparr>, \<lparr>Value = 4, Mask = 0xfffe\<rparr>]"
proof -
  have "BitwiseMatch \<lparr>Start = 1, End = 5\<rparr> =
      Inr [\<lparr>Value = 1, Mask = 0xffff\<rparr>, \<lparr>Value = 2, Mask = 0xfffe\<rparr>, \<lparr>Value = 4, Mask = 0xfffe\<rparr>]"
    by code_simp
  from BitwiseMatch_ordered[OF this] show ?thesis by (rule conjunct1)
qed

end
