(* ===== verification/PortGreedy.thy ===== *)
theory PortGreedy
  imports PortRanges
begin

text \<open>
  A reference definition for \<open>BitwiseMatch\<close> of \<open>ovs/portrange.go\<close>: on plain numbers, without masks and logarithms,
  the largest aligned block at the end of an interval is cut off until nothing is left.  The code is equivalent to it, and
  the number of blocks is bounded by it.
\<close>

section \<open>The reference\<close>

text \<open>The largest \<open>k \<le> n\<close> such that a block of \<open>2 ^ k\<close> numbers fits at the end of the interval from \<open>lo\<close> to \<open>hi\<close> (exclusive).\<close>

fun block_log :: "nat \<Rightarrow> nat \<Rightarrow> nat \<Rightarrow> nat" where
  "block_log lo hi 0 = 0"
| "block_log lo hi (Suc n) = (if 2 ^ Suc n dvd hi \<and> 2 ^ Suc n \<le> hi - lo then Suc n else block_log lo hi n)"

text \<open>The blocks from the left to the right, each with its first number and the logarithm of its size.\<close>

function greedy_blocks :: "nat \<Rightarrow> nat \<Rightarrow> (nat \<times> nat) list" where
  "greedy_blocks lo hi =
     (if lo < hi
      then (let k = block_log lo hi 15 in greedy_blocks lo (hi - 2 ^ k) @ [(hi - 2 ^ k, k)])
      else [])"
  by pat_completeness auto
termination
  by (relation "measure snd") auto

declare greedy_blocks.simps [simp del]

definition block_pair :: "nat \<times> nat \<Rightarrow> BitRange" where
  "block_pair b = \<lparr>Value = word_of_nat (fst b), Mask = NOT (mask (snd b))\<rparr>"

lemma block_log_fits: "lo < hi \<Longrightarrow> 2 ^ block_log lo hi n dvd hi \<and> 2 ^ block_log lo hi n \<le> hi - lo"
  by (induction n) auto

lemma block_log_le: "block_log lo hi n \<le> n"
  by (induction n) auto

lemma block_log_greatest: "block_log lo hi n < k \<Longrightarrow> k \<le> n \<Longrightarrow> \<not> (2 ^ k dvd hi \<and> 2 ^ k \<le> hi - lo)"
  by (induction n) (auto split: if_splits simp: le_Suc_eq)

lemma block_log_eqI:
  assumes "2 ^ k dvd hi" and "2 ^ k \<le> hi - lo" and "k \<le> n"
    and "\<And>j. k < j \<Longrightarrow> j \<le> n \<Longrightarrow> \<not> (2 ^ j dvd hi \<and> 2 ^ j \<le> hi - lo)"
  shows "block_log lo hi n = k"
proof -
  have "lo < hi"
  proof (rule ccontr)
    assume "\<not> lo < hi"
    with assms(2) show False by simp
  qed
  with assms block_log_fits[of lo hi n] block_log_greatest[of lo hi n k] block_log_le[of lo hi n] show ?thesis
    by (metis linorder_cases)
qed

section \<open>The code follows the reference\<close>

lemma block_ends_iff:
  assumes "n \<le> 16"
  shows "snd (getRange e n) = e \<longleftrightarrow> 2 ^ n dvd Suc (unat e)"
proof -
  let ?m = "2 ^ n :: nat"
  have s: "unat (snd (getRange e n)) = unat e div ?m * ?m + (?m - 1)" using unat_getRange(2)[OF assms] .
  have m: "0 < ?m" by simp
  have d: "unat e = unat e div ?m * ?m + unat e mod ?m" by (simp add: div_mult_mod_eq)
  have "snd (getRange e n) = e \<longleftrightarrow> unat e mod ?m = ?m - 1"
    unfolding word_unat_eq_iff s using d by linarith
  also have "\<dots> \<longleftrightarrow> Suc (unat e) mod ?m = 0"
    using m by (auto simp: mod_Suc)
  finally show ?thesis by (simp add: dvd_eq_mod_eq_0)
qed

lemma fit_greatest: "fit e n < k \<Longrightarrow> k \<le> n \<Longrightarrow> n \<le> 16 \<Longrightarrow> \<not> 2 ^ k dvd Suc (unat e)"
proof (induction n)
  case (Suc n)
  show ?case
  proof (cases "snd (getRange e (Suc n)) > e")
    case True
    then have "\<not> 2 ^ Suc n dvd Suc (unat e)" using block_ends_iff[of "Suc n" e] Suc.prems(3) by auto
    with True Suc show ?thesis by (cases "k = Suc n") auto
  qed (use Suc.prems in auto)
qed simp

lemma fit_block_log:
  assumes "0 < s" and "s \<le> (e :: uint16)"
  shows "fit e (log2_floor (unat (e - s + 1))) = block_log (unat s) (Suc (unat e)) 15"
proof -
  let ?w = "unat (e - s + 1)"
  let ?k = "fit e (log2_floor ?w)"
  have w: "?w = Suc (unat e) - unat s"
    using assms by (simp add: unat_window word_le_nat_alt Suc_diff_le)
  have pos: "0 < ?w" using assms by (simp add: unat_window)
  note k = chosen_block[OF assms] and l = log2_floor_bounds[OF pos]
  have "2 ^ ?k \<le> (2 :: nat) ^ log2_floor ?w" by (intro power_increasing fit_le) simp
  with l pos w have "2 ^ ?k \<le> Suc (unat e) - unat s" by linarith
  moreover have "2 ^ ?k dvd Suc (unat e)" using block_ends_iff[of ?k e] k(1,4) by simp
  moreover have "\<not> (2 ^ j dvd Suc (unat e) \<and> 2 ^ j \<le> Suc (unat e) - unat s)" if "?k < j" "j \<le> 15" for j
  proof (cases "j \<le> log2_floor ?w")
    case True
    have "?w < 2 ^ 16" using unsigned_less[of "e - s + 1"] by simp
    with l have "(2 :: nat) ^ log2_floor ?w < 2 ^ 16" by linarith
    then have "log2_floor ?w \<le> 16" using power_less_imp_less_exp[of "2 :: nat" "log2_floor ?w" 16] by simp
    with fit_greatest[OF that(1) True] show ?thesis by simp
  next
    case False
    then have "(2 :: nat) ^ Suc (log2_floor ?w) \<le> 2 ^ j" by (intro power_increasing) auto
    with l w show ?thesis by linarith
  qed
  ultimately show ?thesis
    using k(1) by (intro block_log_eqI[symmetric])
qed

lemma block_log_one: "block_log lo (Suc lo) n = 0"
proof (rule block_log_eqI)
  fix j :: nat
  assume "0 < j"
  then have "(1 :: nat) < 2 ^ j" by (rule one_less_power[rotated]) simp
  then show "\<not> (2 ^ j dvd Suc lo \<and> 2 ^ j \<le> Suc lo - lo)" by simp
qed auto

lemma BitwiseMatch_greedy_aux:
  assumes "0 < Start r" and "Start r \<le> End r"
  shows "BitwiseMatch r = Inr (map block_pair (greedy_blocks (unat (Start r)) (Suc (unat (End r)))))"
  using assms
proof (induction "unat (End r)" arbitrary: r rule: less_induct)
  case less
  let ?lo = "unat (Start r)" and ?hi = "Suc (unat (End r))"
  have lt: "?lo < ?hi" using less.prems by (simp add: word_le_nat_alt)
  show ?case
  proof (cases "Start r = End r")
    case True
    with less.prems show ?thesis
      by (simp add: BitwiseMatch_single greedy_blocks.simps[of n "Suc n" for n] greedy_blocks.simps[of n n for n]
          block_log_one block_pair_def Let_def)
  next
    case False
    with less.prems have se: "Start r < End r" by simp
    define bl where "bl = fit (End r) (log2_floor (unat (End r - Start r + 1)))"
    define rs where "rs = fst (getRange (End r) bl)"
    note c = chosen_block[OF less.prems, folded bl_def, folded rs_def]
    have bl: "bl = block_log ?lo ?hi 15" unfolding bl_def by (rule fit_block_log[OF less.prems])
    have "unat rs + (2 ^ bl - 1) = unat (End r)"
      using unat_getRange[of bl "End r"] c(1,4) unfolding rs_def by simp
    moreover have "(0 :: nat) < 2 ^ bl" by simp
    ultimately have rs: "unat rs = ?hi - 2 ^ bl" by linarith
    have left: "(if Start r \<noteq> rs then BitwiseMatch \<lparr>Start = Start r, End = rs - 1\<rparr> else Inr []) =
      Inr (map block_pair (greedy_blocks ?lo (unat rs)))"
    proof (cases "Start r = rs")
      case True
      then show ?thesis by (simp add: greedy_blocks.simps)
    next
      case False
      with c(2) have sr: "Start r < rs" by simp
      have u: "Suc (unat (rs - 1)) = unat rs"
        using sr by (subst unat_minus_one) (auto simp: word_less_nat_alt)
      have "unat (rs - 1) < unat (End r)" using u c(3) by (simp add: word_le_nat_alt)
      moreover have "Start r \<le> rs - 1" using u sr by (simp add: word_le_nat_alt word_less_nat_alt)
      ultimately show ?thesis
        using less.hyps[of "\<lparr>Start = Start r, End = rs - 1\<rparr>"] less.prems(1) False u by simp
    qed
    show ?thesis
      unfolding BitwiseMatch_step[OF less.prems(1) se, folded bl_def, folded rs_def] left
      using lt rs by (simp add: greedy_blocks.simps[of ?lo ?hi] Let_def block_pair_def getMask_not flip: bl)
        (simp flip: rs)
  qed
qed

section \<open>The number of blocks\<close>

lemma few_blocks_inside:
  assumes "2 ^ k dvd hi" and "hi - lo < 2 ^ k" and "k \<le> 16"
  shows "length (greedy_blocks lo hi) \<le> k"
  using assms
proof (induction k arbitrary: hi)
  case 0
  then show ?case by (simp add: greedy_blocks.simps)
next
  case (Suc k)
  show ?case
  proof (cases "hi - lo < 2 ^ k")
    case True
    have "2 ^ k dvd hi" using Suc.prems(1) by (rule dvd_trans[rotated]) simp
    with True Suc.IH[of hi] Suc.prems show ?thesis by simp
  next
    case False
    have "2 ^ k dvd hi" using Suc.prems(1) by (rule dvd_trans[rotated]) simp
    moreover have "\<not> 2 ^ j \<le> hi - lo" if "k < j" for j
      using power_increasing[of "Suc k" j "2 :: nat"] that Suc.prems(2) by simp
    ultimately have "block_log lo hi 15 = k" using False Suc.prems(3) by (intro block_log_eqI) auto
    moreover have "length (greedy_blocks lo (hi - 2 ^ k)) \<le> k"
      using Suc.IH[of "hi - 2 ^ k"] Suc.prems \<open>2 ^ k dvd hi\<close> by (simp add: dvd_diff_nat)
    ultimately show ?thesis by (subst greedy_blocks.simps) (simp add: Let_def)
  qed
qed

lemma few_blocks:
  assumes "2 ^ k dvd hi" and "hi - lo < 2 ^ 16" and "k \<le> 16"
  shows "length (greedy_blocks lo hi) \<le> 32 - k"
  using assms
proof (induction "16 - k" arbitrary: k hi rule: less_induct)
  case less
  show ?case
  proof (cases "lo < hi")
    case True
    define n where "n = block_log lo hi 15"
    from True have f: "2 ^ n dvd hi" "2 ^ n \<le> hi - lo" unfolding n_def by (simp_all add: block_log_fits)
    have n: "n \<le> 15" unfolding n_def by (rule block_log_le)
    have step: "length (greedy_blocks lo hi) = Suc (length (greedy_blocks lo (hi - 2 ^ n)))"
      using True by (subst greedy_blocks.simps) (simp add: Let_def n_def)
    show ?thesis
    proof (cases "hi - lo < 2 ^ Suc n")
      case True
      have "2 ^ n dvd hi - 2 ^ n" using f(1) by (simp add: dvd_diff_nat)
      moreover have "hi - 2 ^ n - lo < 2 ^ n" using True f(2) by simp
      ultimately have "length (greedy_blocks lo (hi - 2 ^ n)) \<le> n" using n by (intro few_blocks_inside) auto
      with n step less.prems(3) show ?thesis by simp
    next
      case False
      have "\<not> 2 ^ Suc n dvd hi"
      proof (cases "n = 15")
        case True
        with False less.prems show ?thesis by simp
      next
        case ne: False
        with False n block_log_greatest[of lo hi 15 "Suc n"] show ?thesis by (simp add: n_def)
      qed
      then have "k \<le> n"
        using less.prems(1) by (metis dvd_trans le_imp_power_dvd not_less_eq_eq)
      from f(1) obtain q where q: "hi = 2 ^ n * q" by (auto simp: dvd_def)
      with \<open>\<not> 2 ^ Suc n dvd hi\<close> have "odd q" by (auto simp: mult.commute)
      then have "2 ^ Suc n dvd hi - 2 ^ n"
        unfolding q by (auto elim!: oddE simp: algebra_simps)
      moreover have "hi - 2 ^ n - lo < 2 ^ 16" using less.prems(2) by linarith
      ultimately have "length (greedy_blocks lo (hi - 2 ^ n)) \<le> 32 - Suc n"
        using less.hyps[of "Suc n" "hi - 2 ^ n"] \<open>k \<le> n\<close> n by simp
      with \<open>k \<le> n\<close> n step show ?thesis by linarith
    qed
  qed (simp add: greedy_blocks.simps)
qed

section \<open>The properties\<close>

text \<open>
  C5.  \<open>BitwiseMatch\<close> is equivalent to the reference: for a valid range it returns the blocks that are cut off greedily
  from the end of the interval of the ports, each as its first port and the mask of its size, and
  otherwise the error.
\<close>

theorem BitwiseMatch_greedy:
  "BitwiseMatch r =
     (if 0 < Start r \<and> Start r \<le> End r
      then Inr (map block_pair (greedy_blocks (unat (Start r)) (Suc (unat (End r)))))
      else Inl ErrInvalidPortRange)"
  using BitwiseMatch_greedy_aux[of r] BitwiseMatch_invalid[of r] by simp

section \<open>The calls\<close>

text \<open>
  The same code with a bound on the depth of its recursion, and a count of its calls: None when the bound is not
  enough.
\<close>

(* src: ovs/portrange.go 43-112 PortRange.BitwiseMatch: its calls *)
fun BitwiseMatch_calls :: "nat \<Rightarrow> PortRange \<Rightarrow> (BitRange list result \<times> nat) option" where
  "BitwiseMatch_calls 0 r = None"
| "BitwiseMatch_calls (Suc n) r =
     (if Start r \<le> 0 \<or> End r \<le> 0 then Some (Inl ErrInvalidPortRange, 1)
      else if Start r > End r then Some (Inl ErrInvalidPortRange, 1)
      else if Start r = End r then Some (Inr [\<lparr>Value = Start r, Mask = 0xffff\<rparr>], 1)
      else
        (let window = End r - Start r + 1;
             bitLength = fit (End r) (log2_floor (unat window));
             rangeStart = fst (getRange (End r) bitLength);
             rangeEnd = snd (getRange (End r) bitLength);
             current = \<lparr>Value = rangeStart, Mask = getMask bitLength\<rparr>
         in case (if Start r \<noteq> rangeStart
                  then BitwiseMatch_calls n \<lparr>Start = Start r, End = rangeStart - 1\<rparr> else Some (Inr [], 0)) of
              None \<Rightarrow> None
            | Some (Inl e, j) \<Rightarrow> Some (Inl e, Suc j)
            | Some (Inr left, j) \<Rightarrow>
                (case (if End r \<noteq> rangeEnd
                       then BitwiseMatch_calls n \<lparr>Start = rangeEnd + 1, End = End r\<rparr> else Some (Inr [], 0)) of
                   None \<Rightarrow> None
                 | Some (Inl e, k) \<Rightarrow> Some (Inl e, Suc (j + k))
                 | Some (Inr right, k) \<Rightarrow> Some (Inr (left @ [current] @ right), Suc (j + k)))))"

declare BitwiseMatch_calls.simps(2) [simp del]

lemma calls_invalid:
  "\<not> (0 < Start r \<and> Start r \<le> End r) \<Longrightarrow> BitwiseMatch_calls (Suc n) r = Some (Inl ErrInvalidPortRange, 1)"
  using valid_range_iff[of r] by (subst BitwiseMatch_calls.simps) auto

lemma calls_step:
  assumes "0 < Start r" and "Start r < End r"
  defines "bl \<equiv> fit (End r) (log2_floor (unat (End r - Start r + 1)))"
  defines "rs \<equiv> fst (getRange (End r) bl)"
  shows "BitwiseMatch_calls (Suc n) r =
    (case (if Start r \<noteq> rs then BitwiseMatch_calls n \<lparr>Start = Start r, End = rs - 1\<rparr> else Some (Inr [], 0)) of
       None \<Rightarrow> None
     | Some (Inl e, j) \<Rightarrow> Some (Inl e, Suc j)
     | Some (Inr left, j) \<Rightarrow> Some (Inr (left @ [\<lparr>Value = rs, Mask = getMask bl\<rparr>]), Suc j))"
proof -
  have le: "Start r \<le> End r" using assms(2) by simp
  have e: "snd (getRange (End r) bl) = End r"
    unfolding bl_def using assms(1) le by (rule chosen_block(4))
  have v: "\<not> (Start r \<le> 0 \<or> End r \<le> 0)" "\<not> Start r > End r" "Start r \<noteq> End r"
    using valid_range_iff[of r] assms(1,2) le by auto
  show ?thesis
    using e v by (subst BitwiseMatch_calls.simps)
      (simp add: Let_def bl_def rs_def split: option.split prod.split sum.split)
qed

text \<open>As many nested calls as there are pairs are enough, and there are no more.\<close>

lemma calls_enough:
  assumes "0 < Start r" and "Start r \<le> End r" and "BitwiseMatch r = Inr brs" and "length brs \<le> n"
  shows "BitwiseMatch_calls n r = Some (Inr brs, length brs)"
  using assms
proof (induction n arbitrary: r brs)
  case 0
  then show ?case
    using BitwiseMatch_tiles[of r] by (cases brs) (auto simp: word_le_nat_alt)
next
  case (Suc n)
  show ?case
  proof (cases "Start r = End r")
    case True
    with Suc.prems show ?thesis
      using valid_range_iff[of r] by (subst BitwiseMatch_calls.simps) (auto simp: BitwiseMatch_single)
  next
    case False
    with Suc.prems have lt: "Start r < End r" by simp
    define bl where "bl = fit (End r) (log2_floor (unat (End r - Start r + 1)))"
    define rs where "rs = fst (getRange (End r) bl)"
    note c = chosen_block[OF Suc.prems(1,2), folded bl_def, folded rs_def]
    note steps = BitwiseMatch_step[OF Suc.prems(1) lt, folded bl_def, folded rs_def]
      calls_step[OF Suc.prems(1) lt, folded bl_def, folded rs_def]
    show ?thesis
    proof (cases "Start r = rs")
      case True
      with Suc.prems(3) steps show ?thesis by auto
    next
      case ne: False
      let ?l = "\<lparr>Start = Start r, End = rs - 1\<rparr>"
      from ne Suc.prems(3) steps(1) obtain left where left: "BitwiseMatch ?l = Inr left"
        "brs = left @ [\<lparr>Value = rs, Mask = getMask bl\<rparr>]"
        by (auto split: sum.splits)
      have "Start r < rs" using c(2) ne by simp
      then have "rs \<noteq> 0" "unat (Start r) < unat rs" by (auto simp: word_less_nat_alt)
      moreover from this have "unat (rs - 1) = unat rs - 1" by (intro unat_minus_one)
      ultimately have "Start ?l \<le> End ?l" by (simp add: word_le_nat_alt)
      with Suc.IH[of ?l left] left Suc.prems(1,4) have "BitwiseMatch_calls n ?l = Some (Inr left, length left)" by simp
      with ne steps(2) left(2) show ?thesis by simp
    qed
  qed
qed

text \<open>
  C34.  The recursion of \<open>BitwiseMatch\<close> ends: 32 nested calls are enough for every range.  A valid range takes as many calls as it has
  pairs, at least one and at most 32; for any other range the first call returns the error.
\<close>

theorem BitwiseMatch_returns:
  "if 0 < Start r \<and> Start r \<le> End r
   then \<exists>brs. BitwiseMatch r = Inr brs \<and> BitwiseMatch_calls 32 r = Some (Inr brs, length brs) \<and>
     0 < length brs \<and> length brs \<le> 32
   else BitwiseMatch_calls 32 r = Some (Inl ErrInvalidPortRange, 1)"
proof (cases "0 < Start r \<and> Start r \<le> End r")
  case True
  let ?lo = "unat (Start r)" and ?hi = "Suc (unat (End r))"
  have lt: "?lo < ?hi" using True by (simp add: word_le_nat_alt)
  have "?hi - ?lo < 2 ^ 16"
    using True unsigned_less[of "End r", where ?'a = nat] by (simp add: word_less_nat_alt) linarith
  then have le: "length (greedy_blocks ?lo ?hi) \<le> 32" using few_blocks[of 0 ?hi ?lo] by simp
  have "0 < length (greedy_blocks ?lo ?hi)"
    using lt by (subst greedy_blocks.simps) (simp add: Let_def)
  with le BitwiseMatch_greedy_aux[of r] calls_enough[of r _ 32] True show ?thesis by simp
next
  case False
  with calls_invalid[of r 31] show ?thesis by (simp add: numeral_eq_Suc)
qed

end
