(* ===== verification/GoNet.thy ===== *)
theory GoNet
  imports GoNumbers
begin

text \<open>
  Package \<open>net\<close> of Go 1.17, as far as the code uses it: hardware addresses
  (\<open>ParseMAC\<close>, \<open>HardwareAddr.String\<close>), IP addresses (\<open>ParseIP\<close>, \<open>To4\<close>, \<open>To16\<close>,
  \<open>IP.String\<close>) and CIDR blocks (\<open>ParseCIDR\<close>).  An address is the list of its octets: 4 or 16
  for a \<open>net.IP\<close>, any number for a \<open>net.HardwareAddr\<close> that a caller builds.  The nil
  \<open>net.IP\<close> is \<^const>\<open>None\<close>.
\<close>

type_synonym octets = "8 word list"

section \<open>Numbers of an address\<close>

text \<open>
  \<open>dtoi\<close> and \<open>xtoi\<close>: the number at the head of the string, and how many bytes it takes;
  none where there is no digit or the number reaches \<open>big\<close>.
\<close>

fun num_loop :: "nat \<Rightarrow> nat \<Rightarrow> nat \<Rightarrow> string \<Rightarrow> (nat \<times> nat) option" where
  "num_loop b n i [] = Some (n, i)"
| "num_loop b n i (c # s) =
     (case digit_val c of
        None \<Rightarrow> Some (n, i)
      | Some d \<Rightarrow>
          if b \<le> d then Some (n, i)
          else if 0xFFFFFF \<le> n * b + d then None
          else num_loop b (n * b + d) (Suc i) s)"

definition num_prefix :: "nat \<Rightarrow> string \<Rightarrow> (nat \<times> nat) option" where
  "num_prefix b s =
     (case num_loop b 0 0 s of None \<Rightarrow> None | Some (n, i) \<Rightarrow> if i = 0 then None else Some (n, i))"

abbreviation dtoi :: "string \<Rightarrow> (nat \<times> nat) option" where
  "dtoi \<equiv> num_prefix 10"

abbreviation xtoi :: "string \<Rightarrow> (nat \<times> nat) option" where
  "xtoi \<equiv> num_prefix 16"

section \<open>Hardware addresses\<close>

text \<open>\<open>xtoi2\<close>: two hexadecimal digits followed by the byte \<open>e\<close> or by the end of the string.\<close>

definition xtoi2 :: "string \<Rightarrow> char \<Rightarrow> uint8 option" where
  "xtoi2 s e =
     (if length s > 2 \<and> s ! 2 \<noteq> e then None
      else (case xtoi (take 2 s) of
              Some (n, ei) \<Rightarrow> if ei = 2 then Some (word_of_nat n) else None
            | None \<Rightarrow> None))"

text \<open>The groups of two digits, each followed by the separator (the first form of the source).\<close>

fun mac_octets :: "nat \<Rightarrow> char \<Rightarrow> string \<Rightarrow> octets option" where
  "mac_octets 0 e s = Some []"
| "mac_octets (Suc n) e s =
     (case xtoi2 s e of
        None \<Rightarrow> None
      | Some b \<Rightarrow> map_option ((#) b) (mac_octets n e (drop 3 s)))"

text \<open>
  The groups of four digits: the octets of a group, the first from the two bytes alone.
\<close>

fun mac_quads :: "nat \<Rightarrow> char \<Rightarrow> string \<Rightarrow> octets option" where
  "mac_quads 0 e s = Some []"
| "mac_quads (Suc n) e s =
     (case (xtoi2 (take 2 s) (CHR 0x00), xtoi2 (drop 2 s) e) of
        (Some a, Some b) \<Rightarrow> map_option (\<lambda>hw. a # b # hw) (mac_quads n e (drop 5 s))
      | _ \<Rightarrow> None)"

definition mac_length_ok :: "nat \<Rightarrow> bool" where
  "mac_length_ok n \<longleftrightarrow> n = 6 \<or> n = 8 \<or> n = 20"

definition ParseMAC :: "string \<Rightarrow> octets result" where
  "ParseMAC s =
     (let bad = Inl (ErrInvalidMAC s);
          hw = (if length s < 14 then None
                else if s ! 2 = CHR '':'' \<or> s ! 2 = CHR ''-'' then
                  (if (length s + 1) mod 3 \<noteq> 0 \<or> \<not> mac_length_ok ((length s + 1) div 3) then None
                   else mac_octets ((length s + 1) div 3) (s ! 2) s)
                else if s ! 4 = CHR ''.'' then
                  (if (length s + 1) mod 5 \<noteq> 0 \<or> \<not> mac_length_ok (2 * (length s + 1) div 5) then None
                   else mac_quads ((length s + 1) div 5) (s ! 4) s)
                else None)
      in case hw of None \<Rightarrow> bad | Some a \<Rightarrow> Inr a)"

text \<open>\<open>HardwareAddr.String\<close>.\<close>

definition mac_string :: "octets \<Rightarrow> string" where
  "mac_string a = join '':'' (map (hex_pad 2) a)"

section \<open>IPv4 addresses\<close>

text \<open>The octets of \<open>parseIPv4\<close>, from the \<open>i\<close>th on.\<close>

fun ipv4_loop :: "nat \<Rightarrow> nat \<Rightarrow> string \<Rightarrow> octets option" where
  "ipv4_loop 0 i s = (if s = [] then Some [] else None)"
| "ipv4_loop (Suc k) i s =
     (if s = [] then None
      else if i > 0 \<and> hd s \<noteq> CHR ''.'' then None
      else
        (let t = (if i > 0 then tl s else s) in
         case dtoi t of
           None \<Rightarrow> None
         | Some (n, c) \<Rightarrow>
             if n > 0xFF then None
             else if c > 1 \<and> hd t = CHR ''0'' then None
             else map_option ((#) (word_of_nat n)) (ipv4_loop k (Suc i) (drop c t))))"

definition v4_in_v6_prefix :: octets where
  "v4_in_v6_prefix = [0, 0, 0, 0, 0, 0, 0, 0, 0, 0, 0xff, 0xff]"

text \<open>\<open>parseIPv4\<close> gives the 16-octet form (\<open>net.IPv4\<close>).\<close>

definition parseIPv4 :: "string \<Rightarrow> octets option" where
  "parseIPv4 s = map_option (\<lambda>p. v4_in_v6_prefix @ p) (ipv4_loop 4 0 s)"

definition To4 :: "octets \<Rightarrow> octets option" where
  "To4 ip =
     (if length ip = 4 then Some ip
      else if length ip = 16 \<and> take 12 ip = v4_in_v6_prefix then Some (drop 12 ip)
      else None)"

definition To16 :: "octets \<Rightarrow> octets option" where
  "To16 ip =
     (if length ip = 4 then Some (v4_in_v6_prefix @ ip)
      else if length ip = 16 then Some ip
      else None)"

section \<open>IPv6 addresses\<close>

text \<open>
  The loop of \<open>parseIPv6\<close>: \<open>ip\<close> holds the octets read so far (its length is the \<open>i\<close> of
  the source) and \<open>ell\<close> the position of the ellipsis.  The result is that state where the loop ends,
  with the rest of the string.
\<close>

function ipv6_loop :: "octets \<Rightarrow> nat option \<Rightarrow> string \<Rightarrow> (octets \<times> nat option \<times> string) option" where
  "ipv6_loop ip ell s =
     (if length ip \<ge> 16 then Some (ip, ell, s)
      else case xtoi s of
        None \<Rightarrow> None
      | Some (n, c) \<Rightarrow>
          if n > 0xFFFF then None
          else if c < length s \<and> s ! c = CHR ''.'' then
            (if ell = None \<and> length ip \<noteq> 12 then None
             else if length ip + 4 > 16 then None
             else (case parseIPv4 s of
                     None \<Rightarrow> None
                   | Some ip4 \<Rightarrow> Some (ip @ drop 12 ip4, ell, [])))
          else
            (let ip' = ip @ [word_of_nat (n div 256), word_of_nat n]; t = drop c s in
             if t = [] then Some (ip', ell, [])
             else if hd t \<noteq> CHR '':'' \<or> length t = 1 then None
             else
               (let u = tl t in
                if hd u = CHR '':'' then
                  (if ell \<noteq> None then None
                   else if tl u = [] then Some (ip', Some (length ip'), [])
                   else ipv6_loop ip' (Some (length ip')) (tl u))
                else ipv6_loop ip' ell u)))"
  by pat_completeness auto
termination
  by (relation "measure (\<lambda>(ip, ell, s). 16 - length ip)") auto

declare ipv6_loop.simps [simp del]

definition parseIPv6 :: "string \<Rightarrow> octets option" where
  "parseIPv6 s =
     (let (ell0, s0) = (if has_prefix s ''::'' then (Some 0, drop 2 s) else (None, s)) in
      if ell0 \<noteq> None \<and> s0 = [] then Some (replicate 16 0)
      else
        (case ipv6_loop [] ell0 s0 of
           None \<Rightarrow> None
         | Some (ip, ell, rest) \<Rightarrow>
             if rest \<noteq> [] then None
             else if length ip < 16 then
               (case ell of
                  None \<Rightarrow> None
                | Some e \<Rightarrow> Some (take e ip @ replicate (16 - length ip) 0 @ drop e ip))
             else if ell \<noteq> None then None
             else Some ip))"

text \<open>\<open>ParseIP\<close>: the first dot or colon decides which of the two it is.\<close>

fun ip_kind :: "string \<Rightarrow> char option" where
  "ip_kind [] = None"
| "ip_kind (c # s) = (if c = CHR ''.'' \<or> c = CHR '':'' then Some c else ip_kind s)"

definition ParseIP :: "string \<Rightarrow> octets option" where
  "ParseIP s =
     (case ip_kind s of
        None \<Rightarrow> None
      | Some c \<Rightarrow> if c = CHR ''.'' then parseIPv4 s else parseIPv6 s)"

text \<open>
  \<open>ParseCIDR\<close>: the code uses the address and whether there is an error, not the network.
\<close>

definition ParseCIDR :: "string \<Rightarrow> octets option" where
  "ParseCIDR s =
     (case index_of s ''/'' of
        None \<Rightarrow> None
      | Some i \<Rightarrow>
          (let addr = take i s; mask = drop (Suc i) s;
               (iplen, ip) = (case parseIPv4 addr of
                                Some p \<Rightarrow> (4, Some p)
                              | None \<Rightarrow> (16, parseIPv6 addr))
           in case (ip, dtoi mask) of
                (Some p, Some (n, c)) \<Rightarrow>
                  if c \<noteq> length mask \<or> n > 8 * iplen then None else Some p
              | _ \<Rightarrow> None))"

section \<open>Printing an IP address\<close>

definition ipv4_string :: "octets \<Rightarrow> string" where
  "ipv4_string p = join ''.'' (map dec p)"

text \<open>The 16-bit groups of a 16-octet address.\<close>

fun hextets :: "octets \<Rightarrow> nat list" where
  "hextets (a # b # ip) = (unat a * 256 + unat b) # hextets ip"
| "hextets _ = []"

text \<open>
  The longest run of zero groups, the first one where several are as long: its first group and
  the one after its last.  \<open>i\<close> is the group the loop is at; after a run that is taken it
  continues behind the group that ended it.
\<close>

fun zero_run :: "nat list \<Rightarrow> nat" where
  "zero_run [] = 0"
| "zero_run (h # hs) = (if h = 0 then Suc (zero_run hs) else 0)"

function longest_zeros :: "nat \<Rightarrow> nat list \<Rightarrow> nat \<times> nat \<Rightarrow> nat \<times> nat" where
  "longest_zeros i [] best = best"
| "longest_zeros i (h # hs) best =
     (let r = zero_run (h # hs) in
      if r > 0 \<and> r > snd best - fst best
      then longest_zeros (i + r + 1) (drop r hs) (i, i + r)
      else longest_zeros (Suc i) hs best)"
  by pat_completeness auto
termination
  by (relation "measure (\<lambda>(i, hs, best). length hs)") auto

definition ipv6_string :: "octets \<Rightarrow> string" where
  "ipv6_string ip =
     (let hs = hextets ip; (e0, e1) = longest_zeros 0 hs (0, 0) in
      if e1 - e0 \<le> 1 then join '':'' (map (fmt_nat 16) hs)
      else join '':'' (map (fmt_nat 16) (take e0 hs)) @ ''::'' @
           join '':'' (map (fmt_nat 16) (drop e1 hs)))"

definition ip_string :: "octets \<Rightarrow> string" where
  "ip_string ip =
     (if ip = [] then ''<nil>''
      else (case To4 ip of
              Some p4 \<Rightarrow> ipv4_string p4
            | None \<Rightarrow>
                if length ip \<noteq> 16 then CHR ''?'' # concat (map (hex_pad 2) ip)
                else ipv6_string ip))"

section \<open>Round trips\<close>

lemma num_loop_append:
  assumes "t = [] \<or> digit_val (hd t) = None \<or> b \<le> the (digit_val (hd t))"
  shows "num_loop b n i (s @ t) = num_loop b n i s"
  using assms by (induction b n i s rule: num_loop.induct) (cases t; auto split: option.splits)+

lemma num_loop_uint_loop:
  assumes "uint_loop False b mx n s = Inr m" and "mx < 0xFFFFFF"
  shows "num_loop b n i s = Some (m, i + length s)"
  using assms by (induction s arbitrary: n i) (auto split: option.splits if_splits)

lemma num_prefix_fmt_nat:
  assumes "2 \<le> b" and "b \<le> 36" and "n < 0xFFFFFF"
    and "t = [] \<or> digit_val (hd t) = None \<or> b \<le> the (digit_val (hd t))"
  shows "num_prefix b (fmt_nat b n @ t) = Some (n, length (fmt_nat b n))"
proof -
  have "num_loop b 0 0 (fmt_nat b n) = Some (n, 0 + length (fmt_nat b n))"
    using assms by (intro num_loop_uint_loop[of _ n]) (auto simp: uint_loop_fmt_nat)
  then show ?thesis
    using assms by (simp add: num_prefix_def num_loop_append)
qed

lemma fmt_nat_leading_zero:
  assumes "2 \<le> b" and "b \<le> 36" and "hd (fmt_nat b n) = CHR ''0''"
  shows "n = 0"
  using assms
proof (induction b n rule: fmt_nat.induct)
  case (1 b n)
  show ?case
  proof (cases "n < b")
    case True
    then have "byte (digit_char n) = 48"
      using "1.prems" by (simp add: fmt_nat_small byte_def)
    with True "1.prems" show ?thesis by (simp add: byte_digit_char split: if_splits)
  next
    case False
    with "1.prems" have "hd (fmt_nat b (n div b)) = CHR ''0''"
      by (simp add: fmt_nat_step)
    with 1 False have "n div b = 0" by simp
    with False "1.prems" show ?thesis by (simp add: div_eq_0_iff)
  qed
qed

lemma no_leading_zero: "length (fmt_nat 10 n) > 1 \<Longrightarrow> hd (fmt_nat 10 n) \<noteq> CHR ''0''"
  using fmt_nat_leading_zero[of 10 n] by (auto simp: fmt_nat_small)

lemma ipv4_loop_string:
  assumes "length p = Suc k" 
  shows "ipv4_loop (Suc k) i ((if i > 0 then ''.'' else []) @ ipv4_string p) = Some p"
  using assms
proof (induction k arbitrary: p i)
  case 0
  then obtain w where p: "p = [w]" by (auto simp: length_Suc_conv)
  have "unat w < 256" using unsigned_less[of w] by simp
  then show ?case
    using num_prefix_fmt_nat[of 10 "unat w" "[]"] no_leading_zero[of "unat w"]
    by (auto simp: p ipv4_string_def dec_def Let_def)
next
  case (Suc k)
  then obtain w q where p: "p = w # q" and q: "length q = Suc k" by (auto simp: length_Suc_conv)
  then have q': "q \<noteq> []" by auto
  have w: "unat w < 256" using unsigned_less[of w] by simp
  have n: "dtoi (dec w @ CHR ''.'' # ipv4_string q) = Some (unat w, length (dec w))"
    unfolding dec_def using w by (intro num_prefix_fmt_nat) (auto simp: digit_val_def byte_def)
  have z: "length (dec w) > 1 \<Longrightarrow> hd (dec w) \<noteq> CHR ''0''"
    unfolding dec_def by (rule no_leading_zero)
  show ?case
    using n w z q q' Suc.IH[OF q, of "Suc i"]
    by (auto simp: p ipv4_string_def join_Cons Let_def simp del: ipv4_loop.simps
        simp add: ipv4_loop.simps(2)[of "Suc k"])
qed

text \<open>An IPv4 address reads back as its 16-octet form.\<close>

lemma parseIPv4_ipv4_string:
  "length p = 4 \<Longrightarrow> parseIPv4 (ipv4_string p) = Some (v4_in_v6_prefix @ p)"
  using ipv4_loop_string[of p 3 0] by (simp add: parseIPv4_def eval_nat_numeral)

lemma hex_pad2:
  fixes w :: uint8
  shows "hex_pad 2 w = [digit_char (unat w div 16), digit_char (unat w mod 16)]"
proof -
  have w: "unat w < 256" using unsigned_less[of w] by simp
  show ?thesis
  proof (cases "unat w < 16")
    case True
    then show ?thesis
      by (simp add: hex_pad_def pad_left_def fmt_nat_small)
  next
    case False
    with w show ?thesis
      by (simp add: hex_pad_def pad_left_def fmt_nat_step fmt_nat_small)
  qed
qed

lemma xtoi2_hex_pad:
  "xtoi2 (hex_pad 2 w @ t) e = (if t \<noteq> [] \<and> hd t \<noteq> e then None else Some w)"
proof -
  have w: "unat w < 256" using unsigned_less[of w] by simp
  have l: "unat w div 16 < 16" using w by (simp add: less_mult_imp_div_less)
  have "take 2 (hex_pad 2 w @ t) = hex_pad 2 w" by (simp add: hex_pad2)
  moreover have "xtoi (hex_pad 2 w) = Some (unat w, 2)"
    using l w by (simp add: hex_pad2 num_prefix_def)
  ultimately show ?thesis
    by (cases t) (auto simp: xtoi2_def hex_pad2 nth_append)
qed

lemma mac_octets_string:
  "length a = n \<Longrightarrow> mac_octets n (CHR '':'') (mac_string a) = Some a"
proof (induction a arbitrary: n)
  case Nil
  then show ?case by simp
next
  case (Cons w a)
  then show ?case
    using xtoi2_hex_pad[of w "[]" "CHR '':''"]
      xtoi2_hex_pad[of w "CHR '':'' # mac_string a" "CHR '':''"]
    by (cases "a = []") (auto simp: mac_string_def join_Cons hex_pad2)
qed

lemma length_mac_string: "a \<noteq> [] \<Longrightarrow> length (mac_string a) + 1 = 3 * length a"
  by (induction a) (auto simp: mac_string_def join_Cons hex_pad2)

lemma mac_string_nth2: "length a \<ge> 2 \<Longrightarrow> mac_string a ! 2 = CHR '':''"
  by (cases a) (auto simp: mac_string_def join_Cons hex_pad2 nth_append)

lemma ParseMAC_mac_string:
  assumes "mac_length_ok (length a)"
  shows "ParseMAC (mac_string a) = Inr a"
proof -
  have l: "length a \<ge> 6" using assms by (auto simp: mac_length_ok_def)
  then have s: "length (mac_string a) + 1 = 3 * length a"
    by (intro length_mac_string) auto
  with l have "\<not> length (mac_string a) < 14" by linarith
  moreover have "(length (mac_string a) + 1) mod 3 = 0"
    and "(length (mac_string a) + 1) div 3 = length a"
    unfolding s by auto
  ultimately show ?thesis
    using assms l by (simp add: ParseMAC_def mac_string_nth2 mac_octets_string)
qed

lemma mac_octets_length: "mac_octets n e s = Some a \<Longrightarrow> length a = n"
  by (induction n arbitrary: s a) (auto split: option.splits)

lemma mac_quads_length: "mac_quads n e s = Some a \<Longrightarrow> length a = 2 * n"
  by (induction n arbitrary: s a) (auto split: option.splits)

text \<open>What \<open>ParseMAC\<close> accepts has 6, 8 or 20 octets.\<close>

lemma ParseMAC_length: "ParseMAC s = Inr a \<Longrightarrow> mac_length_ok (length a)"
  by (auto simp: ParseMAC_def Let_def mac_length_ok_def split: if_splits option.splits
      dest!: mac_octets_length mac_quads_length)

lemma ipv4_loop_length: "ipv4_loop k i s = Some p \<Longrightarrow> length p = k"
  by (induction k i s arbitrary: p rule: ipv4_loop.induct)
    (auto simp: Let_def split: if_splits option.splits)

lemma parseIPv4_To4: "parseIPv4 s = Some ip \<Longrightarrow> \<exists>p. length p = 4 \<and> ip = v4_in_v6_prefix @ p \<and> To4 ip = Some p"
  by (auto simp: parseIPv4_def To4_def v4_in_v6_prefix_def dest!: ipv4_loop_length)

lemma ipv4_string_chars: "c \<in> set (ipv4_string p) \<Longrightarrow> is_digit c \<or> c = CHR ''.''"
  using set_join_subset[of "''.''" "map dec p"] fmt_nat_chars[of c 10]
  by (fastforce simp: ipv4_string_def dec_def is_digit_def)

lemma mac_string_chars:
  "c \<in> set (mac_string a) \<Longrightarrow> is_digit c \<or> (97 \<le> byte c \<and> byte c \<le> 102) \<or> c = CHR '':''"
proof -
  have hp: "d \<in> set (hex_pad 2 w) \<Longrightarrow> is_digit d \<or> (97 \<le> byte d \<and> byte d \<le> 102)" for d and w :: uint8
    using fmt_nat_chars[of d 16 "unat w"]
    by (auto simp: hex_pad_def pad_left_def is_digit_def byte_def split: if_splits)
  show "c \<in> set (mac_string a) \<Longrightarrow> ?thesis"
    using set_join_subset[of "'':''" "map (hex_pad 2) a"] hp by (fastforce simp: mac_string_def)
qed

section \<open>The bytes of an address that is accepted\<close>

definition addr_char :: "char \<Rightarrow> bool" where
  "addr_char c \<longleftrightarrow> (\<exists>d < 16. digit_val c = Some d) \<or> c = CHR ''.'' \<or> c = CHR '':''"

lemma num_loop_chars:
  "num_loop b n i s = Some (m, j) \<Longrightarrow>
     i \<le> j \<and> j - i \<le> length s \<and> (\<forall>c \<in> set (take (j - i) s). \<exists>d < b. digit_val c = Some d)"
proof (induction b n i s rule: num_loop.induct)
  case (1 b n i)
  then show ?case by simp
next
  case (2 b n i c s)
  show ?case
  proof (cases "digit_val c")
    case None
    with "2.prems" show ?thesis by simp
  next
    case (Some d)
    show ?thesis
    proof (cases "b \<le> d")
      case True
      with Some "2.prems" show ?thesis by simp
    next
      case False
      with Some "2.prems" have nl: "num_loop b (n * b + d) (Suc i) s = Some (m, j)"
        and big: "\<not> 0xFFFFFF \<le> n * b + d"
        by (auto split: if_splits)
      from "2.IH"[OF Some False big nl] have *: "Suc i \<le> j" "j - Suc i \<le> length s"
        "\<forall>c \<in> set (take (j - Suc i) s). \<exists>d < b. digit_val c = Some d" by auto
      then have "j - i = Suc (j - Suc i)" by simp
      with * Some False show ?thesis by (auto simp: take_Suc_Cons)
    qed
  qed
qed

lemma num_prefix_chars:
  assumes "num_prefix b s = Some (n, k)" and "b \<le> 16"
  shows "k \<le> length s" and "0 < k" and "c \<in> set (take k s) \<Longrightarrow> addr_char c"
  using assms num_loop_chars[of b 0 0 s n k]
  by (fastforce simp: num_prefix_def addr_char_def split: option.splits if_splits)+

lemma num_prefix_all:
  assumes "num_prefix b s = Some (n, k)" and "b \<le> 16" and "\<forall>c \<in> set (drop k s). addr_char c"
  shows "\<forall>c \<in> set s. addr_char c"
  using assms(3) num_prefix_chars(3)[OF assms(1,2)] by (metis Un_iff append_take_drop_id set_append)

lemma ipv4_loop_chars: "ipv4_loop k i s = Some p \<Longrightarrow> \<forall>c \<in> set s. addr_char c"
proof (induction k i s arbitrary: p rule: ipv4_loop.induct)
  case (1 i s)
  then show ?case by (auto split: if_splits)
next
  case (2 k i s)
  define t where "t = (if i > 0 then tl s else s)"
  from "2.prems" obtain n c q where s: "s \<noteq> []" "\<not> (i > 0 \<and> hd s \<noteq> CHR ''.'')"
    and t: "dtoi t = Some (n, c)" "\<not> n > 0xFF" "\<not> (c > 1 \<and> hd t = CHR ''0'')"
    and q: "ipv4_loop k (Suc i) (drop c t) = Some q"
    by (auto simp: t_def[symmetric] split: if_splits option.splits)
  from "2.IH"[OF s t_def t(1) refl t(2,3) q] have "\<forall>c \<in> set (drop c t). addr_char c" .
  with num_prefix_all[OF t(1)] have "\<forall>c \<in> set t. addr_char c" by simp
  with s show ?case
    by (cases s) (auto simp: t_def addr_char_def split: if_splits)
qed

lemma parseIPv4_chars: "parseIPv4 s = Some p \<Longrightarrow> c \<in> set s \<Longrightarrow> addr_char c"
  by (auto simp: parseIPv4_def dest: ipv4_loop_chars)

lemma ipv6_loop_chars:
  "ipv6_loop ip ell s = Some (ip', ell', rest) \<Longrightarrow> \<forall>c \<in> set s. addr_char c \<or> c \<in> set rest"
proof (induction ip ell s rule: ipv6_loop.induct)
  case (1 ip ell s)
  show ?case
  proof (cases "length ip \<ge> 16")
    case True
    with "1.prems" show ?thesis by (simp add: ipv6_loop.simps)
  next
    case False
    from False "1.prems" obtain n k where x: "xtoi s = Some (n, k)" "\<not> n > 0xFFFF"
      by (subst (asm) ipv6_loop.simps) (auto split: option.splits if_splits)
    show ?thesis
    proof (cases "k < length s \<and> s ! k = CHR ''.''")
      case True
      with False x "1.prems" obtain p where "parseIPv4 s = Some p"
        by (subst (asm) ipv6_loop.simps) (auto split: option.splits if_splits)
      then show ?thesis by (auto dest: parseIPv4_chars)
    next
      case nodot: False
      have "\<forall>c \<in> set (drop k s). addr_char c \<or> c \<in> set rest"
      proof (cases "drop k s")
        case (Cons a u)
        note t = this
        with False x nodot "1.prems" have a: "a = CHR '':''" "u \<noteq> []"
          by (auto simp: ipv6_loop.simps[of ip] Let_def split: if_splits)
        then obtain b v where u: "u = b # v" by (cases u) auto
        note IH = "1.IH"[OF False x(1) refl x(2) nodot refl t[symmetric], unfolded u]
        show ?thesis
        proof (cases "b = CHR '':''")
          case True
          show ?thesis
          proof (cases "v = []")
            case True
            then show ?thesis using t u a \<open>b = _\<close> by (auto simp: addr_char_def)
          next
            case False
            with \<open>\<not> length ip \<ge> 16\<close> x nodot t u a True "1.prems" have "ell = None"
              "ipv6_loop (ip @ [word_of_nat (n div 256), word_of_nat n]) (Some (length ip + 2)) v = Some (ip', ell', rest)"
              by (auto simp: ipv6_loop.simps[of ip] Let_def split: if_splits)
            with IH(1) a False True show ?thesis using t u by (auto simp: addr_char_def)
          qed
        next
          case nc: False
          with False x nodot t u a "1.prems" have
            "ipv6_loop (ip @ [word_of_nat (n div 256), word_of_nat n]) ell u = Some (ip', ell', rest)"
            by (auto simp: ipv6_loop.simps[of ip] Let_def split: if_splits)
          with IH(2) a nc show ?thesis using t u by (auto simp: addr_char_def)
        qed
      qed simp
      with num_prefix_chars(3)[OF x(1)] show ?thesis
        by (metis Un_iff append_take_drop_id le_refl set_append)
    qed
  qed
qed

lemma parseIPv6_chars:
  assumes "parseIPv6 s = Some p" and "c \<in> set s"
  shows "addr_char c"
proof -
  define s0 where "s0 = (if has_prefix s ''::'' then drop 2 s else s)"
  have c: "c = CHR '':'' \<or> c \<in> set s0"
    using assms(2) by (auto simp: s0_def has_prefix_def prefix_def)
  have "\<forall>c \<in> set s0. addr_char c"
  proof (cases "s0 = []")
    case False
    with assms(1) obtain ell0 ip ell where "ipv6_loop [] ell0 s0 = Some (ip, ell, [])"
      by (auto simp: parseIPv6_def s0_def Let_def split: if_splits option.splits prod.splits)
    from ipv6_loop_chars[OF this] show ?thesis by simp
  qed simp
  with c show ?thesis by (auto simp: addr_char_def)
qed

lemma ParseIP_chars: "ParseIP s = Some p \<Longrightarrow> c \<in> set s \<Longrightarrow> addr_char c"
  by (auto simp: ParseIP_def split: option.splits if_splits dest: parseIPv4_chars parseIPv6_chars)

lemma ParseCIDR_chars:
  assumes "ParseCIDR s = Some p" and "c \<in> set s"
  shows "addr_char c \<or> c = CHR ''/''"
proof -
  from assms(1) obtain i n k where i: "index_of s ''/'' = Some i"
    and a: "parseIPv4 (take i s) \<noteq> None \<or> parseIPv6 (take i s) \<noteq> None"
    and m: "dtoi (drop (Suc i) s) = Some (n, k)" "k = length (drop (Suc i) s)"
    by (fastforce simp: ParseCIDR_def Let_def split: option.splits if_splits prod.splits)
  from index_of_Some[OF i] have "drop i s = CHR ''/'' # drop (Suc i) s"
    by (cases "drop i s") (auto simp: drop_Suc drop_tl)
  then have "s = take i s @ CHR ''/'' # drop (Suc i) s" by (metis append_take_drop_id)
  with assms(2) have "c \<in> set (take i s) \<or> c = CHR ''/'' \<or> c \<in> set (drop (Suc i) s)"
    by (metis Un_iff set_ConsD set_append)
  with a num_prefix_chars(3)[OF m(1)] m(2) show ?thesis
    by (auto dest: parseIPv4_chars parseIPv6_chars)
qed

lemma addr_char_neq:
  "addr_char c \<Longrightarrow> c \<noteq> CHR ''='' \<and> c \<noteq> CHR '','' \<and> c \<noteq> CHR '' '' \<and> c \<noteq> CHR ''/''"
  by (auto simp: addr_char_def digit_val_def byte_def)

lemma ip_kind_dot: "CHR ''.'' \<in> set s \<Longrightarrow> CHR '':'' \<notin> set s \<Longrightarrow> ip_kind s = Some (CHR ''.'')"
  by (induction s) auto

end
