(* ===== verification/Matches.thy ===== *)
theory Matches
  imports GoNet PortRanges
begin

unbundle bit_operations_syntax

text \<open>
  \<open>ovs/match.go\<close>: the OpenFlow matches.  A Go struct that implements \<open>Match\<close> is a
  constructor of \<open>match\<close> with the struct's fields in their order; the exported functions that
  build one keep their names, and \<open>MarshalText\<close> of the struct \<open>x\<close> is \<open>x_MarshalText\<close>.
  The methods \<open>GoString\<close> (printing Go source for code generation) are in theory \<open>GoString\<close>.
\<close>

section \<open>Names of matches\<close>

(* src: ovs/match.go const source *)
abbreviation source :: string where "source \<equiv> ''src''"
(* src: ovs/match.go const destination *)
abbreviation destination :: string where "destination \<equiv> ''dst''"
(* src: ovs/match.go const arpOp *)
abbreviation arpOp :: string where "arpOp \<equiv> ''arp_op''"
(* src: ovs/match.go const arpSHA *)
abbreviation arpSHA :: string where "arpSHA \<equiv> ''arp_sha''"
(* src: ovs/match.go const arpSPA *)
abbreviation arpSPA :: string where "arpSPA \<equiv> ''arp_spa''"
(* src: ovs/match.go const arpTHA *)
abbreviation arpTHA :: string where "arpTHA \<equiv> ''arp_tha''"
(* src: ovs/match.go const arpTPA *)
abbreviation arpTPA :: string where "arpTPA \<equiv> ''arp_tpa''"
(* src: ovs/match.go const conjID *)
abbreviation conjID :: string where "conjID \<equiv> ''conj_id''"
(* src: ovs/match.go const ctMark *)
abbreviation ctMark :: string where "ctMark \<equiv> ''ct_mark''"
(* src: ovs/match.go const ctState *)
abbreviation ctState :: string where "ctState \<equiv> ''ct_state''"
(* src: ovs/match.go const ctZone *)
abbreviation ctZone :: string where "ctZone \<equiv> ''ct_zone''"
(* src: ovs/match.go const dlDST *)
abbreviation dlDST :: string where "dlDST \<equiv> ''dl_dst''"
(* src: ovs/match.go const dlSRC *)
abbreviation dlSRC :: string where "dlSRC \<equiv> ''dl_src''"
(* src: ovs/match.go const dlType *)
abbreviation dlType :: string where "dlType \<equiv> ''dl_type''"
(* src: ovs/match.go const dlVLAN *)
abbreviation dlVLAN :: string where "dlVLAN \<equiv> ''dl_vlan''"
(* src: ovs/match.go const dlVLANPCP *)
abbreviation dlVLANPCP :: string where "dlVLANPCP \<equiv> ''dl_vlan_pcp''"
(* src: ovs/match.go const icmp6Code *)
abbreviation icmp6Code :: string where "icmp6Code \<equiv> ''icmpv6_code''"
(* src: ovs/match.go const icmp6Type *)
abbreviation icmp6Type :: string where "icmp6Type \<equiv> ''icmpv6_type''"
(* src: ovs/match.go const icmpCode *)
abbreviation icmpCode :: string where "icmpCode \<equiv> ''icmp_code''"
(* src: ovs/match.go const icmpType *)
abbreviation icmpType :: string where "icmpType \<equiv> ''icmp_type''"
(* src: ovs/match.go const ipFrag *)
abbreviation ipFrag :: string where "ipFrag \<equiv> ''ip_frag''"
(* src: ovs/match.go const ipv6DST *)
abbreviation ipv6DST :: string where "ipv6DST \<equiv> ''ipv6_dst''"
(* src: ovs/match.go const ipv6Label *)
abbreviation ipv6Label :: string where "ipv6Label \<equiv> ''ipv6_label''"
(* src: ovs/match.go const ipv6SRC *)
abbreviation ipv6SRC :: string where "ipv6SRC \<equiv> ''ipv6_src''"
(* src: ovs/match.go const metadata *)
abbreviation metadata :: string where "metadata \<equiv> ''metadata''"
(* src: ovs/match.go const ndSLL *)
abbreviation ndSLL :: string where "ndSLL \<equiv> ''nd_sll''"
(* src: ovs/match.go const ndTarget *)
abbreviation ndTarget :: string where "ndTarget \<equiv> ''nd_target''"
(* src: ovs/match.go const ndTLL *)
abbreviation ndTLL :: string where "ndTLL \<equiv> ''nd_tll''"
(* src: ovs/match.go const nwDST *)
abbreviation nwDST :: string where "nwDST \<equiv> ''nw_dst''"
(* src: ovs/match.go const nwECN *)
abbreviation nwECN :: string where "nwECN \<equiv> ''nw_ecn''"
(* src: ovs/match.go const nwProto *)
abbreviation nwProto :: string where "nwProto \<equiv> ''nw_proto''"
(* src: ovs/match.go const nwSRC *)
abbreviation nwSRC :: string where "nwSRC \<equiv> ''nw_src''"
(* src: ovs/match.go const nwTOS *)
abbreviation nwTOS :: string where "nwTOS \<equiv> ''nw_tos''"
(* src: ovs/match.go const nwTTL *)
abbreviation nwTTL :: string where "nwTTL \<equiv> ''nw_ttl''"
(* src: ovs/match.go const tcpFlags *)
abbreviation tcpFlags :: string where "tcpFlags \<equiv> ''tcp_flags''"
(* src: ovs/match.go const tpDST *)
abbreviation tpDST :: string where "tpDST \<equiv> ''tp_dst''"
(* src: ovs/match.go const tpSRC *)
abbreviation tpSRC :: string where "tpSRC \<equiv> ''tp_src''"
(* src: ovs/match.go const tunDST *)
abbreviation tunDST :: string where "tunDST \<equiv> ''tun_dst''"
(* src: ovs/match.go const tunFlags *)
abbreviation tunFlags :: string where "tunFlags \<equiv> ''tun_flags''"
(* src: ovs/match.go const tunGbpFlags *)
abbreviation tunGbpFlags :: string where "tunGbpFlags \<equiv> ''tun_gbp_flags''"
(* src: ovs/match.go const tunGbpID *)
abbreviation tunGbpID :: string where "tunGbpID \<equiv> ''tun_gbp_id''"
(* src: ovs/match.go const tunID *)
abbreviation tunID :: string where "tunID \<equiv> ''tun_id''"
(* src: ovs/match.go const tunSRC *)
abbreviation tunSRC :: string where "tunSRC \<equiv> ''tun_src''"
(* src: ovs/match.go const tunTOS *)
abbreviation tunTOS :: string where "tunTOS \<equiv> ''tun_tos''"
(* src: ovs/match.go const tunTTL *)
abbreviation tunTTL :: string where "tunTTL \<equiv> ''tun_ttl''"
(* src: ovs/match.go const tunv6DST *)
abbreviation tunv6DST :: string where "tunv6DST \<equiv> ''tun_ipv6_dst''"
(* src: ovs/match.go const tunv6SRC *)
abbreviation tunv6SRC :: string where "tunv6SRC \<equiv> ''tun_ipv6_src''"
(* src: ovs/match.go const udpDST *)
abbreviation udpDST :: string where "udpDST \<equiv> ''udp_dst''"
(* src: ovs/match.go const udpSRC *)
abbreviation udpSRC :: string where "udpSRC \<equiv> ''udp_src''"
(* src: ovs/match.go const vlanTCI1 *)
abbreviation vlanTCI1 :: string where "vlanTCI1 \<equiv> ''vlan_tci1''"
(* src: ovs/match.go const vlanTCI *)
abbreviation vlanTCI :: string where "vlanTCI \<equiv> ''vlan_tci''"
(* src: ovs/flow.go const inPort *)
abbreviation inPort :: string where "inPort \<equiv> ''in_port''"

section \<open>The matches\<close>

type_synonym hwaddr = octets

(* src: ovs/match.go type Match *)
datatype (plugins only: code size) match =
    dataLinkMatch string string              \<comment> \<open>srcdst, addr\<close>
  | dataLinkTypeMatch uint16
  | dataLinkVLANMatch int
  | dataLinkVLANPCPMatch int
  | networkMatch string string               \<comment> \<open>srcdst, ip\<close>
  | networkECN int
  | networkTOS int
  | tunnelGBP int
  | tunnelGbpFlags int
  | tunnelFlags int
  | networkTTL int
  | tunnelTTL int
  | tunnelTOS int
  | conjunctionIDMatch uint32
  | networkProtocolMatch uint8
  | ipv6Match string string                  \<comment> \<open>srcdst, ip\<close>
  | icmpTypeMatch uint8
  | icmpCodeMatch uint8
  | icmp6TypeMatch uint8
  | icmp6CodeMatch uint8
  | inPortMatch int
  | neighborDiscoveryTargetMatch string
  | neighborDiscoveryLinkLayerMatch string hwaddr   \<comment> \<open>srctgt, addr\<close>
  | arpOperationMatch uint16
  | arpHardwareAddressMatch string hwaddr    \<comment> \<open>srctgt, addr\<close>
  | arpProtocolAddressMatch string string    \<comment> \<open>srctgt, ip\<close>
  | udpPortMatch string uint16 uint16        \<comment> \<open>srcdst, port, mask\<close>
  | transportPortMatch string uint16 uint16  \<comment> \<open>srcdst, port, mask\<close>
  | vlanTCIMatch uint16 uint16               \<comment> \<open>tci, mask\<close>
  | vlanTCI1Match uint16 uint16
  | ipv6LabelMatch uint32 uint32             \<comment> \<open>label, mask\<close>
  | arpOpMatch uint16
  | connectionTrackingMarkMatch uint32 uint32
  | connectionTrackingZoneMatch uint16
  | connectionTrackingMatch "string list"
  | metadataMatch uint64 uint64
  | tcpFlagsMatch "string list"
  | tunnelIDMatch uint64 uint64
  | tunnelMatch string string                \<comment> \<open>srcdst, ip\<close>
  | ipFragMatch string
  | fieldMatch string string                 \<comment> \<open>field, srcOrValue\<close>


section \<open>Building a match\<close>

text \<open>The exported functions of the package.\<close>

(* src: ovs/match.go func DataLinkSource *)
definition DataLinkSource :: "string \<Rightarrow> match" where
  "DataLinkSource addr = dataLinkMatch source addr"

(* src: ovs/match.go func DataLinkDestination *)
definition DataLinkDestination :: "string \<Rightarrow> match" where
  "DataLinkDestination addr = dataLinkMatch destination addr"

(* src: ovs/match.go func DataLinkType *)
definition DataLinkType :: "uint16 \<Rightarrow> match" where
  "DataLinkType etherType = dataLinkTypeMatch etherType"

(* src: ovs/match.go func DataLinkVLAN *)
definition DataLinkVLAN :: "int \<Rightarrow> match" where
  "DataLinkVLAN vid = dataLinkVLANMatch vid"

(* src: ovs/match.go func DataLinkVLANPCP *)
definition DataLinkVLANPCP :: "int \<Rightarrow> match" where
  "DataLinkVLANPCP pcp = dataLinkVLANPCPMatch pcp"

(* src: ovs/match.go func NetworkSource *)
definition NetworkSource :: "string \<Rightarrow> match" where
  "NetworkSource ip = networkMatch source ip"

(* src: ovs/match.go func NetworkDestination *)
definition NetworkDestination :: "string \<Rightarrow> match" where
  "NetworkDestination ip = networkMatch destination ip"

(* src: ovs/match.go func NetworkECN *)
definition NetworkECN :: "int \<Rightarrow> match" where
  "NetworkECN ecn = networkECN ecn"

(* src: ovs/match.go func NetworkTOS *)
definition NetworkTOS :: "int \<Rightarrow> match" where
  "NetworkTOS tos = networkTOS tos"

(* src: ovs/match.go func TunnelGBP *)
definition TunnelGBP :: "int \<Rightarrow> match" where
  "TunnelGBP gbp = tunnelGBP gbp"

(* src: ovs/match.go func TunnelGbpFlags *)
definition TunnelGbpFlags :: "int \<Rightarrow> match" where
  "TunnelGbpFlags gbpFlags = tunnelGbpFlags gbpFlags"

(* src: ovs/match.go func TunnelFlags *)
definition TunnelFlags :: "int \<Rightarrow> match" where
  "TunnelFlags flags = tunnelFlags flags"

(* src: ovs/match.go func NetworkTTL *)
definition NetworkTTL :: "int \<Rightarrow> match" where
  "NetworkTTL ttl = networkTTL ttl"

(* src: ovs/match.go func TunnelTTL *)
definition TunnelTTL :: "int \<Rightarrow> match" where
  "TunnelTTL ttl = tunnelTTL ttl"

(* src: ovs/match.go func ConjunctionID *)
definition ConjunctionID :: "uint32 \<Rightarrow> match" where
  "ConjunctionID i = conjunctionIDMatch i"

(* src: ovs/match.go func TunnelTOS *)
definition TunnelTOS :: "int \<Rightarrow> match" where
  "TunnelTOS tos = tunnelTOS tos"

(* src: ovs/match.go func NetworkProtocol *)
definition NetworkProtocol :: "uint8 \<Rightarrow> match" where
  "NetworkProtocol num = networkProtocolMatch num"

(* src: ovs/match.go func IPv6Source *)
definition IPv6Source :: "string \<Rightarrow> match" where
  "IPv6Source ip = ipv6Match source ip"

(* src: ovs/match.go func IPv6Destination *)
definition IPv6Destination :: "string \<Rightarrow> match" where
  "IPv6Destination ip = ipv6Match destination ip"

(* src: ovs/match.go func ICMPType *)
definition ICMPType :: "uint8 \<Rightarrow> match" where
  "ICMPType typ = icmpTypeMatch typ"

(* src: ovs/match.go func ICMPCode *)
definition ICMPCode :: "uint8 \<Rightarrow> match" where
  "ICMPCode code = icmpCodeMatch code"

(* src: ovs/match.go func ICMP6Type *)
definition ICMP6Type :: "uint8 \<Rightarrow> match" where
  "ICMP6Type typ = icmp6TypeMatch typ"

(* src: ovs/match.go func ICMP6Code *)
definition ICMP6Code :: "uint8 \<Rightarrow> match" where
  "ICMP6Code code = icmp6CodeMatch code"

(* src: ovs/match.go func InPortMatch *)
definition InPortMatch :: "int \<Rightarrow> match" where
  "InPortMatch port = inPortMatch port"

(* src: ovs/match.go func NeighborDiscoveryTarget *)
definition NeighborDiscoveryTarget :: "string \<Rightarrow> match" where
  "NeighborDiscoveryTarget ip = neighborDiscoveryTargetMatch ip"

(* src: ovs/match.go func NeighborDiscoverySourceLinkLayer *)
definition NeighborDiscoverySourceLinkLayer :: "hwaddr \<Rightarrow> match" where
  "NeighborDiscoverySourceLinkLayer addr = neighborDiscoveryLinkLayerMatch source addr"

(* src: ovs/match.go func NeighborDiscoveryTargetLinkLayer *)
definition NeighborDiscoveryTargetLinkLayer :: "hwaddr \<Rightarrow> match" where
  "NeighborDiscoveryTargetLinkLayer addr = neighborDiscoveryLinkLayerMatch destination addr"

(* src: ovs/match.go func ARPOperation *)
definition ARPOperation :: "uint16 \<Rightarrow> match" where
  "ARPOperation oper = arpOperationMatch oper"

(* src: ovs/match.go func ARPSourceHardwareAddress *)
definition ARPSourceHardwareAddress :: "hwaddr \<Rightarrow> match" where
  "ARPSourceHardwareAddress addr = arpHardwareAddressMatch source addr"

(* src: ovs/match.go func ARPTargetHardwareAddress *)
definition ARPTargetHardwareAddress :: "hwaddr \<Rightarrow> match" where
  "ARPTargetHardwareAddress addr = arpHardwareAddressMatch destination addr"

(* src: ovs/match.go func ARPSourceProtocolAddress *)
definition ARPSourceProtocolAddress :: "string \<Rightarrow> match" where
  "ARPSourceProtocolAddress ip = arpProtocolAddressMatch source ip"

(* src: ovs/match.go func ARPTargetProtocolAddress *)
definition ARPTargetProtocolAddress :: "string \<Rightarrow> match" where
  "ARPTargetProtocolAddress ip = arpProtocolAddressMatch destination ip"

(* src: ovs/match.go func TransportSourcePort *)
definition TransportSourcePort :: "uint16 \<Rightarrow> match" where
  "TransportSourcePort port = transportPortMatch source port 0"

(* src: ovs/match.go func TransportDestinationPort *)
definition TransportDestinationPort :: "uint16 \<Rightarrow> match" where
  "TransportDestinationPort port = transportPortMatch destination port 0"

(* src: ovs/match.go func TransportSourceMaskedPort *)
definition TransportSourceMaskedPort :: "uint16 \<Rightarrow> uint16 \<Rightarrow> match" where
  "TransportSourceMaskedPort port mask' = transportPortMatch source port mask'"

(* src: ovs/match.go func TransportDestinationMaskedPort *)
definition TransportDestinationMaskedPort :: "uint16 \<Rightarrow> uint16 \<Rightarrow> match" where
  "TransportDestinationMaskedPort port mask' = transportPortMatch destination port mask'"

(* src: ovs/match.go func UDPSourcePort *)
definition UDPSourcePort :: "uint16 \<Rightarrow> match" where
  "UDPSourcePort port = udpPortMatch source port 0"

(* src: ovs/match.go func UDPDestinationPort *)
definition UDPDestinationPort :: "uint16 \<Rightarrow> match" where
  "UDPDestinationPort port = udpPortMatch destination port 0"

(* src: ovs/match.go func UDPSourceMaskedPort *)
definition UDPSourceMaskedPort :: "uint16 \<Rightarrow> uint16 \<Rightarrow> match" where
  "UDPSourceMaskedPort port mask' = udpPortMatch source port mask'"

(* src: ovs/match.go func UDPDestinationMaskedPort *)
definition UDPDestinationMaskedPort :: "uint16 \<Rightarrow> uint16 \<Rightarrow> match" where
  "UDPDestinationMaskedPort port mask' = udpPortMatch destination port mask'"

(* src: ovs/match.go func VLANTCI *)
definition VLANTCI :: "uint16 \<Rightarrow> uint16 \<Rightarrow> match" where
  "VLANTCI tci mask' = vlanTCIMatch tci mask'"

(* src: ovs/match.go func VLANTCI1 *)
definition VLANTCI1 :: "uint16 \<Rightarrow> uint16 \<Rightarrow> match" where
  "VLANTCI1 tci mask' = vlanTCI1Match tci mask'"

(* src: ovs/match.go func IPv6Label *)
definition IPv6Label :: "uint32 \<Rightarrow> uint32 \<Rightarrow> match" where
  "IPv6Label label mask' = ipv6LabelMatch label mask'"

(* src: ovs/match.go func ArpOp *)
definition ArpOp :: "uint16 \<Rightarrow> match" where
  "ArpOp op = arpOpMatch op"

(* src: ovs/match.go func ConnectionTrackingMark *)
definition ConnectionTrackingMark :: "uint32 \<Rightarrow> uint32 \<Rightarrow> match" where
  "ConnectionTrackingMark mark mask' = connectionTrackingMarkMatch mark mask'"

(* src: ovs/match.go func ConnectionTrackingZone *)
definition ConnectionTrackingZone :: "uint16 \<Rightarrow> match" where
  "ConnectionTrackingZone zone = connectionTrackingZoneMatch zone"

(* src: ovs/match.go func ConnectionTrackingState *)
definition ConnectionTrackingState :: "string list \<Rightarrow> match" where
  "ConnectionTrackingState state = connectionTrackingMatch state"

(* src: ovs/match.go func Metadata *)
definition Metadata :: "uint64 \<Rightarrow> match" where
  "Metadata i = metadataMatch i 0"

(* src: ovs/match.go func MetadataWithMask *)
definition MetadataWithMask :: "uint64 \<Rightarrow> uint64 \<Rightarrow> match" where
  "MetadataWithMask i mask' = metadataMatch i mask'"

(* src: ovs/match.go func TCPFlags *)
definition TCPFlags :: "string list \<Rightarrow> match" where
  "TCPFlags flags = tcpFlagsMatch flags"

(* src: ovs/match.go func TunnelID *)
definition TunnelID :: "uint64 \<Rightarrow> match" where
  "TunnelID i = tunnelIDMatch i 0"

(* src: ovs/match.go func TunnelIDWithMask *)
definition TunnelIDWithMask :: "uint64 \<Rightarrow> uint64 \<Rightarrow> match" where
  "TunnelIDWithMask i mask' = tunnelIDMatch i mask'"

(* src: ovs/match.go func TunnelSrc *)
definition TunnelSrc :: "string \<Rightarrow> match" where
  "TunnelSrc addr = tunnelMatch source addr"

(* src: ovs/match.go func TunnelDst *)
definition TunnelDst :: "string \<Rightarrow> match" where
  "TunnelDst addr = tunnelMatch destination addr"

(* src: ovs/match.go func IPFrag *)
definition IPFrag :: "string \<Rightarrow> match" where
  "IPFrag flag = ipFragMatch flag"

(* src: ovs/match.go func FieldMatch *)
definition FieldMatch :: "string \<Rightarrow> string \<Rightarrow> match" where
  "FieldMatch field srcOrValue = fieldMatch field srcOrValue"


text \<open>The parameters of \<^const>\<open>ConnectionTrackingState\<close> and \<^const>\<open>TCPFlags\<close>.\<close>

(* src: ovs/match.go func SetState *)
definition SetState :: "string \<Rightarrow> string" where
  "SetState state = ''+'' @ state"

(* src: ovs/match.go func UnsetState *)
definition UnsetState :: "string \<Rightarrow> string" where
  "UnsetState state = ''-'' @ state"

(* src: ovs/match.go func SetTCPFlag *)
definition SetTCPFlag :: "string \<Rightarrow> string" where
  "SetTCPFlag flag = ''+'' @ flag"

(* src: ovs/match.go func UnsetTCPFlag *)
definition UnsetTCPFlag :: "string \<Rightarrow> string" where
  "UnsetTCPFlag flag = ''-'' @ flag"

section \<open>Port ranges as matches\<close>

(* src: ovs/match.go type TransportPortRanger *)
datatype (plugins only: code size) TransportPortRanger =
    udpPortRange string uint16 uint16          \<comment> \<open>srcdst, startPort, endPort\<close>
  | transportPortRange string uint16 uint16

(* src: ovs/match.go func UDPDestinationPortRange *)
definition UDPDestinationPortRange :: "uint16 \<Rightarrow> uint16 \<Rightarrow> TransportPortRanger" where
  "UDPDestinationPortRange startPort endPort = udpPortRange destination startPort endPort"

(* src: ovs/match.go func UDPSourcePortRange *)
definition UDPSourcePortRange :: "uint16 \<Rightarrow> uint16 \<Rightarrow> TransportPortRanger" where
  "UDPSourcePortRange startPort endPort = udpPortRange source startPort endPort"

(* src: ovs/match.go func TransportDestinationPortRange *)
definition TransportDestinationPortRange :: "uint16 \<Rightarrow> uint16 \<Rightarrow> TransportPortRanger" where
  "TransportDestinationPortRange startPort endPort = transportPortRange destination startPort endPort"

(* src: ovs/match.go func TransportSourcePortRange *)
definition TransportSourcePortRange :: "uint16 \<Rightarrow> uint16 \<Rightarrow> TransportPortRanger" where
  "TransportSourcePortRange startPort endPort = transportPortRange source startPort endPort"

(* src: ovs/match.go func udpPortRange.MaskedPorts *)
definition udpPortRange_MaskedPorts :: "string \<Rightarrow> uint16 \<Rightarrow> uint16 \<Rightarrow> match list result" where
  "udpPortRange_MaskedPorts srcdst startPort endPort =
     (case BitwiseMatch \<lparr>Start = startPort, End = endPort\<rparr> of
        Inl err \<Rightarrow> Inl err
      | Inr bitRanges \<Rightarrow> Inr (map (\<lambda>br. udpPortMatch srcdst (Value br) (Mask br)) bitRanges))"

(* src: ovs/match.go func transportPortRange.MaskedPorts *)
definition transportPortRange_MaskedPorts :: "string \<Rightarrow> uint16 \<Rightarrow> uint16 \<Rightarrow> match list result" where
  "transportPortRange_MaskedPorts srcdst startPort endPort =
     (case BitwiseMatch \<lparr>Start = startPort, End = endPort\<rparr> of
        Inl err \<Rightarrow> Inl err
      | Inr bitRanges \<Rightarrow> Inr (map (\<lambda>br. transportPortMatch srcdst (Value br) (Mask br)) bitRanges))"

fun MaskedPorts :: "TransportPortRanger \<Rightarrow> match list result" where
  "MaskedPorts (udpPortRange d s e) = udpPortRange_MaskedPorts d s e"
| "MaskedPorts (transportPortRange d s e) = transportPortRange_MaskedPorts d s e"

section \<open>What a match accepts\<close>

(* src: ovs/match.go const ethernetAddrLen *)
definition ethernetAddrLen :: nat where
  "ethernetAddrLen = 6"

(* src: ovs/match.go const VLANNone *)
definition VLANNone :: int where
  "VLANNone = 0xffff"

(* src: ovs/action.go func validARPOP *)
definition validARPOP :: "uint16 \<Rightarrow> bool" where
  "validARPOP op \<longleftrightarrow> 1 \<le> op \<and> op \<le> 4"

(* src: ovs/action.go func validIPv6Label *)
definition validIPv6Label :: "uint32 \<Rightarrow> bool" where
  "validIPv6Label label \<longleftrightarrow> label AND 0xfff00000 = 0x00000000"

(* src: ovs/action.go func validVLANVID *)
definition validVLANVID :: "int \<Rightarrow> bool" where
  "validVLANVID vid \<longleftrightarrow> vid \<ge> 0x000 \<and> vid \<le> 0xfff"

(* src: ovs/action.go func validVLANPCP *)
definition validVLANPCP :: "int \<Rightarrow> bool" where
  "validVLANPCP pcp \<longleftrightarrow> pcp \<ge> 0 \<and> pcp \<le> 7"

(* src: ovs/match.go func matchIPv4AddressOrCIDR *)
definition matchIPv4AddressOrCIDR :: "string \<Rightarrow> string \<Rightarrow> string result" where
  "matchIPv4AddressOrCIDR key ip =
     (case ParseCIDR ip of
        Some ipAddr \<Rightarrow>
          if To4 ipAddr = None then Inl (ErrInvalidIPv4 ip) else Inr (key @ ''='' @ ip)
      | None \<Rightarrow>
          (case ParseIP ip of
             Some ipAddr \<Rightarrow>
               if To4 ipAddr = None then Inl (ErrInvalidIPv4 ip)
               else Inr (key @ ''='' @ ip_string ipAddr)
           | None \<Rightarrow> Inl (ErrInvalidIPv4 ip)))"

(* src: ovs/match.go func matchIPv6AddressOrCIDR *)
definition matchIPv6AddressOrCIDR :: "string \<Rightarrow> string \<Rightarrow> string result" where
  "matchIPv6AddressOrCIDR key ip =
     (case ParseCIDR ip of
        Some ipAddr \<Rightarrow>
          if To16 ipAddr = None \<or> To4 ipAddr \<noteq> None then Inl (ErrInvalidIPv6 ip)
          else Inr (key @ ''='' @ ip)
      | None \<Rightarrow>
          (case ParseIP ip of
             Some ipAddr \<Rightarrow>
               if To16 ipAddr = None \<or> To4 ipAddr \<noteq> None then Inl (ErrInvalidIPv6 ip)
               else Inr (key @ ''='' @ ip_string ipAddr)
           | None \<Rightarrow> Inl (ErrInvalidIPv6 ip)))"

(* src: ovs/match.go func matchEthernetHardwareAddress *)
definition matchEthernetHardwareAddress :: "string \<Rightarrow> hwaddr \<Rightarrow> string result" where
  "matchEthernetHardwareAddress key addr =
     (if length addr \<noteq> ethernetAddrLen then Inl (ErrHardwareAddressLength (length addr))
      else Inr (key @ ''='' @ mac_string addr))"

(* src: ovs/match.go func matchTransportPort *)
definition matchTransportPort :: "string \<Rightarrow> uint16 \<Rightarrow> uint16 \<Rightarrow> string result" where
  "matchTransportPort srcdst port mask' =
     (if mask' = 0 then Inr (''tp_'' @ srcdst @ ''='' @ dec port)
      else Inr (''tp_'' @ srcdst @ ''='' @ hex_lit 4 port @ ''/'' @ hex_lit 4 mask'))"

(* src: ovs/match.go func matchUDPPort *)
definition matchUDPPort :: "string \<Rightarrow> uint16 \<Rightarrow> uint16 \<Rightarrow> string result" where
  "matchUDPPort srcdst port mask' =
     (if mask' = 0 then Inr (''udp_'' @ srcdst @ ''='' @ dec port)
      else Inr (''udp_'' @ srcdst @ ''='' @ hex_lit 4 port @ ''/'' @ hex_lit 4 mask'))"

section \<open>MarshalText\<close>

(* src: ovs/match.go func dataLinkMatch.MarshalText *)
definition dataLinkMatch_MarshalText :: "string \<Rightarrow> string \<Rightarrow> string result" where
  "dataLinkMatch_MarshalText srcdst addr =
     (let ss = split2 ''/'' addr in
      case ParseMAC (ss ! 0) of
        Inl err \<Rightarrow> Inl err
      | Inr hwAddr \<Rightarrow>
          if length hwAddr \<noteq> ethernetAddrLen then Inl (ErrHardwareAddressLength (length hwAddr))
          else if length ss = 1 then Inr (''dl_'' @ srcdst @ ''='' @ mac_string hwAddr)
          else
            (case ParseMAC (ss ! 1) of
               Inl err \<Rightarrow> Inl err
             | Inr wildcard \<Rightarrow>
                 if length wildcard \<noteq> ethernetAddrLen
                 then Inl (ErrWildcardMaskLength (length wildcard))
                 else Inr (''dl_'' @ srcdst @ ''='' @ mac_string hwAddr @ ''/'' @ mac_string wildcard)))"

(* src: ovs/match.go func dataLinkTypeMatch.MarshalText *)
definition dataLinkTypeMatch_MarshalText :: "uint16 \<Rightarrow> string result" where
  "dataLinkTypeMatch_MarshalText etherType =
     Inr (dlType @ ''='' @ hex_lit 4 etherType)"

(* src: ovs/match.go func dataLinkVLANMatch.MarshalText *)
definition dataLinkVLANMatch_MarshalText :: "int \<Rightarrow> string result" where
  "dataLinkVLANMatch_MarshalText vid =
     (if \<not> validVLANVID vid \<and> vid \<noteq> VLANNone then Inl errInvalidVLANVID
      else if vid = VLANNone then Inr (dlVLAN @ ''=0xffff'')
      else Inr (dlVLAN @ ''='' @ itoa vid))"

(* src: ovs/match.go func dataLinkVLANPCPMatch.MarshalText *)
definition dataLinkVLANPCPMatch_MarshalText :: "int \<Rightarrow> string result" where
  "dataLinkVLANPCPMatch_MarshalText pcp =
     (if \<not> validVLANPCP pcp then Inl errInvalidVLANPCP
      else Inr (dlVLANPCP @ ''='' @ itoa pcp))"

(* src: ovs/match.go func networkMatch.MarshalText *)
definition networkMatch_MarshalText :: "string \<Rightarrow> string \<Rightarrow> string result" where
  "networkMatch_MarshalText srcdst ip =
     matchIPv4AddressOrCIDR (''nw_'' @ srcdst) ip"

(* src: ovs/match.go func networkECN.MarshalText *)
definition networkECN_MarshalText :: "int \<Rightarrow> string result" where
  "networkECN_MarshalText i = Inr (''nw_ecn='' @ itoa i)"

(* src: ovs/match.go func networkTOS.MarshalText *)
definition networkTOS_MarshalText :: "int \<Rightarrow> string result" where
  "networkTOS_MarshalText i = Inr (''nw_tos='' @ itoa i)"

(* src: ovs/match.go func tunnelGBP.MarshalText *)
definition tunnelGBP_MarshalText :: "int \<Rightarrow> string result" where
  "tunnelGBP_MarshalText i = Inr (''tun_gbp_id='' @ itoa i)"

(* src: ovs/match.go func tunnelGbpFlags.MarshalText *)
definition tunnelGbpFlags_MarshalText :: "int \<Rightarrow> string result" where
  "tunnelGbpFlags_MarshalText i = Inr (''tun_gbp_flags='' @ itoa i)"

(* src: ovs/match.go func tunnelFlags.MarshalText *)
definition tunnelFlags_MarshalText :: "int \<Rightarrow> string result" where
  "tunnelFlags_MarshalText i = Inr (''tun_flags='' @ itoa i)"

(* src: ovs/match.go func networkTTL.MarshalText *)
definition networkTTL_MarshalText :: "int \<Rightarrow> string result" where
  "networkTTL_MarshalText i = Inr (''nw_ttl='' @ itoa i)"

(* src: ovs/match.go func tunnelTTL.MarshalText *)
definition tunnelTTL_MarshalText :: "int \<Rightarrow> string result" where
  "tunnelTTL_MarshalText i = Inr (''tun_ttl='' @ itoa i)"

(* src: ovs/match.go func tunnelTOS.MarshalText *)
definition tunnelTOS_MarshalText :: "int \<Rightarrow> string result" where
  "tunnelTOS_MarshalText i = Inr (''tun_tos='' @ itoa i)"

(* src: ovs/match.go func conjunctionIDMatch.MarshalText *)
definition conjunctionIDMatch_MarshalText :: "uint32 \<Rightarrow> string result" where
  "conjunctionIDMatch_MarshalText i = Inr (''conj_id='' @ dec i)"

(* src: ovs/match.go func networkProtocolMatch.MarshalText *)
definition networkProtocolMatch_MarshalText :: "uint8 \<Rightarrow> string result" where
  "networkProtocolMatch_MarshalText num = Inr (nwProto @ ''='' @ dec num)"

(* src: ovs/match.go func ipv6Match.MarshalText *)
definition ipv6Match_MarshalText :: "string \<Rightarrow> string \<Rightarrow> string result" where
  "ipv6Match_MarshalText srcdst ip =
     matchIPv6AddressOrCIDR (''ipv6_'' @ srcdst) ip"

(* src: ovs/match.go func icmpTypeMatch.MarshalText *)
definition icmpTypeMatch_MarshalText :: "uint8 \<Rightarrow> string result" where
  "icmpTypeMatch_MarshalText typ = Inr (icmpType @ ''='' @ dec typ)"

(* src: ovs/match.go func icmpCodeMatch.MarshalText *)
definition icmpCodeMatch_MarshalText :: "uint8 \<Rightarrow> string result" where
  "icmpCodeMatch_MarshalText code = Inr (icmpCode @ ''='' @ dec code)"

(* src: ovs/match.go func icmp6TypeMatch.MarshalText *)
definition icmp6TypeMatch_MarshalText :: "uint8 \<Rightarrow> string result" where
  "icmp6TypeMatch_MarshalText typ = Inr (icmp6Type @ ''='' @ dec typ)"

(* src: ovs/match.go func icmp6CodeMatch.MarshalText *)
definition icmp6CodeMatch_MarshalText :: "uint8 \<Rightarrow> string result" where
  "icmp6CodeMatch_MarshalText code = Inr (icmp6Code @ ''='' @ dec code)"

(* src: ovs/match.go func inPortMatch.MarshalText *)
definition inPortMatch_MarshalText :: "int \<Rightarrow> string result" where
  "inPortMatch_MarshalText port = Inr (inPort @ ''='' @ itoa port)"

(* src: ovs/match.go func neighborDiscoveryTargetMatch.MarshalText *)
definition neighborDiscoveryTargetMatch_MarshalText :: "string \<Rightarrow> string result" where
  "neighborDiscoveryTargetMatch_MarshalText ip =
     matchIPv6AddressOrCIDR ndTarget ip"

(* src: ovs/match.go func neighborDiscoveryLinkLayerMatch.MarshalText *)
definition neighborDiscoveryLinkLayerMatch_MarshalText :: "string \<Rightarrow> hwaddr \<Rightarrow> string result" where
  "neighborDiscoveryLinkLayerMatch_MarshalText srctgt addr =
     (if srctgt = source then matchEthernetHardwareAddress ndSLL addr else matchEthernetHardwareAddress ndTLL addr)"

(* src: ovs/match.go func arpOperationMatch.MarshalText *)
definition arpOperationMatch_MarshalText :: "uint16 \<Rightarrow> string result" where
  "arpOperationMatch_MarshalText oper = Inr (arpOp @ ''='' @ dec oper)"

(* src: ovs/match.go func arpHardwareAddressMatch.MarshalText *)
definition arpHardwareAddressMatch_MarshalText :: "string \<Rightarrow> hwaddr \<Rightarrow> string result" where
  "arpHardwareAddressMatch_MarshalText srctgt addr =
     (if srctgt = source then matchEthernetHardwareAddress arpSHA addr else matchEthernetHardwareAddress arpTHA addr)"

(* src: ovs/match.go func arpProtocolAddressMatch.MarshalText *)
definition arpProtocolAddressMatch_MarshalText :: "string \<Rightarrow> string \<Rightarrow> string result" where
  "arpProtocolAddressMatch_MarshalText srctgt ip =
     (if srctgt = source then matchIPv4AddressOrCIDR arpSPA ip else matchIPv4AddressOrCIDR arpTPA ip)"

(* src: ovs/match.go func udpPortMatch.MarshalText *)
definition udpPortMatch_MarshalText :: "string \<Rightarrow> uint16 \<Rightarrow> uint16 \<Rightarrow> string result" where
  "udpPortMatch_MarshalText srcdst port mask' = matchUDPPort srcdst port mask'"

(* src: ovs/match.go func transportPortMatch.MarshalText *)
definition transportPortMatch_MarshalText :: "string \<Rightarrow> uint16 \<Rightarrow> uint16 \<Rightarrow> string result" where
  "transportPortMatch_MarshalText srcdst port mask' =
     matchTransportPort srcdst port mask'"

(* src: ovs/match.go func vlanTCIMatch.MarshalText *)
definition vlanTCIMatch_MarshalText :: "uint16 \<Rightarrow> uint16 \<Rightarrow> string result" where
  "vlanTCIMatch_MarshalText tci mask' =
     (if mask' \<noteq> 0 then Inr (vlanTCI @ ''='' @ hex_lit 4 tci @ ''/'' @ hex_lit 4 mask')
      else Inr (vlanTCI @ ''='' @ hex_lit 4 tci))"

(* src: ovs/match.go func vlanTCI1Match.MarshalText *)
definition vlanTCI1Match_MarshalText :: "uint16 \<Rightarrow> uint16 \<Rightarrow> string result" where
  "vlanTCI1Match_MarshalText tci mask' =
     (if mask' \<noteq> 0 then Inr (vlanTCI1 @ ''='' @ hex_lit 4 tci @ ''/'' @ hex_lit 4 mask')
      else Inr (vlanTCI1 @ ''='' @ hex_lit 4 tci))"

(* src: ovs/match.go func ipv6LabelMatch.MarshalText *)
definition ipv6LabelMatch_MarshalText :: "uint32 \<Rightarrow> uint32 \<Rightarrow> string result" where
  "ipv6LabelMatch_MarshalText label mask' =
     (if \<not> validIPv6Label label \<or> \<not> validIPv6Label mask' then Inl errInvalidIPv6Label
      else if mask' \<noteq> 0 then Inr (ipv6Label @ ''='' @ hex_lit 5 label @ ''/'' @ hex_lit 5 mask')
      else Inr (ipv6Label @ ''='' @ hex_lit 5 label))"

(* src: ovs/match.go func arpOpMatch.MarshalText *)
definition arpOpMatch_MarshalText :: "uint16 \<Rightarrow> string result" where
  "arpOpMatch_MarshalText op =
     (if \<not> validARPOP op then Inl errInvalidARPOP else Inr (arpOp @ ''='' @ dec op))"

(* src: ovs/match.go func connectionTrackingMarkMatch.MarshalText *)
definition connectionTrackingMarkMatch_MarshalText :: "uint32 \<Rightarrow> uint32 \<Rightarrow> string result" where
  "connectionTrackingMarkMatch_MarshalText mark mask' =
     (if mask' \<noteq> 0 then Inr (ctMark @ ''='' @ hex_lit 8 mark @ ''/'' @ hex_lit 8 mask')
      else Inr (ctMark @ ''='' @ hex_lit 8 mark))"

(* src: ovs/match.go func connectionTrackingZoneMatch.MarshalText *)
definition connectionTrackingZoneMatch_MarshalText :: "uint16 \<Rightarrow> string result" where
  "connectionTrackingZoneMatch_MarshalText zone = Inr (ctZone @ ''='' @ dec zone)"

(* src: ovs/match.go func connectionTrackingMatch.MarshalText *)
definition connectionTrackingMatch_MarshalText :: "string list \<Rightarrow> string result" where
  "connectionTrackingMatch_MarshalText state =
     Inr (ctState @ ''='' @ join [] state)"

(* src: ovs/match.go func metadataMatch.MarshalText *)
definition metadataMatch_MarshalText :: "uint64 \<Rightarrow> uint64 \<Rightarrow> string result" where
  "metadataMatch_MarshalText data mask' =
     (if mask' = 0 then Inr (metadata @ ''='' @ hex_sharp data)
      else Inr (metadata @ ''='' @ hex_sharp data @ ''/'' @ hex_sharp mask'))"

(* src: ovs/match.go func tcpFlagsMatch.MarshalText *)
definition tcpFlagsMatch_MarshalText :: "string list \<Rightarrow> string result" where
  "tcpFlagsMatch_MarshalText flags = Inr (tcpFlags @ ''='' @ join [] flags)"

(* src: ovs/match.go func tunnelIDMatch.MarshalText *)
definition tunnelIDMatch_MarshalText :: "uint64 \<Rightarrow> uint64 \<Rightarrow> string result" where
  "tunnelIDMatch_MarshalText i mask' =
     (if mask' = 0 then Inr (tunID @ ''='' @ hex_sharp i)
      else Inr (tunID @ ''='' @ hex_sharp i @ ''/'' @ hex_sharp mask'))"

(* src: ovs/match.go func tunnelMatch.MarshalText *)
definition tunnelMatch_MarshalText :: "string \<Rightarrow> string \<Rightarrow> string result" where
  "tunnelMatch_MarshalText srcdst ip =
     matchIPv4AddressOrCIDR (''tun_'' @ srcdst) ip"

(* src: ovs/match.go func ipFragMatch.MarshalText *)
definition ipFragMatch_MarshalText :: "string \<Rightarrow> string result" where
  "ipFragMatch_MarshalText flag = Inr (ipFrag @ ''='' @ flag)"

(* src: ovs/match.go func fieldMatch.MarshalText *)
definition fieldMatch_MarshalText :: "string \<Rightarrow> string \<Rightarrow> string result" where
  "fieldMatch_MarshalText field srcOrValue = Inr (field @ ''='' @ srcOrValue)"

text \<open>The method call through the interface.\<close>

(* src: ovs/match.go type Match *)
fun match_MarshalText :: "match \<Rightarrow> string result" where
  "match_MarshalText (dataLinkMatch srcdst addr) = dataLinkMatch_MarshalText srcdst addr"
| "match_MarshalText (dataLinkTypeMatch etherType) = dataLinkTypeMatch_MarshalText etherType"
| "match_MarshalText (dataLinkVLANMatch vid) = dataLinkVLANMatch_MarshalText vid"
| "match_MarshalText (dataLinkVLANPCPMatch pcp) = dataLinkVLANPCPMatch_MarshalText pcp"
| "match_MarshalText (networkMatch srcdst ip) = networkMatch_MarshalText srcdst ip"
| "match_MarshalText (networkECN i) = networkECN_MarshalText i"
| "match_MarshalText (networkTOS i) = networkTOS_MarshalText i"
| "match_MarshalText (tunnelGBP i) = tunnelGBP_MarshalText i"
| "match_MarshalText (tunnelGbpFlags i) = tunnelGbpFlags_MarshalText i"
| "match_MarshalText (tunnelFlags i) = tunnelFlags_MarshalText i"
| "match_MarshalText (networkTTL i) = networkTTL_MarshalText i"
| "match_MarshalText (tunnelTTL i) = tunnelTTL_MarshalText i"
| "match_MarshalText (tunnelTOS i) = tunnelTOS_MarshalText i"
| "match_MarshalText (conjunctionIDMatch i) = conjunctionIDMatch_MarshalText i"
| "match_MarshalText (networkProtocolMatch num) = networkProtocolMatch_MarshalText num"
| "match_MarshalText (ipv6Match srcdst ip) = ipv6Match_MarshalText srcdst ip"
| "match_MarshalText (icmpTypeMatch typ) = icmpTypeMatch_MarshalText typ"
| "match_MarshalText (icmpCodeMatch code) = icmpCodeMatch_MarshalText code"
| "match_MarshalText (icmp6TypeMatch typ) = icmp6TypeMatch_MarshalText typ"
| "match_MarshalText (icmp6CodeMatch code) = icmp6CodeMatch_MarshalText code"
| "match_MarshalText (inPortMatch port) = inPortMatch_MarshalText port"
| "match_MarshalText (neighborDiscoveryTargetMatch ip) = neighborDiscoveryTargetMatch_MarshalText ip"
| "match_MarshalText (neighborDiscoveryLinkLayerMatch srctgt addr) = neighborDiscoveryLinkLayerMatch_MarshalText srctgt addr"
| "match_MarshalText (arpOperationMatch oper) = arpOperationMatch_MarshalText oper"
| "match_MarshalText (arpHardwareAddressMatch srctgt addr) = arpHardwareAddressMatch_MarshalText srctgt addr"
| "match_MarshalText (arpProtocolAddressMatch srctgt ip) = arpProtocolAddressMatch_MarshalText srctgt ip"
| "match_MarshalText (udpPortMatch srcdst port mask') = udpPortMatch_MarshalText srcdst port mask'"
| "match_MarshalText (transportPortMatch srcdst port mask') = transportPortMatch_MarshalText srcdst port mask'"
| "match_MarshalText (vlanTCIMatch tci mask') = vlanTCIMatch_MarshalText tci mask'"
| "match_MarshalText (vlanTCI1Match tci mask') = vlanTCI1Match_MarshalText tci mask'"
| "match_MarshalText (ipv6LabelMatch label mask') = ipv6LabelMatch_MarshalText label mask'"
| "match_MarshalText (arpOpMatch op) = arpOpMatch_MarshalText op"
| "match_MarshalText (connectionTrackingMarkMatch mark mask') = connectionTrackingMarkMatch_MarshalText mark mask'"
| "match_MarshalText (connectionTrackingZoneMatch zone) = connectionTrackingZoneMatch_MarshalText zone"
| "match_MarshalText (connectionTrackingMatch state) = connectionTrackingMatch_MarshalText state"
| "match_MarshalText (metadataMatch data mask') = metadataMatch_MarshalText data mask'"
| "match_MarshalText (tcpFlagsMatch flags) = tcpFlagsMatch_MarshalText flags"
| "match_MarshalText (tunnelIDMatch i mask') = tunnelIDMatch_MarshalText i mask'"
| "match_MarshalText (tunnelMatch srcdst ip) = tunnelMatch_MarshalText srcdst ip"
| "match_MarshalText (ipFragMatch flag) = ipFragMatch_MarshalText flag"
| "match_MarshalText (fieldMatch field srcOrValue) = fieldMatch_MarshalText field srcOrValue"

lemmas match_MarshalText_defs =
  dataLinkMatch_MarshalText_def
  dataLinkTypeMatch_MarshalText_def
  dataLinkVLANMatch_MarshalText_def
  dataLinkVLANPCPMatch_MarshalText_def
  networkMatch_MarshalText_def
  networkECN_MarshalText_def
  networkTOS_MarshalText_def
  tunnelGBP_MarshalText_def
  tunnelGbpFlags_MarshalText_def
  tunnelFlags_MarshalText_def
  networkTTL_MarshalText_def
  tunnelTTL_MarshalText_def
  tunnelTOS_MarshalText_def
  conjunctionIDMatch_MarshalText_def
  networkProtocolMatch_MarshalText_def
  ipv6Match_MarshalText_def
  icmpTypeMatch_MarshalText_def
  icmpCodeMatch_MarshalText_def
  icmp6TypeMatch_MarshalText_def
  icmp6CodeMatch_MarshalText_def
  inPortMatch_MarshalText_def
  neighborDiscoveryTargetMatch_MarshalText_def
  neighborDiscoveryLinkLayerMatch_MarshalText_def
  arpOperationMatch_MarshalText_def
  arpHardwareAddressMatch_MarshalText_def
  arpProtocolAddressMatch_MarshalText_def
  udpPortMatch_MarshalText_def
  transportPortMatch_MarshalText_def
  vlanTCIMatch_MarshalText_def
  vlanTCI1Match_MarshalText_def
  ipv6LabelMatch_MarshalText_def
  arpOpMatch_MarshalText_def
  connectionTrackingMarkMatch_MarshalText_def
  connectionTrackingZoneMatch_MarshalText_def
  connectionTrackingMatch_MarshalText_def
  metadataMatch_MarshalText_def
  tcpFlagsMatch_MarshalText_def
  tunnelIDMatch_MarshalText_def
  tunnelMatch_MarshalText_def
  ipFragMatch_MarshalText_def
  fieldMatch_MarshalText_def

end
