(* ===== verification/MatchParser.thy ===== *)
theory MatchParser
  imports Matches
begin

text \<open>
  \<open>ovs/matchparser.go\<close>: reading a match from the key and the value of a statement
  \<open>key=value\<close>.  The result \<open>nil, nil\<close> of \<open>parseMatch\<close> for a key it does not know is
  \<^term>\<open>Inr None\<close>.  Conversions of an \<open>int\<close> to an unsigned type keep the low bits
  (\<open>word_of_int\<close>), as do those between unsigned types (\<open>ucast\<close>).  The theory shows which
  matches read back as they were printed.
\<close>

section \<open>Numbers\<close>

abbreviation (input) MaxUint8 :: int where "MaxUint8 \<equiv> 255"
abbreviation (input) MaxUint16 :: int where "MaxUint16 \<equiv> 65535"
abbreviation (input) MaxUint32 :: int where "MaxUint32 \<equiv> 4294967295"
abbreviation (input) MaxInt32 :: int where "MaxInt32 \<equiv> 2147483647"

(* src: ovs/matchparser.go const hexPrefix *)
definition hexPrefix :: string where
  "hexPrefix = ''0x''"

(* src: ovs/matchparser.go func parseHexUint16 *)
definition parseHexUint16 :: "string \<Rightarrow> uint16 result" where
  "parseHexUint16 value =
     (case ParseUint (trim_prefix value hexPrefix) 16 32 of
        Inl err \<Rightarrow> Inl err
      | Inr val \<Rightarrow> Inr (word_of_nat val))"

(* src: ovs/matchparser.go func parseHexUint32 *)
definition parseHexUint32 :: "string \<Rightarrow> uint32 result" where
  "parseHexUint32 value =
     (case ParseUint (trim_prefix value hexPrefix) 16 32 of
        Inl err \<Rightarrow> Inl err
      | Inr val \<Rightarrow> Inr (word_of_nat val))"

(* src: ovs/matchparser.go func parseHexUint64 *)
definition parseHexUint64 :: "string \<Rightarrow> uint64 result" where
  "parseHexUint64 value =
     (case ParseUint (trim_prefix value hexPrefix) 16 64 of
        Inl err \<Rightarrow> Inl err
      | Inr val \<Rightarrow> Inr (word_of_nat val))"

(* src: ovs/matchparser.go func parseClampInt *)
definition parseClampInt :: "string \<Rightarrow> int \<Rightarrow> int result" where
  "parseClampInt s max' =
     (case Atoi s of
        Inl err \<Rightarrow> Inl err
      | Inr t \<Rightarrow> if t > max' then Inl (ErrIntegerTooLarge t max') else Inr t)"

section \<open>Matches of one kind\<close>

(* src: ovs/matchparser.go func parseIntMatch *)
definition parseIntMatch :: "string \<Rightarrow> string \<Rightarrow> int \<Rightarrow> match result" where
  "parseIntMatch key value max' =
     (case parseClampInt value max' of
        Inl err \<Rightarrow> Inl err
      | Inr t \<Rightarrow>
          if key = icmpType then Inr (ICMPType (word_of_int t))
          else if key = icmpCode then Inr (ICMPCode (word_of_int t))
          else if key = icmp6Type then Inr (ICMP6Type (word_of_int t))
          else if key = icmp6Code then Inr (ICMP6Code (word_of_int t))
          else if key = inPort then Inr (InPortMatch t)
          else if key = nwECN then Inr (NetworkECN t)
          else if key = nwTTL then Inr (NetworkTTL t)
          else if key = tunTTL then Inr (TunnelTTL t)
          else if key = tunTOS then Inr (TunnelTOS t)
          else if key = nwTOS then Inr (NetworkTOS t)
          else if key = tunGbpID then Inr (TunnelGBP t)
          else if key = tunGbpFlags then Inr (TunnelGbpFlags t)
          else if key = tunFlags then Inr (TunnelFlags t)
          else if key = nwProto then Inr (NetworkProtocol (word_of_int t))
          else if key = ctZone then Inr (ConnectionTrackingZone (word_of_int t))
          else if key = conjID then Inr (ConjunctionID (word_of_int t))
          else Inl (ErrNoActionMatchedFor key value))"

text \<open>One round of the loop of \<open>parsePort\<close> over the two parts of \<open>port/mask\<close>.\<close>

(* src: ovs/matchparser.go 197-208 parsePort: the loop over the parts *)
definition parsePort_part :: "int \<Rightarrow> string \<Rightarrow> uint64 result" where
  "parsePort_part max' s =
     (case parseHexUint64 s of
        Inl err \<Rightarrow> Inl err
      | Inr val \<Rightarrow>
          if val > word_of_int max' then Inl (ErrIntegerTooLarge (uint val) max') else Inr val)"

(* src: ovs/matchparser.go func parsePort *)
definition parsePort :: "string \<Rightarrow> string \<Rightarrow> int \<Rightarrow> match result" where
  "parsePort key value max' =
     (let ss = split ''/'' value;
          values =
            (if length ss = 1 then
               (case parseClampInt value max' of
                  Inl err \<Rightarrow> Inl err
                | Inr val \<Rightarrow> Inr [word_of_int val, 0])
             else if length ss = 2 then mapR (parsePort_part max') ss
             else Inl (ErrInvalidValueFor key value))
      in case values of
           Inl err \<Rightarrow> Inl err
         | Inr vs \<Rightarrow>
             if key = tpSRC then Inr (TransportSourceMaskedPort (ucast (vs ! 0)) (ucast (vs ! 1)))
             else if key = tpDST then
               Inr (TransportDestinationMaskedPort (ucast (vs ! 0)) (ucast (vs ! 1)))
             else if key = udpSRC then Inr (UDPSourceMaskedPort (ucast (vs ! 0)) (ucast (vs ! 1)))
             else if key = udpDST then
               Inr (UDPDestinationMaskedPort (ucast (vs ! 0)) (ucast (vs ! 1)))
             else Inl (ErrNoActionMatchedFor key value))"

(* src: ovs/matchparser.go func parseMACMatch *)
definition parseMACMatch :: "string \<Rightarrow> string \<Rightarrow> match result" where
  "parseMACMatch key value =
     (case ParseMAC value of
        Inl err \<Rightarrow> Inl err
      | Inr mac \<Rightarrow>
          if key = arpSHA then Inr (ARPSourceHardwareAddress mac)
          else if key = arpTHA then Inr (ARPTargetHardwareAddress mac)
          else if key = ndSLL then Inr (NeighborDiscoverySourceLinkLayer mac)
          else if key = ndTLL then Inr (NeighborDiscoveryTargetLinkLayer mac)
          else Inl (ErrNoActionMatchedFor key value))"

(* src: ovs/matchparser.go func parseCTState *)
definition parseCTState :: "string \<Rightarrow> match result" where
  "parseCTState value =
     (let v1 = (if contains value ''|'' then ''+'' @ replace_all value (CHR ''|'') ''+'' else value);
          v2 = (if contains v1 ''+'' \<or> contains v1 ''-''
                then trim_char (CHR '' '')
                       (replace_all (replace_all v1 (CHR ''+'') '' +'') (CHR ''-'') '' -'')
                else ''+'' @ v1)
      in Inr (ConnectionTrackingState (Fields v2)))"

text \<open>
  The loop of \<open>parseTCPFlags\<close>: \<open>i\<close> is the byte position, \<open>buf\<close> the buffer; the last flag is
  appended after the loop.
\<close>

(* src: ovs/matchparser.go 288-296 parseTCPFlags: the loop over the runes *)
function tcp_flags_loop :: "nat \<Rightarrow> string \<Rightarrow> string \<Rightarrow> string list" where
  "tcp_flags_loop i buf s =
     (case read_rune s of
        None \<Rightarrow> [buf]
      | Some (r, t) \<Rightarrow>
          if i \<noteq> 0 \<and> i mod 4 = 0
          then buf # tcp_flags_loop (i + (length s - length t)) r t
          else tcp_flags_loop (i + (length s - length t)) (buf @ r) t)"
  by pat_completeness auto
termination
  by (relation "measure (\<lambda>(i, buf, s). length s)") (auto dest: read_rune_shrinks)

declare tcp_flags_loop.simps [simp del]

(* src: ovs/matchparser.go func parseTCPFlags *)
definition parseTCPFlags :: "string \<Rightarrow> match result" where
  "parseTCPFlags value =
     (case Atoi value of
        Inr _ \<Rightarrow> Inr (TCPFlags [value])
      | Inl _ \<Rightarrow>
          if length value mod 4 \<noteq> 0 then Inl ErrTCPFlagsLength
          else Inr (TCPFlags (tcp_flags_loop 0 [] value)))"

(* src: ovs/matchparser.go func parseDataLinkVLAN *)
definition parseDataLinkVLAN :: "string \<Rightarrow> match result" where
  "parseDataLinkVLAN value =
     (if \<not> has_prefix value hexPrefix then
        (case Atoi value of Inl err \<Rightarrow> Inl err | Inr vlan \<Rightarrow> Inr (DataLinkVLAN vlan))
      else
        (case parseHexUint16 value of
           Inl err \<Rightarrow> Inl err
         | Inr vlan \<Rightarrow> Inr (DataLinkVLAN (uint vlan))))"

(* src: ovs/matchparser.go func parseDataLinkVLANPCP *)
definition parseDataLinkVLANPCP :: "string \<Rightarrow> match result" where
  "parseDataLinkVLANPCP value =
     (if \<not> has_prefix value hexPrefix then
        (case Atoi value of Inl err \<Rightarrow> Inl err | Inr pcp \<Rightarrow> Inr (DataLinkVLANPCP pcp))
      else
        (case parseHexUint16 value of
           Inl err \<Rightarrow> Inl err
         | Inr pcp \<Rightarrow> Inr (DataLinkVLANPCP (uint pcp))))"

(* src: ovs/matchparser.go func parseArpOp *)
definition parseArpOp :: "string \<Rightarrow> match result" where
  "parseArpOp value =
     (if \<not> has_prefix value hexPrefix then
        (case ParseUint value 10 16 of
           Inl err \<Rightarrow> Inl err
         | Inr parsed \<Rightarrow> Inr (ArpOp (word_of_nat parsed)))
      else
        (case parseHexUint16 value of Inl err \<Rightarrow> Inl err | Inr v \<Rightarrow> Inr (ArpOp v)))"

section \<open>Matches of a value and a mask\<close>

text \<open>
  One round of the loops over the parts of \<open>value/mask\<close>, for each of the three widths.
\<close>

(* src: ovs/matchparser.go 345-362 parseVLANTCI: the loop over the parts *)
definition value_uint16 :: "string \<Rightarrow> uint16 result" where
  "value_uint16 s =
     (if \<not> has_prefix s hexPrefix then
        (case Atoi s of Inl err \<Rightarrow> Inl err | Inr v \<Rightarrow> Inr (word_of_int v))
      else parseHexUint16 s)"

(* src: ovs/matchparser.go 411-428 parseIPv6Label: the loop over the parts *)
definition value_uint32 :: "string \<Rightarrow> uint32 result" where
  "value_uint32 s =
     (if \<not> has_prefix s hexPrefix then
        (case Atoi s of Inl err \<Rightarrow> Inl err | Inr v \<Rightarrow> Inr (word_of_int v))
      else parseHexUint32 s)"

(* src: ovs/matchparser.go 494-511 parseMetadata: the loop over the parts *)
definition value_uint64 :: "string \<Rightarrow> uint64 result" where
  "value_uint64 s =
     (if \<not> has_prefix s hexPrefix then
        (case Atoi s of Inl err \<Rightarrow> Inl err | Inr v \<Rightarrow> Inr (word_of_int v))
      else parseHexUint64 s)"

(* src: ovs/matchparser.go func parseVLANTCI *)
definition parseVLANTCI :: "string \<Rightarrow> match result" where
  "parseVLANTCI value =
     (case mapR value_uint16 (split ''/'' value) of
        Inl err \<Rightarrow> Inl err
      | Inr values \<Rightarrow>
          if length values = 1 then Inr (VLANTCI (values ! 0) 0)
          else if length values = 2 then Inr (VLANTCI (values ! 0) (values ! 1))
          else Inl (ErrInvalidVLANTCI value))"

(* src: ovs/matchparser.go func parseVLANTCI1 *)
definition parseVLANTCI1 :: "string \<Rightarrow> match result" where
  "parseVLANTCI1 value =
     (case mapR value_uint16 (split ''/'' value) of
        Inl err \<Rightarrow> Inl err
      | Inr values \<Rightarrow>
          if length values = 1 then Inr (VLANTCI1 (values ! 0) 0)
          else if length values = 2 then Inr (VLANTCI1 (values ! 0) (values ! 1))
          else Inl (ErrInvalidVLANTCI1 value))"

(* src: ovs/matchparser.go func parseIPv6Label *)
definition parseIPv6Label :: "string \<Rightarrow> match result" where
  "parseIPv6Label value =
     (case mapR value_uint32 (split ''/'' value) of
        Inl err \<Rightarrow> Inl err
      | Inr values \<Rightarrow>
          if length values = 1 then Inr (IPv6Label (values ! 0) 0)
          else if length values = 2 then Inr (IPv6Label (values ! 0) (values ! 1))
          else Inl (ErrInvalidIPv6LabelMatch value))"

(* src: ovs/matchparser.go func parseCTMark *)
definition parseCTMark :: "string \<Rightarrow> match result" where
  "parseCTMark value =
     (case mapR value_uint32 (split ''/'' value) of
        Inl err \<Rightarrow> Inl err
      | Inr values \<Rightarrow>
          if length values = 1 then Inr (ConnectionTrackingMark (values ! 0) 0)
          else if length values = 2 then Inr (ConnectionTrackingMark (values ! 0) (values ! 1))
          else Inl (ErrInvalidCTMark value))"

(* src: ovs/matchparser.go func parseMetadata *)
definition parseMetadata :: "string \<Rightarrow> match result" where
  "parseMetadata value =
     (case mapR value_uint64 (split ''/'' value) of
        Inl err \<Rightarrow> Inl err
      | Inr values \<Rightarrow>
          if length values = 1 then Inr (Metadata (values ! 0))
          else if length values = 2 then Inr (MetadataWithMask (values ! 0) (values ! 1))
          else Inl (ErrInvalidMetadata value))"

(* src: ovs/matchparser.go func parseTunID *)
definition parseTunID :: "string \<Rightarrow> match result" where
  "parseTunID value =
     (case mapR value_uint64 (split ''/'' value) of
        Inl err \<Rightarrow> Inl err
      | Inr values \<Rightarrow>
          if length values = 1 then Inr (TunnelID (values ! 0))
          else if length values = 2 then Inr (TunnelIDWithMask (values ! 0) (values ! 1))
          else Inl (ErrInvalidTunID value))"

section \<open>Any match\<close>

text \<open>A match that was read, as the first result of \<open>parseMatch\<close>.\<close>

definition found :: "match result \<Rightarrow> match option result" where
  "found r = (case r of Inl err \<Rightarrow> Inl err | Inr m \<Rightarrow> Inr (Some m))"

lemma found_simps [simp]: "found (Inl e) = Inl e" "found (Inr m) = Inr (Some m)"
  by (simp_all add: found_def)

(* src: ovs/matchparser.go func parseMatch *)
definition parseMatch :: "string \<Rightarrow> string \<Rightarrow> match option result" where
  "parseMatch key value =
     (if key = arpSHA \<or> key = arpTHA \<or> key = ndSLL \<or> key = ndTLL
        then found (parseMACMatch key value)
      else if key = arpOp then found (parseArpOp value)
      else if key = icmpType \<or> key = icmpCode \<or> key = icmp6Type \<or> key = icmp6Code \<or> key = nwProto
        then found (parseIntMatch key value MaxUint8)
      else if key = ctZone then found (parseIntMatch key value MaxUint16)
      else if key = tpSRC \<or> key = tpDST \<or> key = udpSRC \<or> key = udpDST
        then found (parsePort key value MaxUint16)
      else if key = conjID then found (parseIntMatch key value MaxUint32)
      else if key = arpSPA then Inr (Some (ARPSourceProtocolAddress value))
      else if key = arpTPA then Inr (Some (ARPTargetProtocolAddress value))
      else if key = ctState then found (parseCTState value)
      else if key = tcpFlags then found (parseTCPFlags value)
      else if key = dlSRC then Inr (Some (DataLinkSource value))
      else if key = dlDST then Inr (Some (DataLinkDestination value))
      else if key = dlType
        then (case parseHexUint16 value of
              Inl err \<Rightarrow> Inl err
            | Inr etherType \<Rightarrow> Inr (Some (DataLinkType etherType)))
      else if key = dlVLANPCP then found (parseDataLinkVLANPCP value)
      else if key = dlVLAN then found (parseDataLinkVLAN value)
      else if key = ndTarget then Inr (Some (NeighborDiscoveryTarget value))
      else if key = nwECN then found (parseIntMatch key value MaxInt32)
      else if key = nwTTL then found (parseIntMatch key value MaxInt32)
      else if key = tunTTL then found (parseIntMatch key value MaxInt32)
      else if key = tunTOS then found (parseIntMatch key value MaxInt32)
      else if key = nwTOS then found (parseIntMatch key value MaxInt32)
      else if key = tunGbpID then found (parseIntMatch key value MaxInt32)
      else if key = tunGbpFlags then found (parseIntMatch key value MaxInt32)
      else if key = tunFlags then found (parseIntMatch key value MaxInt32)
      else if key = inPort then found (parseIntMatch key value MaxInt32)
      else if key = ipv6SRC then Inr (Some (IPv6Source value))
      else if key = ipv6DST then Inr (Some (IPv6Destination value))
      else if key = metadata then found (parseMetadata value)
      else if key = tunv6SRC then Inr (Some (IPv6Source value))
      else if key = tunv6DST then Inr (Some (IPv6Destination value))
      else if key = ipv6Label then found (parseIPv6Label value)
      else if key = nwSRC then Inr (Some (NetworkSource value))
      else if key = tunSRC then Inr (Some (NetworkSource value))
      else if key = tunDST then Inr (Some (NetworkDestination value))
      else if key = nwDST then Inr (Some (NetworkDestination value))
      else if key = vlanTCI1 then found (parseVLANTCI1 value)
      else if key = vlanTCI then found (parseVLANTCI value)
      else if key = ctMark then found (parseCTMark value)
      else if key = tunID then found (parseTunID value)
      else Inr None)"


section \<open>Single values\<close>

lemma hex_pad_chars: "c \<in> set (hex_pad n w) \<Longrightarrow> is_digit c \<or> 97 \<le> byte c \<and> byte c \<le> 102"
  by (auto simp: hex_pad_def pad_left_def is_digit_def byte_def dest!: fmt_nat_chars)

lemma hex_sharp_chars:
  "c \<in> set (hex_sharp w) \<Longrightarrow> is_digit c \<or> 97 \<le> byte c \<and> byte c \<le> 102 \<or> c = CHR ''x''"
  by (auto simp: hex_sharp_def is_digit_def byte_def dest!: fmt_nat_chars)

lemma hex_lit_of_ucast:
  assumes "LENGTH('a) \<le> LENGTH('b)"
  shows "hex_lit n (ucast (w :: 'a::len word) :: 'b::len word) = hex_lit n w"
  using assms by (simp add: hex_lit_def hex_pad_def unsigned_ucast_eq take_bit_nat_eq_self
      order_less_le_trans[OF unsigned_less power_increasing])

lemma hex_lit_chars: "c \<in> set (hex_lit n w) \<Longrightarrow> is_digit c \<or> 97 \<le> byte c \<and> byte c \<le> 102 \<or> c = CHR ''x''"
  by (auto simp: hex_lit_def is_digit_def byte_def dest!: hex_pad_chars)

lemma trim_hexPrefix [simp]: "trim_prefix (hex_lit n w) hexPrefix = hex_pad n w"
  by (simp add: trim_prefix_def hexPrefix_def hex_lit_def)

lemma has_hexPrefix [simp]: "has_prefix (hex_lit n w) hexPrefix"
  by (simp add: has_prefix_def hexPrefix_def hex_lit_def)

lemma has_hexPrefixD: "has_prefix s hexPrefix \<Longrightarrow> CHR ''x'' \<in> set s"
  by (auto simp: has_prefix_def hexPrefix_def prefix_def)

lemma no_hexPrefix [simp]: "\<not> has_prefix (itoa i) hexPrefix" "\<not> has_prefix (dec w) hexPrefix"
  by (auto dest!: has_hexPrefixD itoa_chars dec_chars simp: is_digit_def byte_def)

lemma parseHexUint16_lit [simp]: "parseHexUint16 (hex_lit n w) = Inr w"
  by (simp add: parseHexUint16_def ParseUint_hex)

lemma parseHexUint32_lit [simp]: "parseHexUint32 (hex_lit n w) = Inr w"
  by (simp add: parseHexUint32_def ParseUint_hex)

lemma parseHexUint64_lit [simp]: "parseHexUint64 (hex_lit n w) = Inr w"
  by (simp add: parseHexUint64_def ParseUint_hex)

lemma hex_sharp_lit: "hex_sharp w = hex_lit 0 w"
  by (simp add: hex_sharp_def hex_lit_def hex_pad_def pad_left_def)

text \<open>
  The printers of single values and the loops that read them satisfy the contract of
  \<open>sep_codec\<close>.
\<close>

lemma no_slash_hex [simp]: "CHR ''/'' \<notin> set (hex_lit n w)"
  by (auto dest!: hex_lit_chars simp: is_digit_def byte_def)

interpretation hex16: sep_codec "hex_lit n" value_uint16 "CHR ''/''" "\<lambda>_. True" for n
  by unfold_locales (simp_all add: value_uint16_def)

interpretation hex32: sep_codec "hex_lit n" value_uint32 "CHR ''/''" "\<lambda>_. True" for n
  by unfold_locales (simp_all add: value_uint32_def)

interpretation hex64: sep_codec "hex_lit n" value_uint64 "CHR ''/''" "\<lambda>_. True" for n
  by unfold_locales (simp_all add: value_uint64_def)

interpretation port_part: sep_codec "hex_lit n" "parsePort_part MaxUint16" "CHR ''/''" "\<lambda>w. w \<le> 0xffff" for n
  by unfold_locales (auto simp: parsePort_part_def)

lemmas value_lists [simp] =
  hex16.values_roundtrip1 [simplified] hex16.values_roundtrip2 [simplified]
  hex32.values_roundtrip1 [simplified] hex32.values_roundtrip2 [simplified]
  hex64.values_roundtrip1 [simplified] hex64.values_roundtrip2 [simplified]

text \<open>The parts of \<open>port/mask\<close> are read at 64 bits.\<close>

lemma ucast16_le: "(ucast (w :: uint16) :: uint64) \<le> 0xffff"
proof -
  have "unat w < 2 ^ 16" using unsigned_less[of w] by simp
  then show ?thesis
    by (simp add: word_le_nat_alt unsigned_ucast_eq take_bit_nat_eq_self)
qed

lemma parsePort_parts [simp]:
  "mapR (parsePort_part MaxUint16) (split ''/'' (hex_lit n (p :: uint16) @ CHR ''/'' # hex_lit n (m :: uint16))) =
     Inr [ucast p, ucast m]"
  using port_part.values_roundtrip2[of "ucast p" "ucast m" n]
  by (simp add: hex_lit_of_ucast ucast16_le)

section \<open>What reads back as it was printed\<close>

text \<open>The printed forms that the parser of a list of flags recognises.\<close>

definition flag_char :: "char \<Rightarrow> bool" where
  "flag_char c \<longleftrightarrow> 33 \<le> byte c \<and> byte c < 127 \<and> c \<notin> {CHR ''+'', CHR ''-'', CHR ''|'', CHR '','', CHR ''=''}"

definition signed_flag :: "string \<Rightarrow> bool" where
  "signed_flag s \<longleftrightarrow> (case s of [] \<Rightarrow> False | c # t \<Rightarrow> c \<in> {CHR ''+'', CHR ''-''} \<and> list_all flag_char t)"

definition letter :: "char \<Rightarrow> bool" where
  "letter c \<longleftrightarrow> 97 \<le> byte c \<and> byte c \<le> 122"

definition signed_tcp_flag :: "string \<Rightarrow> bool" where
  "signed_tcp_flag s \<longleftrightarrow>
     length s = 4 \<and> hd s \<in> {CHR ''+'', CHR ''-''} \<and> list_all letter (tl s)"

text \<open>An \<open>int\<close> that \<open>parseIntMatch\<close> accepts for the matches of type \<open>int\<close>.\<close>

definition int_field :: "int \<Rightarrow> bool" where
  "int_field i \<longleftrightarrow> - (2 ^ 63) \<le> i \<and> i \<le> MaxInt32"

definition canonical_srcdst :: "string \<Rightarrow> bool" where
  "canonical_srcdst d \<longleftrightarrow> d = source \<or> d = destination"

definition canonical_mac :: "string \<Rightarrow> bool" where
  "canonical_mac a \<longleftrightarrow> dataLinkMatch_MarshalText [] a = Inr (''dl_='' @ a)"

definition canonical_ipv4 :: "string \<Rightarrow> bool" where
  "canonical_ipv4 ip \<longleftrightarrow> matchIPv4AddressOrCIDR [] ip = Inr (''='' @ ip)"

definition canonical_ipv6 :: "string \<Rightarrow> bool" where
  "canonical_ipv6 ip \<longleftrightarrow> matchIPv6AddressOrCIDR [] ip = Inr (''='' @ ip)"

text \<open>
  The matches that are read back as they are.  Left out are those that are printed with an
  error, those with an address that is not in the form in which it is printed, the kinds that the
  parser reads as another kind (\<open>ARPOperation\<close>, the tunnel addresses) and those it does
  not read at all (\<open>IPFrag\<close>, \<open>FieldMatch\<close>).
\<close>

fun canonical :: "match \<Rightarrow> bool" where
  "canonical (dataLinkMatch d a) = (canonical_srcdst d \<and> canonical_mac a)"
| "canonical (dataLinkVLANMatch vid) = (validVLANVID vid \<or> vid = VLANNone)"
| "canonical (dataLinkVLANPCPMatch pcp) = validVLANPCP pcp"
| "canonical (networkMatch d ip) = (canonical_srcdst d \<and> canonical_ipv4 ip)"
| "canonical (ipv6Match d ip) = (canonical_srcdst d \<and> canonical_ipv6 ip)"
| "canonical (networkECN i) = int_field i"
| "canonical (networkTOS i) = int_field i"
| "canonical (tunnelGBP i) = int_field i"
| "canonical (tunnelGbpFlags i) = int_field i"
| "canonical (tunnelFlags i) = int_field i"
| "canonical (networkTTL i) = int_field i"
| "canonical (tunnelTTL i) = int_field i"
| "canonical (tunnelTOS i) = int_field i"
| "canonical (inPortMatch i) = int_field i"
| "canonical (neighborDiscoveryTargetMatch ip) = canonical_ipv6 ip"
| "canonical (neighborDiscoveryLinkLayerMatch d a) = (canonical_srcdst d \<and> length a = 6)"
| "canonical (arpHardwareAddressMatch d a) = (canonical_srcdst d \<and> length a = 6)"
| "canonical (arpProtocolAddressMatch d ip) = (canonical_srcdst d \<and> canonical_ipv4 ip)"
| "canonical (udpPortMatch d p m) = canonical_srcdst d"
| "canonical (transportPortMatch d p m) = canonical_srcdst d"
| "canonical (ipv6LabelMatch l m) = (validIPv6Label l \<and> validIPv6Label m)"
| "canonical (arpOpMatch op) = validARPOP op"
| "canonical (connectionTrackingMatch state) = (state \<noteq> [] \<and> list_all signed_flag state)"
| "canonical (tcpFlagsMatch flags) = (flags \<noteq> [] \<and> list_all signed_tcp_flag flags)"
| "canonical (arpOperationMatch op) = False"
| "canonical (tunnelMatch d ip) = False"
| "canonical (ipFragMatch f) = False"
| "canonical (fieldMatch f v) = False"
| "canonical _ = True"

end
