(* ===== verification/MatchRoundtrip.thy ===== *)
theory MatchRoundtrip
  imports MatchParser
begin

text \<open>
  The texts of the matches that \<open>parseMatch\<close> reads back as they were: the proof of the round trip
  between \<open>ovs/match.go\<close> and \<open>ovs/matchparser.go\<close>, one lemma for each
  group of matches, and the two errors of it (the parser of the tunnel addresses, the
  missing lower bound of \<open>parseClampInt\<close>).
\<close>

section \<open>The parser by key\<close>

text \<open>The parser of each key.\<close>

lemma parseMatch_simps [simp]:
  "parseMatch arpSHA v = found (parseMACMatch arpSHA v)"
  "parseMatch arpTHA v = found (parseMACMatch arpTHA v)"
  "parseMatch ndSLL v = found (parseMACMatch ndSLL v)"
  "parseMatch ndTLL v = found (parseMACMatch ndTLL v)"
  "parseMatch arpOp v = found (parseArpOp v)"
  "parseMatch icmpType v = found (parseIntMatch icmpType v MaxUint8)"
  "parseMatch icmpCode v = found (parseIntMatch icmpCode v MaxUint8)"
  "parseMatch icmp6Type v = found (parseIntMatch icmp6Type v MaxUint8)"
  "parseMatch icmp6Code v = found (parseIntMatch icmp6Code v MaxUint8)"
  "parseMatch nwProto v = found (parseIntMatch nwProto v MaxUint8)"
  "parseMatch ctZone v = found (parseIntMatch ctZone v MaxUint16)"
  "parseMatch tpSRC v = found (parsePort tpSRC v MaxUint16)"
  "parseMatch tpDST v = found (parsePort tpDST v MaxUint16)"
  "parseMatch udpSRC v = found (parsePort udpSRC v MaxUint16)"
  "parseMatch udpDST v = found (parsePort udpDST v MaxUint16)"
  "parseMatch conjID v = found (parseIntMatch conjID v MaxUint32)"
  "parseMatch arpSPA v = Inr (Some (ARPSourceProtocolAddress v))"
  "parseMatch arpTPA v = Inr (Some (ARPTargetProtocolAddress v))"
  "parseMatch ctState v = found (parseCTState v)"
  "parseMatch tcpFlags v = found (parseTCPFlags v)"
  "parseMatch dlSRC v = Inr (Some (DataLinkSource v))"
  "parseMatch dlDST v = Inr (Some (DataLinkDestination v))"
  "parseMatch dlType v = (case parseHexUint16 v of Inl err \<Rightarrow> Inl err | Inr t \<Rightarrow> Inr (Some (DataLinkType t)))"
  "parseMatch dlVLANPCP v = found (parseDataLinkVLANPCP v)"
  "parseMatch dlVLAN v = found (parseDataLinkVLAN v)"
  "parseMatch ndTarget v = Inr (Some (NeighborDiscoveryTarget v))"
  by (simp_all add: parseMatch_def)

lemma parseMatch_simps2 [simp]:
  "parseMatch nwECN v = found (parseIntMatch nwECN v MaxInt32)"
  "parseMatch nwTTL v = found (parseIntMatch nwTTL v MaxInt32)"
  "parseMatch tunTTL v = found (parseIntMatch tunTTL v MaxInt32)"
  "parseMatch tunTOS v = found (parseIntMatch tunTOS v MaxInt32)"
  "parseMatch nwTOS v = found (parseIntMatch nwTOS v MaxInt32)"
  "parseMatch tunGbpID v = found (parseIntMatch tunGbpID v MaxInt32)"
  "parseMatch tunGbpFlags v = found (parseIntMatch tunGbpFlags v MaxInt32)"
  "parseMatch tunFlags v = found (parseIntMatch tunFlags v MaxInt32)"
  "parseMatch inPort v = found (parseIntMatch inPort v MaxInt32)"
  "parseMatch ipv6SRC v = Inr (Some (IPv6Source v))"
  "parseMatch ipv6DST v = Inr (Some (IPv6Destination v))"
  "parseMatch metadata v = found (parseMetadata v)"
  "parseMatch tunv6SRC v = Inr (Some (IPv6Source v))"
  "parseMatch tunv6DST v = Inr (Some (IPv6Destination v))"
  "parseMatch ipv6Label v = found (parseIPv6Label v)"
  "parseMatch nwSRC v = Inr (Some (NetworkSource v))"
  "parseMatch nwDST v = Inr (Some (NetworkDestination v))"
  "parseMatch tunSRC v = Inr (Some (NetworkSource v))"
  "parseMatch tunDST v = Inr (Some (NetworkDestination v))"
  "parseMatch vlanTCI1 v = found (parseVLANTCI1 v)"
  "parseMatch vlanTCI v = found (parseVLANTCI v)"
  "parseMatch ctMark v = found (parseCTMark v)"
  "parseMatch tunID v = found (parseTunID v)"
  by (simp_all add: parseMatch_def)

lemma parseClampInt_itoa [simp]: "int_field i \<Longrightarrow> parseClampInt (itoa i) MaxInt32 = Inr i"
  by (simp add: parseClampInt_def Atoi_itoa int_field_def int_range_def)

lemma parseClampInt_dec:
  "LENGTH('a) \<le> 63 \<Longrightarrow> uint w \<le> m \<Longrightarrow> parseClampInt (dec (w :: 'a::len word)) m = Inr (uint w)"
  by (simp add: parseClampInt_def Atoi_dec)

lemma parseClampInt_dec8 [simp]: "parseClampInt (dec (w :: uint8)) MaxUint8 = Inr (uint w)"
  using unsigned_less[of w, where ?'a = int] by (intro parseClampInt_dec) auto

lemma parseClampInt_dec16 [simp]: "parseClampInt (dec (w :: uint16)) MaxUint16 = Inr (uint w)"
  using unsigned_less[of w, where ?'a = int] by (intro parseClampInt_dec) auto

lemma parseClampInt_dec32 [simp]: "parseClampInt (dec (w :: uint32)) MaxUint32 = Inr (uint w)"
  using unsigned_less[of w, where ?'a = int] by (intro parseClampInt_dec) auto

lemma parseIntMatch_simps [simp]:
  assumes "parseClampInt v m = Inr t"
  shows "parseIntMatch icmpType v m = Inr (ICMPType (word_of_int t))"
    "parseIntMatch icmpCode v m = Inr (ICMPCode (word_of_int t))"
    "parseIntMatch icmp6Type v m = Inr (ICMP6Type (word_of_int t))"
    "parseIntMatch icmp6Code v m = Inr (ICMP6Code (word_of_int t))"
    "parseIntMatch inPort v m = Inr (InPortMatch t)"
    "parseIntMatch nwECN v m = Inr (NetworkECN t)"
    "parseIntMatch nwTTL v m = Inr (NetworkTTL t)"
    "parseIntMatch tunTTL v m = Inr (TunnelTTL t)"
    "parseIntMatch tunTOS v m = Inr (TunnelTOS t)"
    "parseIntMatch nwTOS v m = Inr (NetworkTOS t)"
    "parseIntMatch tunGbpID v m = Inr (TunnelGBP t)"
    "parseIntMatch tunGbpFlags v m = Inr (TunnelGbpFlags t)"
    "parseIntMatch tunFlags v m = Inr (TunnelFlags t)"
    "parseIntMatch nwProto v m = Inr (NetworkProtocol (word_of_int t))"
    "parseIntMatch ctZone v m = Inr (ConnectionTrackingZone (word_of_int t))"
    "parseIntMatch conjID v m = Inr (ConjunctionID (word_of_int t))"
  using assms by (simp_all add: parseIntMatch_def)

lemma ucast_ucast16 [simp]: "ucast (ucast (w :: uint16) :: uint64) = w"
  by (rule bit_eqI) (simp add: bit_simps)

lemma parsePort_masked:
  "parsePort key (hex_lit n p @ CHR ''/'' # hex_lit n m) MaxUint16 =
     (if key = tpSRC then Inr (TransportSourceMaskedPort p m)
      else if key = tpDST then Inr (TransportDestinationMaskedPort p m)
      else if key = udpSRC then Inr (UDPSourceMaskedPort p m)
      else if key = udpDST then Inr (UDPDestinationMaskedPort p m)
      else Inl (ErrNoActionMatchedFor key (hex_lit n p @ CHR ''/'' # hex_lit n m)))"
proof -
  have "mapR (parsePort_part MaxUint16) (split ''/'' (hex_lit n p @ CHR ''/'' # hex_lit n m)) =
      Inr [ucast p, ucast m]" by (rule parsePort_parts)
  then have "length (split ''/'' (hex_lit n p @ CHR ''/'' # hex_lit n m)) = 2"
    by (simp only: mapR_length[symmetric]) simp
  then show ?thesis by (simp add: parsePort_def)
qed

lemma parsePort_dec:
  "parsePort key (dec (p :: uint16)) MaxUint16 =
     (if key = tpSRC then Inr (TransportSourceMaskedPort p 0)
      else if key = tpDST then Inr (TransportDestinationMaskedPort p 0)
      else if key = udpSRC then Inr (UDPSourceMaskedPort p 0)
      else if key = udpDST then Inr (UDPDestinationMaskedPort p 0)
      else Inl (ErrNoActionMatchedFor key (dec p)))"
proof -
  have "CHR ''/'' \<notin> set (dec p)" by (auto dest!: dec_chars simp: is_digit_def byte_def)
  then have "split ''/'' (dec p) = [dec p]" by (rule split_char_no_sep)
  moreover have "ucast (word_of_int (uint p) :: uint64) = p"
    by (rule bit_eqI) (simp add: bit_simps)
  ultimately show ?thesis by (simp add: parsePort_def)
qed

section \<open>Lists of flags\<close>

lemma flag_char_simps:
  assumes "flag_char c"
  shows "c \<noteq> CHR ''+''" "c \<noteq> CHR ''-''" "c \<noteq> CHR ''|''" "c \<noteq> CHR '' ''" "c \<noteq> CHR '',''"
    "c \<noteq> CHR ''=''" "space_len (c # s) = 0"
proof -
  have sp: "c \<noteq> CHR '' ''"
  proof
    assume "c = CHR '' ''"
    with assms show False by (simp add: flag_char_def byte_def)
  qed
  from assms have b: "33 \<le> byte c" "byte c < 127" by (simp_all add: flag_char_def)
  show "c \<noteq> CHR ''+''" "c \<noteq> CHR ''-''" "c \<noteq> CHR ''|''" "c \<noteq> CHR '' ''" "c \<noteq> CHR '',''" "c \<noteq> CHR ''=''"
    using assms sp by (simp_all add: flag_char_def)
  have "\<not> ascii_space c" unfolding ascii_space_def using b sp by simp
  then show "space_len (c # s) = 0" using b(2) by (subst space_len_ascii) simp_all
qed

lemma replace_all_id: "c \<notin> set s \<Longrightarrow> replace_all s c new = s"
  by (induction s) auto

lemma fields_aux_word:
  "list_all (\<lambda>c. \<forall>s. space_len (c # s) = 0) t \<Longrightarrow> fields_aux (Some f) (t @ s) = fields_aux (Some (f @ t)) s"
  by (induction t arbitrary: f) auto

lemma space_len_blank [simp]: "space_len (CHR '' '' # s) = 1"
  by (simp add: space_len.simps ascii_space_def)

lemma signed_flagE:
  assumes "signed_flag s"
  obtains c t where "s = c # t" and "c = CHR ''+'' \<or> c = CHR ''-''" and "list_all flag_char t"
  using assms by (auto simp: signed_flag_def split: list.splits)

lemma signed_flag_no_space:
  assumes "signed_flag s" shows "list_all (\<lambda>c. \<forall>r. space_len (c # r) = 0) s"
  using assms
  by (auto elim!: signed_flagE simp: list_all_iff flag_char_simps ascii_space_def byte_def)

lemma Fields_flags:
  assumes "list_all signed_flag fs" shows "Fields (join '' '' fs) = fs"
proof -
  have "fields_aux None (join '' '' fs) = fs"
    using assms
  proof (induction fs)
    case (Cons s fs)
    from Cons.prems have s: "signed_flag s" by simp
    then obtain c t where st: "s = c # t" by (auto elim: signed_flagE)
    from signed_flag_no_space[OF s] have sp: "list_all (\<lambda>c. \<forall>r. space_len (c # r) = 0) t"
      and c0: "\<And>r. space_len (c # r) = 0"
      by (auto simp: st)
    have "fields_aux None (join '' '' (s # fs)) =
        fields_aux (Some s) (if fs = [] then [] else CHR '' '' # join '' '' fs)"
      using fields_aux_word[OF sp, of "[c]"] fields_aux_word[OF sp, of "[c]" "[]"] c0
      by (simp add: st join_Cons)
    with Cons show ?case by auto
  qed simp
  then show ?thesis by (simp add: Fields_def)
qed

text \<open>What the code makes of the flags: a blank before each sign.\<close>

lemma replace_signs:
  assumes "list_all signed_flag fs"
  shows "replace_all (replace_all (concat fs) (CHR ''+'') '' +'') (CHR ''-'') '' -'' =
    concat (map (\<lambda>s. CHR '' '' # s) fs)"
  using assms
proof (induction fs)
  case (Cons s fs)
  then obtain c t where s: "s = c # t" "c = CHR ''+'' \<or> c = CHR ''-''" "list_all flag_char t"
    by (auto elim: signed_flagE)
  then have "CHR ''+'' \<notin> set t" "CHR ''-'' \<notin> set t"
    using flag_char_simps(1,2) by (auto simp: list_all_iff)
  with Cons s show ?case by (auto simp: replace_all_id)
qed simp

lemma trim_char_blanks:
  assumes "fs \<noteq> []" and "list_all signed_flag fs"
  shows "trim_char (CHR '' '') (concat (map (\<lambda>s. CHR '' '' # s) fs)) = join '' '' fs"
proof -
  have j: "concat (map (\<lambda>s. CHR '' '' # s) fs) = CHR '' '' # join '' '' fs"
    using assms(1) by (induction fs) (auto simp: join_Cons)
  from assms obtain s gs where fs: "fs = s # gs" and "signed_flag s" by (cases fs) auto
  then have hd: "dropWhile (\<lambda>d. d = CHR '' '') (join '' '' fs) = join '' '' fs"
    by (auto simp: join_Cons elim!: signed_flagE)
  obtain hs l where hs: "fs = hs @ [l]" using assms(1) by (metis rev_exhaust)
  with assms have "signed_flag l" by simp
  then obtain c t where "l = c # t" "c = CHR ''+'' \<or> c = CHR ''-''" "list_all flag_char t"
    by (rule signed_flagE)
  then have ll: "l \<noteq> []" "last l \<noteq> CHR '' ''"
    using flag_char_simps(4)[of "last t"] by (auto simp: list_all_iff)
  have "last (join '' '' fs) = last l" and ne: "join '' '' fs \<noteq> []"
    using ll hs by (cases "hs = []"; simp add: join_append)+
  with ll have "hd (rev (join '' '' fs)) \<noteq> CHR '' ''" by (simp add: hd_rev)
  with ne have "dropWhile (\<lambda>d. d = CHR '' '') (rev (join '' '' fs)) = rev (join '' '' fs)"
    by (cases "rev (join '' '' fs)") auto
  with hd show ?thesis by (simp add: trim_char_def j)
qed

lemma parseCTState_flags:
  assumes "fs \<noteq> []" and "list_all signed_flag fs"
  shows "parseCTState (concat fs) = Inr (ConnectionTrackingState fs)"
proof -
  have "CHR ''|'' \<notin> set (concat fs)"
  proof
    assume "CHR ''|'' \<in> set (concat fs)"
    then obtain f where f: "f \<in> set fs" "CHR ''|'' \<in> set f" by auto
    with assms(2) have "signed_flag f" by (simp add: list_all_iff)
    with f(2) show False using flag_char_simps(3)[of "CHR ''|''"]
      by (auto elim!: signed_flagE simp: list_all_iff)
  qed
  moreover have "CHR ''+'' \<in> set (concat fs) \<or> CHR ''-'' \<in> set (concat fs)"
    using assms by (cases fs) (auto elim!: signed_flagE)
  ultimately show ?thesis
    using assms by (auto simp: parseCTState_def Let_def replace_signs trim_char_blanks Fields_flags)
qed

lemma tcp_flags_loop_ascii:
  assumes "ascii t" and "length t \<le> 4 - i mod 4" and "i = 0 \<or> i mod 4 \<noteq> 0"
  shows "tcp_flags_loop i buf (t @ s) = tcp_flags_loop (i + length t) (buf @ t) s"
  using assms
proof (induction t arbitrary: i buf)
  case (Cons c t)
  have step: "tcp_flags_loop i buf (c # t @ s) = tcp_flags_loop (Suc i) (buf @ [c]) (t @ s)"
    using Cons.prems by (subst tcp_flags_loop.simps) auto
  show ?case
  proof (cases "t = []")
    case False
    with Cons.prems have "Suc i mod 4 \<noteq> 0" "length t \<le> 4 - Suc i mod 4"
      by (auto simp: mod_Suc Suc_le_eq split: if_splits)
    with Cons step show ?thesis by simp
  next
    case True
    with step show ?thesis by simp
  qed
qed simp

lemma tcp_flags_loop_flags:
  assumes "list_all (\<lambda>f. ascii f \<and> length f = 4) fs" and "i mod 4 = 0" and "i \<noteq> 0"
  shows "tcp_flags_loop i buf (concat fs) = buf # fs"
  using assms
proof (induction fs arbitrary: i buf)
  case Nil
  then show ?case by (simp add: tcp_flags_loop.simps)
next
  case (Cons f fs)
  then obtain c t where f: "f = c # t" "ascii t" "length t = 3" "byte c < 128" by (cases f) auto
  have "tcp_flags_loop i buf (f @ concat fs) = buf # tcp_flags_loop (Suc i) [c] (t @ concat fs)"
    using Cons.prems f by (subst tcp_flags_loop.simps) auto
  also have "tcp_flags_loop (Suc i) [c] (t @ concat fs) = tcp_flags_loop (4 + i) f (concat fs)"
    using f Cons.prems tcp_flags_loop_ascii[of t "Suc i" "[c]" "concat fs"] by (simp add: mod_Suc)
  finally show ?case using Cons by simp
qed

lemma parseTCPFlags_flags:
  assumes "fs \<noteq> []" and "list_all signed_tcp_flag fs"
  shows "parseTCPFlags (concat fs) = Inr (TCPFlags fs)"
proof -
  from assms obtain f gs where fs: "fs = f # gs" "signed_tcp_flag f" "list_all signed_tcp_flag gs"
    by (cases fs) auto
  have ok: "ascii g \<and> length g = 4" if "signed_tcp_flag g" for g
    using that by (cases g) (auto simp: signed_tcp_flag_def ascii_def letter_def list_all_iff byte_def)
  from fs(2) obtain c d t where f: "f = c # d # t" "c = CHR ''+'' \<or> c = CHR ''-''" "letter d"
    by (auto simp: signed_tcp_flag_def eval_nat_numeral length_Suc_conv)
  have "parse_uint (d # t @ concat gs) 10 64 = Inl Syntax"
    using f(3) by (auto simp: parse_uint_def digit_val_def letter_def byte_def)
  then have "Atoi (concat fs) = Inl (ErrSyntax (concat fs))"
    using f(2) by (auto simp: Atoi_def parse_int_def num_result_def fs f)
  moreover have "length (concat fs) mod 4 = 0"
  proof -
    have "length (concat gs) = 4 * length gs"
      using fs(3) ok by (induction gs) auto
    with ok[OF fs(2)] show ?thesis by (simp add: fs)
  qed
  moreover have "tcp_flags_loop 0 [] (concat fs) = fs"
  proof -
    have "tcp_flags_loop 0 [] (f @ concat gs) = tcp_flags_loop 4 f (concat gs)"
      using ok[OF fs(2)] tcp_flags_loop_ascii[of f 0 "[]" "concat gs"] by simp
    also have "\<dots> = f # gs"
      using fs(3) ok by (intro tcp_flags_loop_flags) (auto simp: list_all_iff)
    finally show ?thesis by (simp add: fs)
  qed
  ultimately show ?thesis by (simp add: parseTCPFlags_def)
qed

section \<open>The round trip\<close>

text \<open>
  The text of a match is a key of the parser and a value around one \<open>=\<close>, and reading the value gives the
  match back.  The value is made of printing ASCII characters other than \<open>=\<close> and the comma, so that
  the text survives in a flow.
\<close>

definition value_char :: "char \<Rightarrow> bool" where
  "value_char c \<longleftrightarrow> 33 \<le> byte c \<and> byte c < 127 \<and> c \<noteq> CHR ''='' \<and> c \<noteq> CHR '',''"

definition value_text :: "string \<Rightarrow> bool" where
  "value_text v \<longleftrightarrow> list_all value_char v"

definition match_keys :: "string list" where
  "match_keys =
     [arpSHA, arpTHA, ndSLL, ndTLL, arpOp, icmpType, icmpCode, icmp6Type, icmp6Code, nwProto, ctZone,
      tpSRC, tpDST, udpSRC, udpDST, conjID, arpSPA, arpTPA, ctState, tcpFlags, dlSRC, dlDST, dlType,
      dlVLANPCP, dlVLAN, ndTarget, nwECN, nwTTL, tunTTL, tunTOS, nwTOS, tunGbpID, tunGbpFlags,
      tunFlags, inPort, ipv6SRC, ipv6DST, metadata, ipv6Label, nwSRC, nwDST, vlanTCI1, vlanTCI,
      ctMark, tunID]"

definition reads_back :: "match \<Rightarrow> bool" where
  "reads_back m \<longleftrightarrow>
     (\<exists>k v. match_MarshalText m = Inr (k @ ''='' @ v) \<and> k \<in> set match_keys \<and> value_text v \<and>
            parseMatch k v = Inr (Some m))"

lemma reads_backI:
  assumes "match_MarshalText m = Inr (k @ ''='' @ v)" and "k \<in> set match_keys" and "value_text v"
    and "parseMatch k v = Inr (Some m)"
  shows "reads_back m"
  using assms by (auto simp: reads_back_def)

lemma match_keys_char:
  assumes "k \<in> set match_keys" shows "value_text k" and "k \<noteq> []"
proof -
  have "list_all (\<lambda>k. value_text k \<and> k \<noteq> []) match_keys"
    by (simp add: match_keys_def value_text_def value_char_def byte_def)
  with assms show "value_text k" "k \<noteq> []" by (auto simp: list_all_iff)
qed

lemma keys_mem [simp]:
  "arpSHA \<in> set match_keys" "arpTHA \<in> set match_keys" "ndSLL \<in> set match_keys"
  "ndTLL \<in> set match_keys" "arpOp \<in> set match_keys" "icmpType \<in> set match_keys"
  "icmpCode \<in> set match_keys" "icmp6Type \<in> set match_keys" "icmp6Code \<in> set match_keys"
  "nwProto \<in> set match_keys" "ctZone \<in> set match_keys" "tpSRC \<in> set match_keys"
  "tpDST \<in> set match_keys" "udpSRC \<in> set match_keys" "udpDST \<in> set match_keys"
  "conjID \<in> set match_keys" "arpSPA \<in> set match_keys" "arpTPA \<in> set match_keys"
  "ctState \<in> set match_keys" "tcpFlags \<in> set match_keys" "dlSRC \<in> set match_keys"
  "dlDST \<in> set match_keys" "dlType \<in> set match_keys" "dlVLANPCP \<in> set match_keys"
  "dlVLAN \<in> set match_keys" "ndTarget \<in> set match_keys" "nwECN \<in> set match_keys"
  "nwTTL \<in> set match_keys" "tunTTL \<in> set match_keys" "tunTOS \<in> set match_keys"
  "nwTOS \<in> set match_keys" "tunGbpID \<in> set match_keys" "tunGbpFlags \<in> set match_keys"
  "tunFlags \<in> set match_keys" "inPort \<in> set match_keys" "ipv6SRC \<in> set match_keys"
  "ipv6DST \<in> set match_keys" "metadata \<in> set match_keys" "ipv6Label \<in> set match_keys"
  "nwSRC \<in> set match_keys" "nwDST \<in> set match_keys" "vlanTCI1 \<in> set match_keys"
  "vlanTCI \<in> set match_keys" "ctMark \<in> set match_keys" "tunID \<in> set match_keys"
  by (simp_all add: match_keys_def)

lemma number_value_char:
  "is_digit c \<or> 97 \<le> byte c \<and> byte c \<le> 102 \<or> c = CHR ''x'' \<or> c = CHR ''-'' \<or> c = CHR '':'' \<Longrightarrow> value_char c"
  by (auto simp: value_char_def is_digit_def byte_def)

lemma value_text_simps [simp]:
  "value_text []" "value_text (c # s) = (value_char c \<and> value_text s)"
  "value_text (s @ t) = (value_text s \<and> value_text t)"
  by (auto simp: value_text_def)

lemma value_text_numbers [simp]:
  "value_text (hex_lit n w)" "value_text (hex_sharp w)" "value_text (dec w)"
  "value_text (itoa i)" "value_text (mac_string a)"
  unfolding value_text_def list_all_iff
  by (auto intro!: number_value_char dest!: hex_lit_chars hex_sharp_chars dec_chars itoa_chars
      mac_string_chars)

lemma value_char_slash [simp]: "value_char (CHR ''/'')"
  by (simp add: value_char_def byte_def)

lemma value_text_ffff [simp]: "value_text ''0xffff''"
  by (simp add: value_char_def byte_def)

lemmas match_constructors =
  DataLinkSource_def DataLinkDestination_def DataLinkType_def DataLinkVLAN_def
  DataLinkVLANPCP_def NetworkSource_def NetworkDestination_def NetworkECN_def NetworkTOS_def
  TunnelGBP_def TunnelGbpFlags_def TunnelFlags_def NetworkTTL_def TunnelTTL_def ConjunctionID_def
  TunnelTOS_def NetworkProtocol_def IPv6Source_def IPv6Destination_def ICMPType_def ICMPCode_def
  ICMP6Type_def ICMP6Code_def InPortMatch_def NeighborDiscoveryTarget_def
  NeighborDiscoverySourceLinkLayer_def NeighborDiscoveryTargetLinkLayer_def ARPOperation_def
  ARPSourceHardwareAddress_def ARPTargetHardwareAddress_def ARPSourceProtocolAddress_def
  ARPTargetProtocolAddress_def TransportSourcePort_def TransportDestinationPort_def
  TransportSourceMaskedPort_def TransportDestinationMaskedPort_def UDPSourcePort_def
  UDPDestinationPort_def UDPSourceMaskedPort_def UDPDestinationMaskedPort_def VLANTCI_def
  VLANTCI1_def IPv6Label_def ArpOp_def ConnectionTrackingMark_def ConnectionTrackingZone_def
  ConnectionTrackingState_def Metadata_def MetadataWithMask_def TCPFlags_def TunnelID_def
  TunnelIDWithMask_def TunnelSrc_def TunnelDst_def IPFrag_def FieldMatch_def

lemma reads_back_int:
  assumes "int_field i"
  shows "reads_back (networkECN i)"
    "reads_back (networkTOS i)"
    "reads_back (tunnelGBP i)"
    "reads_back (tunnelGbpFlags i)"
    "reads_back (tunnelFlags i)"
    "reads_back (networkTTL i)"
    "reads_back (tunnelTTL i)"
    "reads_back (tunnelTOS i)"
    "reads_back (inPortMatch i)"
proof -
  note defs = match_MarshalText_defs match_constructors assms
  show "reads_back (networkECN i)"
    by (rule reads_backI[where k = nwECN and v = "itoa i"]) (simp_all add: defs)
  show "reads_back (networkTOS i)"
    by (rule reads_backI[where k = nwTOS and v = "itoa i"]) (simp_all add: defs)
  show "reads_back (tunnelGBP i)"
    by (rule reads_backI[where k = tunGbpID and v = "itoa i"]) (simp_all add: defs)
  show "reads_back (tunnelGbpFlags i)"
    by (rule reads_backI[where k = tunGbpFlags and v = "itoa i"]) (simp_all add: defs)
  show "reads_back (tunnelFlags i)"
    by (rule reads_backI[where k = tunFlags and v = "itoa i"]) (simp_all add: defs)
  show "reads_back (networkTTL i)"
    by (rule reads_backI[where k = nwTTL and v = "itoa i"]) (simp_all add: defs)
  show "reads_back (tunnelTTL i)"
    by (rule reads_backI[where k = tunTTL and v = "itoa i"]) (simp_all add: defs)
  show "reads_back (tunnelTOS i)"
    by (rule reads_backI[where k = tunTOS and v = "itoa i"]) (simp_all add: defs)
  show "reads_back (inPortMatch i)"
    by (rule reads_backI[where k = inPort and v = "itoa i"]) (simp_all add: defs)
qed

lemma reads_back_word:
  "reads_back (icmpTypeMatch w)"
  "reads_back (icmpCodeMatch w)"
  "reads_back (icmp6TypeMatch w)"
  "reads_back (icmp6CodeMatch w)"
  "reads_back (networkProtocolMatch w)"
  "reads_back (connectionTrackingZoneMatch z)"
  "reads_back (conjunctionIDMatch i)"
proof -
  note defs = match_MarshalText_defs match_constructors
  show "reads_back (icmpTypeMatch w)"
    by (rule reads_backI[where k = icmpType and v = "dec w"]) (simp_all add: defs)
  show "reads_back (icmpCodeMatch w)"
    by (rule reads_backI[where k = icmpCode and v = "dec w"]) (simp_all add: defs)
  show "reads_back (icmp6TypeMatch w)"
    by (rule reads_backI[where k = icmp6Type and v = "dec w"]) (simp_all add: defs)
  show "reads_back (icmp6CodeMatch w)"
    by (rule reads_backI[where k = icmp6Code and v = "dec w"]) (simp_all add: defs)
  show "reads_back (networkProtocolMatch w)"
    by (rule reads_backI[where k = nwProto and v = "dec w"]) (simp_all add: defs)
  show "reads_back (connectionTrackingZoneMatch z)"
    by (rule reads_backI[where k = ctZone and v = "dec z"]) (simp_all add: defs)
  show "reads_back (conjunctionIDMatch i)"
    by (rule reads_backI[where k = conjID and v = "dec i"]) (simp_all add: defs)
qed

lemma reads_back_dlType: "reads_back (dataLinkTypeMatch t)"
  by (rule reads_backI[where k = dlType and v = "hex_lit 4 t"])
    (simp_all add: match_MarshalText_defs match_constructors)

lemma reads_back_vlanTCI: "reads_back (vlanTCIMatch a b)" "reads_back (vlanTCI1Match a b)"
  by (cases "b = 0";
      auto simp: match_MarshalText_defs match_constructors parseVLANTCI_def parseVLANTCI1_def
        intro: reads_backI[where k = vlanTCI] reads_backI[where k = vlanTCI1])+

lemma reads_back_ctMark: "reads_back (connectionTrackingMarkMatch a b)"
  by (cases "b = 0";
      auto simp: match_MarshalText_defs match_constructors parseCTMark_def
        intro: reads_backI[where k = ctMark])

lemma reads_back_uint64: "reads_back (metadataMatch a b)" "reads_back (tunnelIDMatch a b)"
  by (cases "b = 0";
      auto simp: match_MarshalText_defs match_constructors hex_sharp_lit parseMetadata_def parseTunID_def
        intro: reads_backI[where k = metadata] reads_backI[where k = tunID])+

lemma reads_back_ipv6Label:
  "validIPv6Label l \<Longrightarrow> validIPv6Label m \<Longrightarrow> reads_back (ipv6LabelMatch l m)"
  by (cases "m = 0";
      auto simp: match_MarshalText_defs match_constructors parseIPv6Label_def
        intro: reads_backI[where k = ipv6Label])

lemma reads_back_arpOp: "validARPOP op \<Longrightarrow> reads_back (arpOpMatch op)"
  by (auto simp: match_MarshalText_defs match_constructors parseArpOp_def ParseUint_dec
      intro: reads_backI[where k = arpOp])

lemma reads_back_port:
  assumes "canonical_srcdst d"
  shows "reads_back (transportPortMatch d p m)" "reads_back (udpPortMatch d p m)"
  using assms
  by (cases "m = 0";
      auto simp: canonical_srcdst_def match_MarshalText_defs match_constructors
        matchTransportPort_def matchUDPPort_def parsePort_masked parsePort_dec
        intro: reads_backI[where k = tpSRC] reads_backI[where k = tpDST]
          reads_backI[where k = udpSRC] reads_backI[where k = udpDST])+

lemma hex_lit_ffff: "''0xffff'' = hex_lit 4 (0xffff :: uint16)"
  by (simp add: hex_lit_def hex_pad_def pad_left_def fmt_nat.simps digit_chars)

lemma reads_back_vlan:
  assumes "validVLANVID vid \<or> vid = VLANNone"
  shows "reads_back (dataLinkVLANMatch vid)"
proof (cases "vid = VLANNone")
  case True
  have "parseDataLinkVLAN ''0xffff'' = Inr (DataLinkVLAN 0xffff)"
    unfolding hex_lit_ffff by (simp add: parseDataLinkVLAN_def)
  with True show ?thesis
    by (intro reads_backI[where k = dlVLAN and v = "''0xffff''"])
      (auto simp: match_MarshalText_defs match_constructors VLANNone_def simp del: value_text_simps(2))
next
  case False
  with assms have "int_range vid" "validVLANVID vid" by (auto simp: validVLANVID_def int_range_def)
  with False show ?thesis
    by (intro reads_backI[where k = dlVLAN and v = "itoa vid"])
      (auto simp: match_MarshalText_defs match_constructors parseDataLinkVLAN_def Atoi_itoa)
qed

lemma reads_back_pcp: "validVLANPCP pcp \<Longrightarrow> reads_back (dataLinkVLANPCPMatch pcp)"
  by (intro reads_backI[where k = dlVLANPCP and v = "itoa pcp"])
    (auto simp: match_MarshalText_defs match_constructors parseDataLinkVLANPCP_def Atoi_itoa
      validVLANPCP_def int_range_def)

lemma reads_back_hwaddr:
  assumes "canonical_srcdst d" and "length a = 6"
  shows "reads_back (neighborDiscoveryLinkLayerMatch d a)" "reads_back (arpHardwareAddressMatch d a)"
proof -
  have "ParseMAC (mac_string a) = Inr a"
    using assms(2) by (intro ParseMAC_mac_string) (simp add: mac_length_ok_def)
  with assms show "reads_back (neighborDiscoveryLinkLayerMatch d a)" "reads_back (arpHardwareAddressMatch d a)"
    by (auto simp: canonical_srcdst_def match_MarshalText_defs match_constructors parseMACMatch_def
        matchEthernetHardwareAddress_def ethernetAddrLen_def
        intro: reads_backI[where k = ndSLL] reads_backI[where k = ndTLL]
          reads_backI[where k = arpSHA] reads_backI[where k = arpTHA])
qed

text \<open>The printed form of an address does not depend on the key.\<close>

lemma matchIPv4_key:
  "matchIPv4AddressOrCIDR (j @ k) ip =
     (case matchIPv4AddressOrCIDR k ip of Inl e \<Rightarrow> Inl e | Inr t \<Rightarrow> Inr (j @ t))"
  by (simp add: matchIPv4AddressOrCIDR_def split: option.splits)

lemma matchIPv6_key:
  "matchIPv6AddressOrCIDR (j @ k) ip =
     (case matchIPv6AddressOrCIDR k ip of Inl e \<Rightarrow> Inl e | Inr t \<Rightarrow> Inr (j @ t))"
  by (simp add: matchIPv6AddressOrCIDR_def split: option.splits)

lemma canonical_ipv4_text: "canonical_ipv4 ip \<Longrightarrow> matchIPv4AddressOrCIDR k ip = Inr (k @ ''='' @ ip)"
  using matchIPv4_key[of k "[]" ip] by (simp add: canonical_ipv4_def)

lemma canonical_ipv6_text: "canonical_ipv6 ip \<Longrightarrow> matchIPv6AddressOrCIDR k ip = Inr (k @ ''='' @ ip)"
  using matchIPv6_key[of k "[]" ip] by (simp add: canonical_ipv6_def)

lemma addr_value_char: "addr_char c \<or> c = CHR ''/'' \<Longrightarrow> value_char c"
  by (auto simp: addr_char_def value_char_def digit_val_def byte_def split: if_splits)

lemma matchIPv4_value:
  "matchIPv4AddressOrCIDR k ip = Inr t \<Longrightarrow> value_text ip"
  by (auto simp: matchIPv4AddressOrCIDR_def value_text_def list_all_iff split: option.splits if_splits
      intro!: addr_value_char dest: ParseIP_chars ParseCIDR_chars)

lemma matchIPv6_value:
  "matchIPv6AddressOrCIDR k ip = Inr t \<Longrightarrow> value_text ip"
  by (auto simp: matchIPv6AddressOrCIDR_def value_text_def list_all_iff split: option.splits if_splits
      intro!: addr_value_char dest: ParseIP_chars ParseCIDR_chars)

lemma reads_back_ip:
  assumes "canonical_srcdst d"
  shows "canonical_ipv4 ip \<Longrightarrow> reads_back (networkMatch d ip)"
    and "canonical_ipv4 ip \<Longrightarrow> reads_back (arpProtocolAddressMatch d ip)"
    and "canonical_ipv6 ip \<Longrightarrow> reads_back (ipv6Match d ip)"
    and "canonical_ipv6 ip \<Longrightarrow> reads_back (neighborDiscoveryTargetMatch ip)"
proof -
  show "canonical_ipv4 ip \<Longrightarrow> reads_back (networkMatch d ip)"
    "canonical_ipv4 ip \<Longrightarrow> reads_back (arpProtocolAddressMatch d ip)"
    if 4: "canonical_ipv4 ip"
  proof -
    have "value_text ip" using matchIPv4_value[OF canonical_ipv4_text[OF 4]] .
    with assms canonical_ipv4_text[OF 4]
    show "reads_back (networkMatch d ip)" "reads_back (arpProtocolAddressMatch d ip)"
      by (auto simp: canonical_srcdst_def match_MarshalText_defs match_constructors
          intro: reads_backI[where k = nwSRC] reads_backI[where k = nwDST]
            reads_backI[where k = arpSPA] reads_backI[where k = arpTPA])
  qed
  show "canonical_ipv6 ip \<Longrightarrow> reads_back (ipv6Match d ip)"
    "canonical_ipv6 ip \<Longrightarrow> reads_back (neighborDiscoveryTargetMatch ip)"
    if 6: "canonical_ipv6 ip"
  proof -
    have "value_text ip" using matchIPv6_value[OF canonical_ipv6_text[OF 6]] .
    with assms canonical_ipv6_text[OF 6]
    show "reads_back (ipv6Match d ip)" "reads_back (neighborDiscoveryTargetMatch ip)"
      by (auto simp: canonical_srcdst_def match_MarshalText_defs match_constructors
          intro: reads_backI[where k = ipv6SRC] reads_backI[where k = ipv6DST]
            reads_backI[where k = ndTarget])
  qed
qed

text \<open>The same for hardware addresses with a mask.\<close>

lemma dataLink_key:
  "dataLinkMatch_MarshalText d a =
     (case dataLinkMatch_MarshalText [] a of
        Inl e \<Rightarrow> Inl e
      | Inr t \<Rightarrow> Inr (''dl_'' @ d @ drop 3 t))"
  by (simp add: dataLinkMatch_MarshalText_def Let_def split: sum.splits)

lemma dataLink_text:
  assumes "dataLinkMatch_MarshalText d a = Inr t"
  obtains hw where "t = ''dl_'' @ d @ ''='' @ mac_string hw"
  | hw wc where "t = ''dl_'' @ d @ ''='' @ mac_string hw @ ''/'' @ mac_string wc"
  using assms by (auto simp: dataLinkMatch_MarshalText_def Let_def split: sum.splits if_splits)

lemma canonical_mac_value:
  assumes "canonical_mac a" shows "value_text a"
proof -
  from assms have "dataLinkMatch_MarshalText [] a = Inr (''dl_='' @ a)"
    by (simp add: canonical_mac_def)
  then show ?thesis by (cases rule: dataLink_text) auto
qed

lemma reads_back_dataLink:
  assumes "canonical_srcdst d" and "canonical_mac a"
  shows "reads_back (dataLinkMatch d a)"
proof -
  have "dataLinkMatch_MarshalText d a = Inr (''dl_'' @ d @ ''='' @ a)"
    using assms(2) dataLink_key[of d a] by (simp add: canonical_mac_def)
  moreover have "value_text a" using assms(2) by (rule canonical_mac_value)
  ultimately show ?thesis
    using assms(1)
    by (auto simp: canonical_srcdst_def match_constructors
        intro: reads_backI[where k = dlSRC] reads_backI[where k = dlDST])
qed

lemma signed_flag_value: "signed_flag f \<Longrightarrow> value_text f"
  by (auto elim!: signed_flagE simp: value_text_def list_all_iff flag_char_def value_char_def byte_def)

lemma flags_value: "list_all signed_flag fs \<Longrightarrow> value_text (concat fs)"
  by (induction fs) (auto simp: signed_flag_value)

lemma signed_tcp_flag_signed: "signed_tcp_flag s \<Longrightarrow> signed_flag s"
  by (cases s)
    (auto simp: signed_tcp_flag_def signed_flag_def letter_def flag_char_def byte_def list_all_iff)

lemma reads_back_flags:
  assumes "fs \<noteq> []"
  shows "list_all signed_flag fs \<Longrightarrow> reads_back (connectionTrackingMatch fs)"
    and "list_all signed_tcp_flag fs \<Longrightarrow> reads_back (tcpFlagsMatch fs)"
proof -
  show "list_all signed_flag fs \<Longrightarrow> reads_back (connectionTrackingMatch fs)"
    using assms
    by (intro reads_backI[where k = ctState and v = "concat fs"])
      (auto simp: match_MarshalText_defs match_constructors join_eq_concat parseCTState_flags
        intro: flags_value)
  assume f: "list_all signed_tcp_flag fs"
  then have "list_all signed_flag fs" by (auto simp: list_all_iff signed_tcp_flag_signed)
  with f assms show "reads_back (tcpFlagsMatch fs)"
    by (intro reads_backI[where k = tcpFlags and v = "concat fs"])
      (auto simp: match_MarshalText_defs match_constructors join_eq_concat parseTCPFlags_flags
        intro: flags_value)
qed

lemma canonical_reads_back: "canonical m \<Longrightarrow> reads_back m"
  by (cases m)
    (simp_all add: reads_back_int reads_back_word reads_back_dlType reads_back_vlanTCI
      reads_back_ctMark reads_back_uint64 reads_back_ipv6Label reads_back_arpOp reads_back_port
      reads_back_vlan reads_back_pcp reads_back_hwaddr reads_back_ip reads_back_dataLink
      reads_back_flags reads_back_ip(4)[where d = source] canonical_srcdst_def)

end
