(* ===== verification/MatchProps.thy ===== *)
theory MatchProps
  imports MatchRoundtrip
begin

text \<open>
  The properties of the matches: of \<open>ovs/match.go\<close> with \<open>ovs/matchparser.go\<close>, and of the port ranges that
  become matches.
\<close>

unbundle bit_operations_syntax

section \<open>Port ranges\<close>

text \<open>
  What a port match of the code stands for: a mask of 0 is no mask, the port itself is matched.
\<close>

fun port_accepts :: "match \<Rightarrow> string \<Rightarrow> uint16 \<Rightarrow> bool" where
  "port_accepts (transportPortMatch d v m) d' p = (d = d' \<and> (if m = 0 then p = v else p AND m = v))"
| "port_accepts (udpPortMatch d v m) d' p = (d = d' \<and> (if m = 0 then p = v else p AND m = v))"
| "port_accepts _ _ _ = False"

lemma MaskedPorts_pairs:
  assumes "BitwiseMatch \<lparr>Start = s, End = e\<rparr> = Inr brs"
  shows "MaskedPorts (transportPortRange d s e) = Inr (map (\<lambda>br. transportPortMatch d (Value br) (Mask br)) brs)"
    and "MaskedPorts (udpPortRange d s e) = Inr (map (\<lambda>br. udpPortMatch d (Value br) (Mask br)) brs)"
  using assms by (simp_all add: transportPortRange_MaskedPorts_def udpPortRange_MaskedPorts_def)

lemma pairs_accept:
  assumes "BitwiseMatch \<lparr>Start = s, End = e\<rparr> = Inr brs"
    and "\<And>br. port_accepts (f br) d p \<longleftrightarrow> (if Mask br = 0 then p = Value br else p AND Mask br = Value br)"
  shows "length (filter (\<lambda>m. port_accepts m d p) (map f brs)) = (if s \<le> p \<and> p \<le> e then 1 else 0)"
proof -
  have "Mask br \<noteq> 0" if "br \<in> set brs" for br
    using BitwiseMatch_mask[OF assms(1) that] getMask_nonzero by auto
  then have "filter (\<lambda>br. port_accepts (f br) d p) brs = filter (\<lambda>br. bit_matches br p) brs"
    by (intro filter_cong) (simp_all add: assms(2) bit_matches_def)
  with BitwiseMatch_count[OF assms(1), of p] show ?thesis by (simp add: filter_map comp_def)
qed

text \<open>
  C6.  \<open>MaskedPorts\<close> turns a valid range of ports into matches whose texts can be read back and that together
  accept exactly the ports of the range, each by one match.
\<close>

theorem MaskedPorts_cover:
  assumes "0 < s" and "s \<le> e" and "canonical_srcdst d"
    and "ports = transportPortRange d s e \<or> ports = udpPortRange d s e"
  shows "\<exists>ms. MaskedPorts ports = Inr ms \<and> list_all reads_back ms \<and>
    (\<forall>p. length (filter (\<lambda>m. port_accepts m d p) ms) = (if s \<le> p \<and> p \<le> e then 1 else 0))"
proof -
  from BitwiseMatch_tiles[of "\<lparr>Start = s, End = e\<rparr>"] assms(1,2) obtain brs where
    brs: "BitwiseMatch \<lparr>Start = s, End = e\<rparr> = Inr brs" by auto
  from assms(4) show ?thesis
  proof
    assume r: "ports = transportPortRange d s e"
    show ?thesis
      using pairs_accept[OF brs, where f = "\<lambda>br. transportPortMatch d (Value br) (Mask br)" and d = d]
      by (intro exI[of _ "map (\<lambda>br. transportPortMatch d (Value br) (Mask br)) brs"])
        (simp add: r MaskedPorts_pairs[OF brs] list_all_iff reads_back_port[OF assms(3)] del: MaskedPorts.simps)
  next
    assume r: "ports = udpPortRange d s e"
    show ?thesis
      using pairs_accept[OF brs, where f = "\<lambda>br. udpPortMatch d (Value br) (Mask br)" and d = d]
      by (intro exI[of _ "map (\<lambda>br. udpPortMatch d (Value br) (Mask br)) brs"])
        (simp add: r MaskedPorts_pairs[OF brs] list_all_iff reads_back_port[OF assms(3)] del: MaskedPorts.simps)
  qed
qed

lemma MaskedPorts_cover_witness:
  "\<exists>ms. MaskedPorts (TransportSourcePortRange 16 31) = Inr ms \<and> list_all reads_back ms \<and>
    (\<forall>p. length (filter (\<lambda>m. port_accepts m source p) ms) = (if 16 \<le> p \<and> p \<le> 31 then 1 else 0))"
  by (rule MaskedPorts_cover) (simp_all add: canonical_srcdst_def TransportSourcePortRange_def)

section \<open>Addresses as they are printed\<close>

lemma no_slash_mac: "CHR ''/'' \<notin> set (mac_string a)"
  by (auto dest!: mac_string_chars simp: is_digit_def byte_def)

lemma no_slash_ipv4: "CHR ''/'' \<notin> set (ipv4_string p)"
  by (auto dest!: ipv4_string_chars simp: is_digit_def byte_def)

lemma canonical_mac_string:
  assumes "length a = 6" shows "canonical_mac (mac_string a)"
proof -
  have "ParseMAC (mac_string a) = Inr a"
    using assms by (intro ParseMAC_mac_string) (simp add: mac_length_ok_def)
  with assms no_slash_mac show ?thesis
    by (simp add: canonical_mac_def dataLinkMatch_MarshalText_def split2_def ethernetAddrLen_def index_of_char)
qed

lemma canonical_mac_mask:
  assumes "length a = 6" and "length w = 6" shows "canonical_mac (mac_string a @ CHR ''/'' # mac_string w)"
proof -
  have "ParseMAC (mac_string x) = Inr x" if "length x = 6" for x
    using that by (intro ParseMAC_mac_string) (simp add: mac_length_ok_def)
  with assms no_slash_mac show ?thesis
    by (simp add: canonical_mac_def dataLinkMatch_MarshalText_def split2_def ethernetAddrLen_def index_of_char)
qed

lemma ip_kind_ipv4: "length p = 4 \<Longrightarrow> ip_kind (ipv4_string p) = Some (CHR ''.'')"
proof (rule ip_kind_dot)
  assume "length p = 4"
  then show "CHR ''.'' \<in> set (ipv4_string p)"
    by (auto simp: ipv4_string_def eval_nat_numeral length_Suc_conv join_Cons)
  show "CHR '':'' \<notin> set (ipv4_string p)"
    by (auto dest!: ipv4_string_chars simp: is_digit_def byte_def)
qed

lemma canonical_ipv4_string:
  assumes "length p = 4" shows "canonical_ipv4 (ipv4_string p)"
proof -
  have "ParseIP (ipv4_string p) = Some (v4_in_v6_prefix @ p)"
    using assms by (simp add: ParseIP_def ip_kind_ipv4 parseIPv4_ipv4_string)
  moreover have "ParseCIDR (ipv4_string p) = None"
    using no_slash_ipv4[of p] by (simp add: ParseCIDR_def index_of_char)
  moreover have "To4 (v4_in_v6_prefix @ p) = Some p" using assms by (simp add: To4_def v4_in_v6_prefix_def)
  moreover have "v4_in_v6_prefix \<noteq> []" by (simp add: v4_in_v6_prefix_def)
  ultimately show ?thesis by (simp add: canonical_ipv4_def matchIPv4AddressOrCIDR_def ip_string_def)
qed

text \<open>The text of an accepted IPv4 address is canonical again, whatever form the address was given in.\<close>

lemma matchIPv4_canonical:
  assumes "matchIPv4AddressOrCIDR k ip = Inr t"
  obtains v where "t = k @ ''='' @ v" and "canonical_ipv4 v"
proof (cases "ParseCIDR ip")
  case (Some a)
  with assms have "t = k @ ''='' @ ip" "canonical_ipv4 ip"
    by (auto simp: canonical_ipv4_def matchIPv4AddressOrCIDR_def split: if_splits)
  then show ?thesis by (rule that)
next
  case None
  with assms obtain a p where a: "ParseIP ip = Some a" "To4 a = Some p" "t = k @ ''='' @ ip_string a"
    by (auto simp: matchIPv4AddressOrCIDR_def split: option.splits if_splits)
  from a(2) have "length p = 4" "a \<noteq> []" by (auto simp: To4_def split: if_splits)
  with a show ?thesis using canonical_ipv4_string by (intro that[of "ipv4_string p"]) (simp_all add: ip_string_def)
qed

lemma dataLink_canonical:
  assumes "dataLinkMatch_MarshalText d a = Inr t"
  obtains v where "t = ''dl_'' @ d @ ''='' @ v" and "canonical_mac v"
proof -
  from assms obtain a' where a': "length a' = 6"
    and t: "t = ''dl_'' @ d @ ''='' @ mac_string a' \<or>
      (\<exists>w. length w = 6 \<and> t = ''dl_'' @ d @ ''='' @ mac_string a' @ ''/'' @ mac_string w)"
    by (auto simp: dataLinkMatch_MarshalText_def Let_def ethernetAddrLen_def split: sum.splits if_splits)
  from t show ?thesis
    using a' canonical_mac_string canonical_mac_mask that by auto
qed

section \<open>Reading and printing\<close>

text \<open>
  C9.  A match in its canonical form is printed as a key, an equals sign and a value, and
  \<open>parseMatch\<close> gives the match back from the two.
\<close>

theorem match_round_trip:
  assumes "canonical m"
  shows "\<exists>k v. match_MarshalText m = Inr (k @ ''='' @ v) \<and> parseMatch k v = Inr (Some m)"
  using canonical_reads_back[OF assms] unfolding reads_back_def by blast

lemma match_round_trip_witness:
  "\<exists>k v. match_MarshalText (DataLinkSource ''00:11:22:aa:bb:cc'') = Inr (k @ ''='' @ v) \<and>
     parseMatch k v = Inr (Some (DataLinkSource ''00:11:22:aa:bb:cc''))"
proof (rule match_round_trip)
  have mac: "mac_string [0x00, 0x11, 0x22, 0xaa, 0xbb, 0xcc] = ''00:11:22:aa:bb:cc''" by (simp add: mac_string_def print_eval)
  from canonical_mac_string[of "[0x00, 0x11, 0x22, 0xaa, 0xbb, 0xcc]"]
  show "canonical (DataLinkSource ''00:11:22:aa:bb:cc'')"
    by (simp add: DataLinkSource_def canonical_srcdst_def mac)
qed

text \<open>
  An address that is printed in another form than it was given in (a hardware address with dashes, an IPv4
  address inside an IPv6 one) is printed as it will be the next time: the text of the match is read as a match
  with the same text.
\<close>

theorem address_text_stable:
  assumes "match_MarshalText m = Inr t" and "canonical_srcdst d"
    and "m = dataLinkMatch d a \<or> m = networkMatch d a \<or> m = arpProtocolAddressMatch d a"
  shows "\<exists>k v m'. t = k @ ''='' @ v \<and> parseMatch k v = Inr (Some m') \<and> match_MarshalText m' = Inr t"
proof -
  have stable: ?thesis if "reads_back m'" and "match_MarshalText m' = Inr t" for m'
    using that unfolding reads_back_def by (metis Inr_inject)
  from assms(3) show ?thesis
  proof (elim disjE)
    assume m: "m = dataLinkMatch d a"
    with assms(1) obtain v where v: "t = ''dl_'' @ d @ ''='' @ v" "canonical_mac v"
      by (auto elim: dataLink_canonical)
    then show ?thesis
      using dataLink_key[of d v]
      by (intro stable[OF reads_back_dataLink[OF assms(2) v(2)]]) (simp add: canonical_mac_def)
  next
    assume m: "m = networkMatch d a"
    with assms(1) obtain v where v: "t = (''nw_'' @ d) @ ''='' @ v" "canonical_ipv4 v"
      by (auto simp: networkMatch_MarshalText_def elim: matchIPv4_canonical)
    then show ?thesis
      using canonical_ipv4_text[OF v(2), of "''nw_'' @ d"]
      by (intro stable[OF reads_back_ip(1)[OF assms(2) v(2)]]) (simp add: networkMatch_MarshalText_def)
  next
    assume m: "m = arpProtocolAddressMatch d a"
    with assms(1) obtain v where v: "t = (if d = source then arpSPA else arpTPA) @ ''='' @ v" "canonical_ipv4 v"
      by (auto simp: arpProtocolAddressMatch_MarshalText_def split: if_splits elim: matchIPv4_canonical)
    then show ?thesis
      using canonical_ipv4_text[OF v(2)]
      by (intro stable[OF reads_back_ip(2)[OF assms(2) v(2)]]) (simp add: arpProtocolAddressMatch_MarshalText_def)
  qed
qed

lemma address_text_stable_witness:
  "\<exists>k v m'. ''nw_src=10.0.0.1'' = k @ ''='' @ v \<and> parseMatch k v = Inr (Some m') \<and>
     match_MarshalText m' = Inr ''nw_src=10.0.0.1''"
proof -
  have ip: "ipv4_string [10, 0, 0, 1] = ''10.0.0.1''" by (simp add: ipv4_string_def print_eval)
  have "match_MarshalText (networkMatch source ''10.0.0.1'') = Inr ''nw_src=10.0.0.1''"
    using canonical_ipv4_text[OF canonical_ipv4_string, of "[10, 0, 0, 1]" "''nw_'' @ source"]
    by (simp add: networkMatch_MarshalText_def ip)
  from address_text_stable[OF this, of source] show ?thesis by (simp add: canonical_srcdst_def)
qed

text \<open>
  The addresses of a tunnel are read as other matches: \<open>parseMatch\<close> makes of the text of \<open>TunnelSrc\<close> and
  \<open>TunnelDst\<close> the matches \<open>NetworkSource\<close> and \<open>NetworkDestination\<close>, which print with another
  key and select other packets.
\<close>

theorem tunnel_address_misread:
  assumes "canonical_ipv4 ip"
  shows "match_MarshalText (TunnelSrc ip) = Inr (tunSRC @ ''='' @ ip) \<and>
      parseMatch tunSRC ip = Inr (Some (NetworkSource ip)) \<and>
      match_MarshalText (NetworkSource ip) = Inr (nwSRC @ ''='' @ ip) \<and>
      match_MarshalText (TunnelDst ip) = Inr (tunDST @ ''='' @ ip) \<and>
      parseMatch tunDST ip = Inr (Some (NetworkDestination ip)) \<and>
      match_MarshalText (NetworkDestination ip) = Inr (nwDST @ ''='' @ ip)"
  using canonical_ipv4_text[OF assms]
  by (simp_all add: match_MarshalText_defs match_constructors)

lemma tunnel_address_misread_witness:
  "parseMatch tunSRC ''192.168.0.1'' = Inr (Some (NetworkSource ''192.168.0.1''))"
proof -
  have "ipv4_string [192, 168, 0, 1] = ''192.168.0.1''" by (simp add: ipv4_string_def print_eval)
  then have "canonical_ipv4 ''192.168.0.1''" using canonical_ipv4_string[of "[192, 168, 0, 1]"] by simp
  from tunnel_address_misread[OF this] show ?thesis by blast
qed

text \<open>
  The keys of the integer matches, with the largest number each may have and the match that is made of a number: one of
  8, 16 or 32 bits, or of a Go \<open>int\<close>.
\<close>

definition int_match_table :: "(string \<times> int \<times> (int \<Rightarrow> match)) list" where
  "int_match_table =
     [(icmpType, 255, \<lambda>i. ICMPType (word_of_int i)), (icmpCode, 255, \<lambda>i. ICMPCode (word_of_int i)),
      (icmp6Type, 255, \<lambda>i. ICMP6Type (word_of_int i)), (icmp6Code, 255, \<lambda>i. ICMP6Code (word_of_int i)),
      (nwProto, 255, \<lambda>i. NetworkProtocol (word_of_int i)),
      (ctZone, 65535, \<lambda>i. ConnectionTrackingZone (word_of_int i)),
      (conjID, 4294967295, \<lambda>i. ConjunctionID (word_of_int i)),
      (nwECN, 2147483647, NetworkECN), (nwTTL, 2147483647, NetworkTTL), (nwTOS, 2147483647, NetworkTOS),
      (tunTTL, 2147483647, TunnelTTL), (tunTOS, 2147483647, TunnelTOS), (tunGbpID, 2147483647, TunnelGBP),
      (tunGbpFlags, 2147483647, TunnelGbpFlags), (tunFlags, 2147483647, TunnelFlags),
      (inPort, 2147483647, InPortMatch)]"

text \<open>
  C40.  A number for one of the 16 keys of integer matches is rejected exactly when it is above the bound of the key.
  There is no lower bound: a negative number wraps around in the matches of 8, 16 and 32 bits, so that \<open>icmp_type=-1\<close>
  is read as 255, and stays negative in those of a Go \<open>int\<close>.
\<close>

theorem int_match_bounds:
  assumes "int_range i" and "(key, m, mk) \<in> set int_match_table"
  shows "parseMatch key (itoa i) = (if i > m then Inl (ErrIntegerTooLarge i m) else Inr (Some (mk i)))"
proof -
  have "parseClampInt (itoa i) b = (if i > b then Inl (ErrIntegerTooLarge i b) else Inr i)" for b
    using assms(1) by (simp add: parseClampInt_def Atoi_itoa)
  then have "list_all (\<lambda>(k, m, mk). parseMatch k (itoa i) =
      (if i > m then Inl (ErrIntegerTooLarge i m) else Inr (Some (mk i)))) int_match_table"
    by (simp add: int_match_table_def parseIntMatch_def found_def)
  with assms(2) show ?thesis by (auto simp: list_all_iff simp del: parseMatch_simps)
qed

lemma int_match_bounds_witness:
  "parseMatch icmpType ''-1'' = Inr (Some (ICMPType 255)) \<and> parseMatch icmpType ''256'' = Inl (ErrIntegerTooLarge 256 255) \<and>
   parseMatch nwTTL ''-1'' = Inr (Some (NetworkTTL (-1)))"
proof -
  have t: "itoa (-1) = ''-1''" "itoa 256 = ''256''" by (simp_all add: print_eval)
  have eq: "ICMPType (word_of_int (-1)) = ICMPType 255" by (rule arg_cong[where f = ICMPType]) simp
  have k: "(icmpType, 255, \<lambda>i. ICMPType (word_of_int i)) \<in> set int_match_table"
    "(nwTTL, 2147483647, NetworkTTL) \<in> set int_match_table"
    by (simp_all add: int_match_table_def)
  have "parseMatch icmpType (itoa (-1)) = Inr (Some (ICMPType (word_of_int (-1))))"
    using int_match_bounds[OF _ k(1), of "-1"] by (simp add: int_range_def del: parseMatch_simps)
  moreover have "parseMatch icmpType (itoa 256) = Inl (ErrIntegerTooLarge 256 255)"
    using int_match_bounds[OF _ k(1), of 256] by (simp add: int_range_def del: parseMatch_simps)
  moreover have "parseMatch nwTTL (itoa (-1)) = Inr (Some (NetworkTTL (-1)))"
    using int_match_bounds[OF _ k(2), of "-1"] by (simp add: int_range_def del: parseMatch_simps)
  ultimately show ?thesis unfolding t eq by (intro conjI)
qed

text \<open>
  A hexadecimal number for a match of 16 bits is read at 32 bits, and the upper half of it is cut off
  without an error.
\<close>

theorem hex_match_truncates:
  "parseMatch dlType (hex_lit n (w :: uint32)) = Inr (Some (DataLinkType (ucast w)))"
proof -
  have "ParseUint (hex_pad n w) 16 32 = Inr (unat w)" by (simp add: ParseUint_hex)
  moreover have "(word_of_nat (unat w) :: uint16) = ucast w" by (simp add: unsigned_ucast_eq)
  ultimately show ?thesis by (simp add: parseHexUint16_def)
qed

end
