(* ===== verification/Actions.thy ===== *)
theory Actions
  imports Matches
begin

text \<open>
  \<open>ovs/action.go\<close>: the actions of a flow and their texts, with the learned flow of
  \<open>ovs/flow.go\<close>, which is an argument of the action \<open>Learn\<close> and holds actions itself.  A Go
  struct that implements \<open>Action\<close> is a constructor of \<open>action\<close>.  The methods \<open>GoString\<close> are in
  theory \<open>GoString\<close>.
\<close>

section \<open>Names of actions\<close>

(* src: ovs/action.go const actionAll *)
abbreviation actionAll :: string where "actionAll \<equiv> ''all''"
(* src: ovs/action.go const actionDrop *)
abbreviation actionDrop :: string where "actionDrop \<equiv> ''drop''"
(* src: ovs/action.go const actionFlood *)
abbreviation actionFlood :: string where "actionFlood \<equiv> ''flood''"
(* src: ovs/action.go const actionInPort *)
abbreviation actionInPort :: string where "actionInPort \<equiv> ''in_port''"
(* src: ovs/action.go const actionLocal *)
abbreviation actionLocal :: string where "actionLocal \<equiv> ''local''"
(* src: ovs/action.go const actionNormal *)
abbreviation actionNormal :: string where "actionNormal \<equiv> ''normal''"
(* src: ovs/action.go const actionStripVLAN *)
abbreviation actionStripVLAN :: string where "actionStripVLAN \<equiv> ''strip_vlan''"

text \<open>The parts of the patterns before their first verb.\<close>

(* src: ovs/action.go const patModDataLinkDestination *)
abbreviation preModDataLinkDestination :: string where "preModDataLinkDestination \<equiv> ''mod_dl_dst:''"
(* src: ovs/action.go const patModDataLinkSource *)
abbreviation preModDataLinkSource :: string where "preModDataLinkSource \<equiv> ''mod_dl_src:''"
(* src: ovs/action.go const patModNetworkDestination *)
abbreviation preModNetworkDestination :: string where "preModNetworkDestination \<equiv> ''mod_nw_dst:''"
(* src: ovs/action.go const patModNetworkSource *)
abbreviation preModNetworkSource :: string where "preModNetworkSource \<equiv> ''mod_nw_src:''"
(* src: ovs/action.go const patModTransportDestinationPort *)
abbreviation preModTransportDestinationPort :: string where "preModTransportDestinationPort \<equiv> ''mod_tp_dst:''"
(* src: ovs/action.go const patModTransportSourcePort *)
abbreviation preModTransportSourcePort :: string where "preModTransportSourcePort \<equiv> ''mod_tp_src:''"
(* src: ovs/action.go const patModVLANVID *)
abbreviation preModVLANVID :: string where "preModVLANVID \<equiv> ''mod_vlan_vid:''"
(* src: ovs/action.go const patConjunction *)
abbreviation preConjunction :: string where "preConjunction \<equiv> ''conjunction(''"
(* src: ovs/action.go const patOutput *)
abbreviation preOutput :: string where "preOutput \<equiv> ''output:''"

text \<open>The values of the enumeration that tells \<open>SetField\<close> from \<open>Load\<close>.\<close>

(* src: ovs/action.go const actionSetField *)
definition actionSetField :: int where
  "actionSetField = 0"

(* src: ovs/action.go const actionLoad *)
definition actionLoad :: int where
  "actionLoad = 1"

section \<open>The actions\<close>

(* src: ovs/action.go type Action *)
datatype (plugins only: code size) action =
    textAction string
  | ctAction string
  | modDataLinkAction string hwaddr            \<comment> \<open>srcdst, addr\<close>
  | modNetworkAction string "octets option"    \<comment> \<open>srcdst, ip (None: nil)\<close>
  | modTransportPortAction string uint16       \<comment> \<open>srcdst, port\<close>
  | modVLANVIDAction int
  | outputAction int
  | outputFieldAction string
  | multipathAction string int string int int string
  | conjunctionAction int int int              \<comment> \<open>id, dimensionNumber, dimensionSize\<close>
  | resubmitAction int int                     \<comment> \<open>port, table\<close>
  | resubmitPortAction int
  | loadSetFieldAction string string int       \<comment> \<open>value, field, typ\<close>
  | setTunnelAction uint64
  | moveAction string string
  | learnAction "learned_flow option"          \<comment> \<open>None: nil\<close>
and learned_flow =
  LearnedFlow
    (LPriority: int) (LInPort: int) (LMatches: "match list") (LTable: int) (LIdleTimeout: int)
    (LCookie: uint64) (LActions: "action list") (DeleteLearned: bool) (FinHardTimeout: int)
    (HardTimeout: int) (Limit: int)

section \<open>Building an action\<close>

(* src: ovs/action.go func All *)
definition All :: "action" where
  "All = textAction actionAll"

(* src: ovs/action.go func Drop *)
definition Drop :: "action" where
  "Drop = textAction actionDrop"

(* src: ovs/action.go func Flood *)
definition Flood :: "action" where
  "Flood = textAction actionFlood"

(* src: ovs/action.go func InPort *)
definition InPort :: "action" where
  "InPort = textAction actionInPort"

(* src: ovs/action.go func Local *)
definition Local :: "action" where
  "Local = textAction actionLocal"

(* src: ovs/action.go func Normal *)
definition Normal :: "action" where
  "Normal = textAction actionNormal"

(* src: ovs/action.go func StripVLAN *)
definition StripVLAN :: "action" where
  "StripVLAN = textAction actionStripVLAN"

(* src: ovs/action.go func ConnectionTracking *)
definition ConnectionTracking :: "string \<Rightarrow> action" where
  "ConnectionTracking args = ctAction args"

(* src: ovs/action.go func ModDataLinkDestination *)
definition ModDataLinkDestination :: "hwaddr \<Rightarrow> action" where
  "ModDataLinkDestination addr = modDataLinkAction destination addr"

(* src: ovs/action.go func ModDataLinkSource *)
definition ModDataLinkSource :: "hwaddr \<Rightarrow> action" where
  "ModDataLinkSource addr = modDataLinkAction source addr"

(* src: ovs/action.go func ModNetworkDestination *)
definition ModNetworkDestination :: "octets \<Rightarrow> action" where
  "ModNetworkDestination ip = modNetworkAction destination (To4 ip)"

(* src: ovs/action.go func ModNetworkSource *)
definition ModNetworkSource :: "octets \<Rightarrow> action" where
  "ModNetworkSource ip = modNetworkAction source (To4 ip)"

(* src: ovs/action.go func ModTransportDestinationPort *)
definition ModTransportDestinationPort :: "uint16 \<Rightarrow> action" where
  "ModTransportDestinationPort port = modTransportPortAction destination port"

(* src: ovs/action.go func ModTransportSourcePort *)
definition ModTransportSourcePort :: "uint16 \<Rightarrow> action" where
  "ModTransportSourcePort port = modTransportPortAction source port"

(* src: ovs/action.go func ModVLANVID *)
definition ModVLANVID :: "int \<Rightarrow> action" where
  "ModVLANVID vid = modVLANVIDAction vid"

(* src: ovs/action.go func Output *)
definition Output :: "int \<Rightarrow> action" where
  "Output port = outputAction port"

(* src: ovs/action.go func OutputField *)
definition OutputField :: "string \<Rightarrow> action" where
  "OutputField field = outputFieldAction field"

(* src: ovs/action.go func Multipath *)
definition Multipath :: "string \<Rightarrow> int \<Rightarrow> string \<Rightarrow> int \<Rightarrow> int \<Rightarrow> string \<Rightarrow> action" where
  "Multipath flds basis algorithm nlinks arg dst = multipathAction flds basis algorithm nlinks arg dst"

(* src: ovs/action.go func Conjunction *)
definition Conjunction :: "int \<Rightarrow> int \<Rightarrow> int \<Rightarrow> action" where
  "Conjunction i dimensionNumber dimensionSize = conjunctionAction i dimensionNumber dimensionSize"

(* src: ovs/action.go func Resubmit *)
definition Resubmit :: "int \<Rightarrow> int \<Rightarrow> action" where
  "Resubmit port table = resubmitAction port table"

(* src: ovs/action.go func ResubmitPort *)
definition ResubmitPort :: "int \<Rightarrow> action" where
  "ResubmitPort port = resubmitPortAction port"

(* src: ovs/action.go func SetField *)
definition SetField :: "string \<Rightarrow> string \<Rightarrow> action" where
  "SetField value field = loadSetFieldAction value field actionSetField"

(* src: ovs/action.go func Load *)
definition Load :: "string \<Rightarrow> string \<Rightarrow> action" where
  "Load value field = loadSetFieldAction value field actionLoad"

(* src: ovs/action.go func SetTunnel *)
definition SetTunnel :: "uint64 \<Rightarrow> action" where
  "SetTunnel tunnelID = setTunnelAction tunnelID"

(* src: ovs/action.go func Move *)
definition Move :: "string \<Rightarrow> string \<Rightarrow> action" where
  "Move src dst = moveAction src dst"

(* src: ovs/action.go func Learn *)
definition Learn :: "learned_flow option \<Rightarrow> action" where
  "Learn learned = learnAction learned"

section \<open>MarshalText\<close>

(* src: ovs/action.go func textAction.MarshalText *)
definition textAction_MarshalText :: "string \<Rightarrow> string result" where
  "textAction_MarshalText a = Inr a"

(* src: ovs/action.go func ctAction.MarshalText *)
definition ctAction_MarshalText :: "string \<Rightarrow> string result" where
  "ctAction_MarshalText args =
     (if args = [] then Inl errCTNoArguments else Inr (''ct('' @ args @ '')''))"

(* src: ovs/action.go func modDataLinkAction.MarshalText *)
definition modDataLinkAction_MarshalText :: "string \<Rightarrow> hwaddr \<Rightarrow> string result" where
  "modDataLinkAction_MarshalText srcdst addr =
     (if length addr \<noteq> ethernetAddrLen then Inl (ErrHardwareAddressLength (length addr))
      else if srcdst = source then Inr (preModDataLinkSource @ mac_string addr)
      else Inr (preModDataLinkDestination @ mac_string addr))"

(* src: ovs/action.go func modNetworkAction.MarshalText *)
definition modNetworkAction_MarshalText :: "string \<Rightarrow> octets option \<Rightarrow> string result" where
  "modNetworkAction_MarshalText srcdst ip =
     (case ip of
        None \<Rightarrow> Inl ErrInvalidModNetwork
      | Some a \<Rightarrow>
          if srcdst = source then Inr (preModNetworkSource @ ip_string a)
          else Inr (preModNetworkDestination @ ip_string a))"

(* src: ovs/action.go func modTransportPortAction.MarshalText *)
definition modTransportPortAction_MarshalText :: "string \<Rightarrow> uint16 \<Rightarrow> string result" where
  "modTransportPortAction_MarshalText srcdst port =
     (if srcdst = source then Inr (preModTransportSourcePort @ dec port)
      else Inr (preModTransportDestinationPort @ dec port))"

(* src: ovs/action.go func modVLANVIDAction.MarshalText *)
definition modVLANVIDAction_MarshalText :: "int \<Rightarrow> string result" where
  "modVLANVIDAction_MarshalText vid =
     (if \<not> validVLANVID vid then Inl errInvalidVLANVID else Inr (preModVLANVID @ itoa vid))"

(* src: ovs/action.go func outputAction.MarshalText *)
definition outputAction_MarshalText :: "int \<Rightarrow> string result" where
  "outputAction_MarshalText port =
     (if port < 0 then Inl errOutputNegativePort else Inr (preOutput @ itoa port))"

(* src: ovs/action.go func outputFieldAction.MarshalText *)
definition outputFieldAction_MarshalText :: "string \<Rightarrow> string result" where
  "outputFieldAction_MarshalText field =
     (if field = [] then Inl errOutputFieldEmpty else Inr (''output:'' @ field))"

(* src: ovs/action.go func multipathAction.MarshalText *)
definition multipathAction_MarshalText ::
    "string \<Rightarrow> int \<Rightarrow> string \<Rightarrow> int \<Rightarrow> int \<Rightarrow> string \<Rightarrow> string result" where
  "multipathAction_MarshalText flds basis algorithm nlinks arg dst =
     Inr (''multipath('' @ flds @ '','' @ itoa basis @ '','' @ algorithm @ '','' @ itoa nlinks @ '','' @
          itoa arg @ '','' @ dst @ '')'')"

(* src: ovs/action.go func conjunctionAction.MarshalText *)
definition conjunctionAction_MarshalText :: "int \<Rightarrow> int \<Rightarrow> int \<Rightarrow> string result" where
  "conjunctionAction_MarshalText i dimensionNumber dimensionSize =
     (if dimensionNumber > dimensionSize then Inl errDimensionTooLarge
      else Inr (preConjunction @ itoa i @ '','' @ itoa dimensionNumber @ ''/'' @ itoa dimensionSize @ '')''))"

(* src: ovs/action.go func resubmitPortAction.MarshalText *)
definition resubmitPortAction_MarshalText :: "int \<Rightarrow> string result" where
  "resubmitPortAction_MarshalText port =
     (if port < 0 \<or> port > 0xfffffeff then Inl errResubmitPortInvalid
      else Inr (''resubmit:'' @ itoa port))"

(* src: ovs/action.go func resubmitAction.MarshalText *)
definition resubmitAction_MarshalText :: "int \<Rightarrow> int \<Rightarrow> string result" where
  "resubmitAction_MarshalText port table =
     (if port = 0 \<and> table = 0 then Inl errResubmitPortTableZero
      else
        (let p = (if port \<noteq> 0 then itoa port else []);
             t = (if table \<noteq> 0 then itoa table else [])
         in Inr (''resubmit('' @ p @ '','' @ t @ '')'')))"

(* src: ovs/action.go func loadSetFieldAction.MarshalText *)
definition loadSetFieldAction_MarshalText :: "string \<Rightarrow> string \<Rightarrow> int \<Rightarrow> string result" where
  "loadSetFieldAction_MarshalText value field typ =
     (if value = [] \<or> field = [] then Inl errLoadSetFieldZero
      else if typ = actionLoad then Inr (''load:'' @ value @ ''->'' @ field)
      else Inr (''set_field:'' @ value @ ''->'' @ field))"

(* src: ovs/action.go func setTunnelAction.MarshalText *)
definition setTunnelAction_MarshalText :: "uint64 \<Rightarrow> string result" where
  "setTunnelAction_MarshalText tunnelID = Inr (''set_tunnel:'' @ hex_sharp tunnelID)"

(* src: ovs/action.go func moveAction.MarshalText *)
definition moveAction_MarshalText :: "string \<Rightarrow> string \<Rightarrow> string result" where
  "moveAction_MarshalText src dst =
     (if src = [] \<or> dst = [] then Inl errMoveEmpty else Inr (''move:'' @ src @ ''->'' @ dst))"

section \<open>Learned flows\<close>

(* src: ovs/flow.go const PortLOCAL *)
definition PortLOCAL :: int where
  "PortLOCAL = -1"

(* src: ovs/flow.go func paddedHexUint64 *)
definition paddedHexUint64 :: "uint64 \<Rightarrow> string" where
  "paddedHexUint64 i = hex_lit 16 i"

(* src: ovs/flow.go func marshalMatches *)
definition marshalMatches :: "match list \<Rightarrow> string list result" where
  "marshalMatches mm = mapR match_MarshalText mm"

text \<open>The loop of the learned flow over its actions, which allows two kinds of them.\<close>

(* src: ovs/flow.go 218-228 LearnedFlow.MarshalText: the loop over the actions *)
fun learnable :: "action \<Rightarrow> bool" where
  "learnable (loadSetFieldAction value field typ) = (typ = actionLoad)"
| "learnable (outputFieldAction field) = True"
| "learnable _ = False"

text \<open>The text of the options that follow the matches of a learned flow, in the order of the code.\<close>

(* src: ovs/flow.go 240-291 LearnedFlow.MarshalText: the buffer *)
definition learned_text :: "learned_flow \<Rightarrow> string list \<Rightarrow> string list \<Rightarrow> string" where
  "learned_text f matches actions =
     ''priority='' @ itoa (LPriority f) @
     (if LInPort f \<noteq> 0 then
        '',in_port='' @ (if LInPort f = PortLOCAL then ''LOCAL'' else itoa (LInPort f))
      else []) @
     (if matches \<noteq> [] then '','' @ join '','' matches else []) @
     '',table='' @ itoa (LTable f) @
     '',idle_timeout='' @ itoa (LIdleTimeout f) @
     '',fin_hard_timeout='' @ itoa (FinHardTimeout f) @
     '',hard_timeout='' @ itoa (HardTimeout f) @
     (if Limit f > 0 then '',limit='' @ itoa (Limit f) else []) @
     (if DeleteLearned f then '',delete_learned'' else []) @
     (if LCookie f > 0 then '',cookie='' @ paddedHexUint64 (LCookie f) else []) @
     '','' @ join '','' actions"

lemma mapR_cong [fundef_cong]:
  "xs = ys \<Longrightarrow> (\<And>x. x \<in> set ys \<Longrightarrow> f x = g x) \<Longrightarrow> mapR f xs = mapR g ys"
  by (induction xs arbitrary: ys) (auto split: sum.splits)

lemma learned_size: "x \<in> set (LActions l) \<Longrightarrow> size x < size l"
  by (cases l) (auto simp: less_Suc_eq_le intro!: trans_le_add1 size_list_estimation' [of x])

text \<open>
  \<open>LearnedFlow.MarshalText\<close> up to the buffer; the argument is the method of the actions.
\<close>

(* src: ovs/flow.go 209-238 LearnedFlow.MarshalText: to the buffer *)
definition learned_marshal :: "(action \<Rightarrow> string result) \<Rightarrow> learned_flow \<Rightarrow> string result" where
  "learned_marshal marshal f =
     (if LActions f = [] then Inl (FlowError [] errNoActions)
      else if \<not> list_all learnable (LActions f) then Inl errInvalidLearnedActions
      else
        (case mapR marshal (LActions f) of
           Inl err \<Rightarrow> Inl err
         | Inr actions \<Rightarrow>
             (case marshalMatches (LMatches f) of
                Inl err \<Rightarrow> Inl err
              | Inr matches \<Rightarrow> Inr (learned_text f matches actions))))"

lemma learned_marshal_cong [fundef_cong]:
  "f = g \<Longrightarrow> (\<And>a. a \<in> set (LActions g) \<Longrightarrow> m a = m' a) \<Longrightarrow> learned_marshal m f = learned_marshal m' g"
  unfolding learned_marshal_def using mapR_cong[of "LActions f" "LActions g" m m'] by clarsimp

text \<open>
  The method call through the interface, \<open>learnAction.MarshalText\<close> with it, and
  \<open>LearnedFlow.MarshalText\<close>.
\<close>

(* src: ovs/action.go func learnAction.MarshalText *)
function (sequential) action_MarshalText :: "action \<Rightarrow> string result"
  and LearnedFlow_MarshalText :: "learned_flow \<Rightarrow> string result" where
  "action_MarshalText (learnAction learned) =
     (case learned of
        None \<Rightarrow> Inl errLearnedNil
      | Some f \<Rightarrow>
          (case LearnedFlow_MarshalText f of
             Inl err \<Rightarrow> Inl err
           | Inr l \<Rightarrow> Inr (''learn('' @ l @ '')'')))"
| "action_MarshalText (textAction a) = textAction_MarshalText a"
| "action_MarshalText (ctAction args) = ctAction_MarshalText args"
| "action_MarshalText (modDataLinkAction srcdst addr) = modDataLinkAction_MarshalText srcdst addr"
| "action_MarshalText (modNetworkAction srcdst ip) = modNetworkAction_MarshalText srcdst ip"
| "action_MarshalText (modTransportPortAction srcdst port) = modTransportPortAction_MarshalText srcdst port"
| "action_MarshalText (modVLANVIDAction vid) = modVLANVIDAction_MarshalText vid"
| "action_MarshalText (outputAction port) = outputAction_MarshalText port"
| "action_MarshalText (outputFieldAction field) = outputFieldAction_MarshalText field"
| "action_MarshalText (multipathAction flds basis algorithm nlinks arg dst) =
     multipathAction_MarshalText flds basis algorithm nlinks arg dst"
| "action_MarshalText (conjunctionAction i n s) = conjunctionAction_MarshalText i n s"
| "action_MarshalText (resubmitAction port table) = resubmitAction_MarshalText port table"
| "action_MarshalText (resubmitPortAction port) = resubmitPortAction_MarshalText port"
| "action_MarshalText (loadSetFieldAction value field typ) = loadSetFieldAction_MarshalText value field typ"
| "action_MarshalText (setTunnelAction tunnelID) = setTunnelAction_MarshalText tunnelID"
| "action_MarshalText (moveAction src dst) = moveAction_MarshalText src dst"
| "LearnedFlow_MarshalText f = learned_marshal action_MarshalText f"
  by pat_completeness auto
termination
  by (relation "measure (case_sum size size)") (auto simp: learned_size)

declare LearnedFlow_MarshalText.simps [simp del]

(* src: ovs/flow.go func marshalActions *)
definition marshalActions :: "action list \<Rightarrow> string list result" where
  "marshalActions aa = mapR action_MarshalText aa"

lemmas action_MarshalText_defs =
  textAction_MarshalText_def ctAction_MarshalText_def modDataLinkAction_MarshalText_def
  modNetworkAction_MarshalText_def modTransportPortAction_MarshalText_def
  modVLANVIDAction_MarshalText_def outputAction_MarshalText_def outputFieldAction_MarshalText_def
  multipathAction_MarshalText_def conjunctionAction_MarshalText_def
  resubmitPortAction_MarshalText_def resubmitAction_MarshalText_def
  loadSetFieldAction_MarshalText_def setTunnelAction_MarshalText_def moveAction_MarshalText_def

end
