(* ===== verification/GoScan.thy ===== *)
theory GoScan
  imports GoNumbers
begin

text \<open>
  Packages \<open>regexp\<close> and \<open>fmt\<close> (its scanning half) as far as the code uses them: the patterns
  of the repository are sequences of literals and of repetitions of a class of characters, and the formats
  of its \<open>Sscanf\<close> calls are literals, \<open>%s\<close> and \<open>%d\<close>.
\<close>

section \<open>Regular expressions\<close>

text \<open>
  An item of a pattern: a literal, or a captured repetition \<open>(class*)\<close>, \<open>(class+)\<close> with its
  least number of characters.  The classes (\<open>\d\<close>, \<open>\S\<close>) tell ASCII characters apart and take
  every other one or none, and the literals are ASCII, so that a match over bytes is a match over
  runes.
\<close>

datatype (plugins only: code size) re_item = Lit string | Rep "char \<Rightarrow> bool" nat

definition not_space :: "char \<Rightarrow> bool" where
  "not_space c \<longleftrightarrow> c \<notin> {CHR 0x09, CHR 0x0A, CHR 0x0C, CHR 0x0D, CHR '' ''}"

fun first_some :: "('a \<Rightarrow> 'b option) \<Rightarrow> 'a list \<Rightarrow> 'b option" where
  "first_some f [] = None"
| "first_some f (x # xs) = (case f x of None \<Rightarrow> first_some f xs | Some y \<Rightarrow> Some y)"

text \<open>
  The captures of a match at the head of the string; of the repetitions the longest first, as
  the leftmost-first semantics of package \<open>regexp\<close> has it.
\<close>

primrec re_match :: "re_item list \<Rightarrow> string \<Rightarrow> string list option" where
  "re_match [] = (\<lambda>s. Some [])"
| "re_match (i # is) =
     (\<lambda>s. case i of
        Lit l \<Rightarrow> if prefix l s then re_match is (drop (length l) s) else None
      | Rep p n \<Rightarrow>
          first_some (\<lambda>k. map_option (\<lambda>cs. take k s # cs) (re_match is (drop k s)))
            (rev [n..<Suc (length (takeWhile p s))]))"

text \<open>
  \<open>FindAllStringSubmatch\<close>: the captures of the leftmost match, without the match itself.
\<close>

fun re_find :: "re_item list \<Rightarrow> string \<Rightarrow> string list option" where
  "re_find r [] = re_match r []"
| "re_find r (c # s) =
     (case re_match r (c # s) of None \<Rightarrow> re_find r s | Some cs \<Rightarrow> Some cs)"

lemma first_some_None: "first_some f xs = None \<longleftrightarrow> (\<forall>x \<in> set xs. f x = None)"
  by (induction xs) (auto split: option.splits)

lemma re_match_Lit_sublist: "re_match (Lit l # is) s \<noteq> None \<Longrightarrow> prefix l s"
  by (auto split: if_splits)

lemma re_find_sublist: "re_find (Lit l # is) s = Some cs \<Longrightarrow> sublist l s"
  by (induction s) (auto simp: sublist_Cons_right split: if_splits option.splits simp del: re_match.simps(1))

lemma re_find_None: "\<not> sublist l s \<Longrightarrow> re_find (Lit l # is) s = None"
  using re_find_sublist by (metis not_Some_eq)

lemma re_find_prefix: "re_match r s = Some cs \<Longrightarrow> re_find r s = Some cs"
  by (cases s) auto

declare re_find.simps [simp del]

text \<open>A repetition followed by a character outside its class takes all there is.\<close>

lemma re_match_Rep_delim:
  assumes "\<forall>c \<in> set u. p c" and "n \<le> length u" and "\<not> p d"
    and "re_match is (d # s) = Some cs"
  shows "re_match (Rep p n # is) (u @ d # s) = Some (u # cs)"
proof -
  have "takeWhile p (u @ d # s) = u" using assms(1,3) by (simp add: takeWhile_append2)
  then show ?thesis using assms(2,4) by simp
qed

lemma re_match_Rep_end:
  assumes "\<forall>c \<in> set u. p c" and "n \<le> length u"
  shows "re_match [Rep p n] u = Some [u]"
proof -
  have "takeWhile p u = u" using assms(1) by (simp add: takeWhile_eq_all_conv)
  from arg_cong[OF this, of length] show ?thesis using assms(2) by simp
qed

text \<open>
  A greedy repetition before a literal ends at the last place where the literal and what follows
  match.
\<close>

lemma first_some_append: "first_some f (xs @ ys) = (case first_some f xs of None \<Rightarrow> first_some f ys | Some y \<Rightarrow> Some y)"
  by (induction xs) (auto split: option.splits)

lemma re_match_Rep_greedy:
  assumes all: "\<forall>c \<in> set s. p c" and k: "n \<le> k" "k \<le> length s"
    and hit: "re_match is (drop k s) = Some cs"
    and last: "\<And>j. k < j \<Longrightarrow> j \<le> length s \<Longrightarrow> re_match is (drop j s) = None"
  shows "re_match (Rep p n # is) s = Some (take k s # cs)"
proof -
  let ?f = "\<lambda>k. map_option (\<lambda>cs. take k s # cs) (re_match is (drop k s))"
  have tw: "takeWhile p s = s" using all by (simp add: takeWhile_eq_all_conv)
  have "[n..<Suc (length s)] = [n..<k] @ k # [Suc k..<Suc (length s)]"
    using k upt_add_eq_append[of n k "Suc (length s) - k"] by (simp add: upt_conv_Cons del: upt_Suc)
  then have r: "rev [n..<Suc (length s)] = rev [Suc k..<Suc (length s)] @ k # rev [n..<k]"
    by (simp del: upt_Suc)
  have none: "first_some ?f (rev [Suc k..<Suc (length s)]) = None"
    using last unfolding first_some_None set_rev set_upt
    by (metis atLeastLessThan_iff less_Suc_eq_le map_option_is_None Suc_le_eq)
  show ?thesis
    by (simp add: tw r none hit first_some_append del: upt_Suc takeWhile_eq_all_conv)
qed

section \<open>Sscanf\<close>

text \<open>
  \<open>SkipSpace\<close>: white space before an operand is skipped, a newline is an error, with a carriage return
  before it or not.  What is left is not empty, for at the end of the input the verbs give \<open>io.EOF\<close>.
\<close>

function skip_space :: "string \<Rightarrow> string result" where
  "skip_space [] = Inl EOF"
| "skip_space (c # s) =
     (if c = CHR 0x0D \<and> s \<noteq> [] \<and> hd s = CHR 0x0A then skip_space s
      else if c = CHR 0x0A then Inl (ErrScan (c # s))
      else if space_len (c # s) = 0 then Inr (c # s)
      else skip_space (drop (space_len (c # s) - 1) s))"
  by pat_completeness auto
termination
  by (relation "measure length") auto

text \<open>The token of \<open>%s\<close>: the runes up to the next white space, as \<open>WriteRune\<close> writes them.\<close>

function scan_word :: "string \<Rightarrow> string \<times> string" where
  "scan_word s =
     (if space_len s > 0 then ([], s)
      else (case read_rune s of
              None \<Rightarrow> ([], [])
            | Some (r, t) \<Rightarrow> (let (w, u) = scan_word t in (r @ w, u))))"
  by pat_completeness auto
termination
  by (relation "measure length") (auto dest: read_rune_shrinks)

declare scan_word.simps [simp del]

text \<open>The digits of a token of \<open>%d\<close>; there must be one.\<close>

definition scan_number :: "string \<Rightarrow> (string \<times> string) result" where
  "scan_number s =
     (if s = [] then Inl EOF
      else if takeWhile is_digit s = [] then Inl (ErrScan s)
      else Inr (takeWhile is_digit s, dropWhile is_digit s))"

definition scan_int :: "nat \<Rightarrow> string \<Rightarrow> (int \<times> string) result" where
  "scan_int bits s =
     (let sign = (if s \<noteq> [] \<and> (hd s = CHR ''+'' \<or> hd s = CHR ''-'') then [hd s] else []) in
      case scan_number (drop (length sign) s) of
        Inl e \<Rightarrow> Inl e
      | Inr (tok, t) \<Rightarrow>
          (case num_result (sign @ tok) (parse_int (sign @ tok) 10 64) of
             Inl e \<Rightarrow> Inl e
           | Inr i \<Rightarrow>
               if - (2 ^ (bits - 1)) \<le> i \<and> i < 2 ^ (bits - 1) then Inr (i, t) else Inl (ErrScan s)))"

definition scan_uint :: "nat \<Rightarrow> string \<Rightarrow> (int \<times> string) result" where
  "scan_uint bits s =
     (case scan_number s of
        Inl e \<Rightarrow> Inl e
      | Inr (tok, t) \<Rightarrow>
          (case num_result tok (parse_uint tok 10 64) of
             Inl e \<Rightarrow> Inl e
           | Inr n \<Rightarrow> if n < 2 ^ bits then Inr (int n, t) else Inl (ErrScan s)))"

text \<open>A literal: the input must go on with it; the end of the input is an error of its own.\<close>

fun scan_lit :: "string \<Rightarrow> string \<Rightarrow> string result" where
  "scan_lit [] s = Inr s"
| "scan_lit (c # l) [] = Inl ErrUnexpectedEOF"
| "scan_lit (c # l) (d # s) = (if c = d then scan_lit l s else Inl (ErrScan (d # s)))"

text \<open>
  The formats of \<open>fmt.Sscanf\<close> in the code: a literal and \<open>%s\<close> or \<open>%d\<close>, once or several times.
  Input after the last item of a format is ignored.
\<close>

definition scan_lit_string :: "string \<Rightarrow> string \<Rightarrow> (string \<times> string) result" where
  "scan_lit_string l s =
     (case scan_lit l s of
        Inl e \<Rightarrow> Inl e
      | Inr t \<Rightarrow> (case skip_space t of Inl e \<Rightarrow> Inl e | Inr u \<Rightarrow> Inr (scan_word u)))"

definition scan_lit_int :: "nat \<Rightarrow> string \<Rightarrow> string \<Rightarrow> (int \<times> string) result" where
  "scan_lit_int bits l s =
     (case scan_lit l s of
        Inl e \<Rightarrow> Inl e
      | Inr t \<Rightarrow> (case skip_space t of Inl e \<Rightarrow> Inl e | Inr u \<Rightarrow> scan_int bits u))"

definition scan_lit_uint :: "nat \<Rightarrow> string \<Rightarrow> string \<Rightarrow> (int \<times> string) result" where
  "scan_lit_uint bits l s =
     (case scan_lit l s of
        Inl e \<Rightarrow> Inl e
      | Inr t \<Rightarrow> (case skip_space t of Inl e \<Rightarrow> Inl e | Inr u \<Rightarrow> scan_uint bits u))"

text \<open>What was printed is scanned.\<close>

lemma scan_lit_append [simp]: "scan_lit l (l @ s) = Inr s"
  by (induction l) auto

lemma scan_lit_self [simp]: "scan_lit l l = Inr []"
  using scan_lit_append[of l "[]"] by simp

lemma skip_space_word:
  assumes "space_len (c # s) = 0"
  shows "skip_space (c # s) = Inr (c # s)"
proof -
  have sp: "space_len (d # s) \<noteq> 0" if "byte d = 13 \<or> byte d = 10" for d
    using that by (auto simp: ascii_space_def)
  have "c \<noteq> CHR 0x0D" "c \<noteq> CHR 0x0A"
    using assms sp[of "CHR 0x0D"] sp[of "CHR 0x0A"] by (auto simp: byte_def)
  with assms show ?thesis by simp
qed

lemma scan_word_plain:
  assumes "\<forall>c \<in> set s. byte c < 128 \<and> \<not> ascii_space c"
  shows "scan_word s = (s, [])"
  using assms
proof (induction s)
  case Nil
  then show ?case by (subst scan_word.simps) simp
next
  case (Cons c s)
  then show ?case by (subst scan_word.simps) simp
qed

lemma digit_plain: "is_digit c \<Longrightarrow> byte c < 128 \<and> \<not> ascii_space c"
  by (auto simp: is_digit_def ascii_space_def byte_def)

lemma takeWhile_digits:
  assumes "\<forall>c \<in> set u. is_digit c" and "s = [] \<or> \<not> is_digit (hd s)"
  shows "takeWhile is_digit (u @ s) = u" "dropWhile is_digit (u @ s) = s"
  using assms by (induction u; cases s; auto)+

lemma scan_number_digits:
  assumes "\<forall>c \<in> set u. is_digit c" and "u \<noteq> []" and "s = [] \<or> \<not> is_digit (hd s)"
  shows "scan_number (u @ s) = Inr (u, s)"
  using assms takeWhile_digits[OF assms(1,3)] by (simp add: scan_number_def)

lemma fmt_nat_10_digits: "\<forall>c \<in> set (fmt_nat 10 n). is_digit c"
  by (auto simp: is_digit_def dest!: fmt_nat_chars)

lemma scan_int_itoa:
  assumes "int_range i" and "s = [] \<or> \<not> is_digit (hd s)"
  shows "scan_int 64 (itoa i @ s) = Inr (i, s)"
proof -
  have A: "parse_int (itoa i) 10 64 = Inr i"
    using Atoi_itoa[OF assms(1)]
    by (auto simp: Atoi_def num_result_def split: sum.splits num_error.splits)
  have h: "hd (fmt_nat 10 n @ t) = hd (fmt_nat 10 n)" for n t by simp
  show ?thesis
  proof (cases "i < 0")
    case True
    with A assms show ?thesis
      by (simp add: scan_int_def itoa_def num_result_def scan_number_digits[OF fmt_nat_10_digits]
          int_range_def)
  next
    case False
    with A assms show ?thesis
      by (simp add: scan_int_def itoa_def num_result_def scan_number_digits[OF fmt_nat_10_digits]
          int_range_def h)
  qed
qed

lemma skip_space_itoa [simp]: "skip_space (itoa i @ s) = Inr (itoa i @ s)"
proof -
  obtain c t where it: "itoa i = c # t" by (cases "itoa i") auto
  have "\<forall>d \<in> set (itoa i). d = CHR ''-'' \<or> is_digit d"
    using fmt_nat_10_digits by (auto simp: itoa_def)
  with it have ct: "itoa i @ s = c # t @ s" and "c = CHR ''-'' \<or> is_digit c" by auto
  then have "byte c < 128 \<and> \<not> ascii_space c"
    using digit_plain by (auto simp: ascii_space_def byte_def)
  then have "space_len (c # t @ s) = 0" by simp
  then show ?thesis unfolding ct by (rule skip_space_word)
qed

lemma scan_uint_dec:
  assumes "LENGTH('a) \<le> bits" and "bits \<le> 64"
  shows "scan_uint bits (dec (w :: 'a::len word)) = Inr (uint w, [])"
proof -
  have "scan_number (dec w) = Inr (dec w, [])"
    using scan_number_digits[of "dec w" "[]"] fmt_nat_10_digits by (simp add: dec_def)
  moreover have "parse_uint (dec w) 10 64 = Inr (unat w)"
    using ParseUint_dec[of 64 w] assms
    by (auto simp: ParseUint_def num_result_def split: sum.splits num_error.splits)
  moreover have "unat w < 2 ^ bits"
    using order_less_le_trans[OF unsigned_less[of w, where ?'a = nat] power_increasing[OF assms(1)]]
    by simp
  ultimately show ?thesis by (simp add: scan_uint_def num_result_def)
qed

lemma skip_space_dec [simp]: "skip_space (dec w @ s) = Inr (dec w @ s)"
  using skip_space_itoa[of "int (unat w)" s] by (simp add: itoa_def dec_def)

lemma scan_lit_int_itoa:
  assumes "int_range i" and "s = [] \<or> \<not> is_digit (hd s)"
  shows "scan_lit_int 64 l (l @ itoa i @ s) = Inr (i, s)"
  using assms by (simp add: scan_lit_int_def scan_int_itoa)

lemma scan_lit_uint_dec:
  assumes "LENGTH('a) \<le> bits" and "bits \<le> 64"
  shows "scan_lit_uint bits l (l @ dec (w :: 'a::len word)) = Inr (uint w, [])"
  using assms skip_space_dec[of w "[]"] by (simp add: scan_lit_uint_def scan_uint_dec)

lemma scan_lit_string_plain:
  assumes "\<forall>c \<in> set s. byte c < 128 \<and> \<not> ascii_space c" and "s \<noteq> []"
  shows "scan_lit_string l (l @ s) = Inr (s, [])"
proof -
  from assms obtain c t where s: "s = c # t" by (cases s) auto
  with assms(1) have "space_len (c # t) = 0" by simp
  then have "skip_space s = Inr s" unfolding s by (rule skip_space_word)
  with assms(1) show ?thesis by (simp add: scan_lit_string_def scan_word_plain)
qed

end
