(* ===== verification/ActionParser.thy ===== *)
theory ActionParser
  imports Actions GoScan
begin

text \<open>
  \<open>ovs/actionparser.go\<close>: splitting the text of a list of actions at the commas outside
  parentheses, and reading one action.  The reader of the parser is the rest of its input.  A rune
  0 stands for the end of the input, as in the code, so that a NUL byte ends the
  list.  The stack has no values, so it is its length; taking from the empty stack panics.  The
  parser with its state is in theory \<open>ActionReader\<close>.
\<close>

section \<open>One action\<close>

(* src: ovs/actionparser.go 147-149 resubmitRe *)
definition resubmitRe :: "re_item list" where
  "resubmitRe = [Lit ''resubmit('', Rep is_digit 0, Lit '','', Rep is_digit 0, Lit '')'']"

(* src: ovs/actionparser.go 151-153 resubmitPortRe *)
definition resubmitPortRe :: "re_item list" where
  "resubmitPortRe = [Lit ''resubmit:'', Rep is_digit 1]"

(* src: ovs/actionparser.go 155-157 ctRe *)
definition ctRe :: "re_item list" where
  "ctRe = [Lit ''ct('', Rep not_space 1, Lit '')'']"

(* src: ovs/actionparser.go 159-161 loadRe *)
definition loadRe :: "re_item list" where
  "loadRe = [Lit ''load:'', Rep not_space 1, Lit ''->'', Rep not_space 1]"

(* src: ovs/actionparser.go 163-165 moveRe *)
definition moveRe :: "re_item list" where
  "moveRe = [Lit ''move:'', Rep not_space 1, Lit ''->'', Rep not_space 1]"

(* src: ovs/actionparser.go 167-169 setFieldRe *)
definition setFieldRe :: "re_item list" where
  "setFieldRe = [Lit ''set_field:'', Rep not_space 1, Lit ''->'', Rep not_space 1]"

text \<open>
  \<open>strings.ToLower\<close> for a comparison with an ASCII string: two runes outside ASCII have a lower-case
  letter in ASCII, \<open>U+0130\<close> and \<open>U+212A\<close>; the others stay outside ASCII.
\<close>

function to_lower :: "string \<Rightarrow> string" where
  "to_lower [] = []"
| "to_lower (c # s) =
     (if c = CHR 0xC4 \<and> s \<noteq> [] \<and> hd s = CHR 0xB0 then CHR ''i'' # to_lower (tl s)
      else if c = CHR 0xE2 \<and> length s \<ge> 2 \<and> s ! 0 = CHR 0x84 \<and> s ! 1 = CHR 0xAA
           then CHR ''k'' # to_lower (drop 2 s)
      else to_lower_char c # to_lower s)"
  by pat_completeness auto
termination
  by (relation "measure length") auto

text \<open>The actions that are a name alone.\<close>

(* src: ovs/actionparser.go 176-190 parseAction: the first switch *)
definition simple_action :: "string \<Rightarrow> action option" where
  "simple_action s =
     (let l = to_lower s in
      if l = actionDrop then Some Drop
      else if l = actionFlood then Some Flood
      else if l = actionInPort then Some InPort
      else if l = actionLocal then Some Local
      else if l = actionNormal then Some Normal
      else if l = actionStripVLAN then Some StripVLAN
      else None)"

text \<open>The two operands of a pattern with an arrow.\<close>

definition arrow_args :: "(string \<Rightarrow> string \<Rightarrow> action) \<Rightarrow> string list \<Rightarrow> action" where
  "arrow_args f cs = f (cs ! 0) (cs ! 1)"

text \<open>An operand of \<open>resubmit\<close>, empty for 0.\<close>

(* src: ovs/actionparser.go 342-347 parseAction: the operands of resubmit *)
definition resubmit_operand :: "string \<Rightarrow> int result" where
  "resubmit_operand s = (if s \<noteq> [] then Atoi s else Inr 0)"

text \<open>
  \<open>net.ParseIP(ip).To4()\<close> and the error where it is nil; \<open>f\<close> makes the action.
\<close>

(* src: ovs/actionparser.go 242-247 parseAction: the operand of mod_nw_dst *)
definition parse_ip4 :: "(octets \<Rightarrow> action) \<Rightarrow> string \<Rightarrow> action result" where
  "parse_ip4 f ip =
     (case Option.bind (ParseIP ip) To4 of
        None \<Rightarrow> Inl (ErrInvalidIPv4Address ip)
      | Some ip4 \<Rightarrow> Inr (f ip4))"

text \<open>The patterns that are tried when the text has none of the prefixes.\<close>

(* src: ovs/actionparser.go 328-392 parseAction: the patterns *)
definition parse_patterns :: "string \<Rightarrow> action result" where
  "parse_patterns s =
     (case re_find resubmitRe s of
         Some cs \<Rightarrow>
           (case resubmit_operand (cs ! 0) of
              Inl err \<Rightarrow> Inl err
            | Inr port \<Rightarrow>
                (case resubmit_operand (cs ! 1) of
                   Inl err \<Rightarrow> Inl err
                 | Inr table \<Rightarrow> Inr (Resubmit port table)))
      | None \<Rightarrow>
      case re_find resubmitPortRe s of
         Some cs \<Rightarrow> (case Atoi (cs ! 0) of Inl err \<Rightarrow> Inl err | Inr port \<Rightarrow> Inr (ResubmitPort port))
      | None \<Rightarrow>
      case re_find loadRe s of Some cs \<Rightarrow> Inr (arrow_args Load cs) | None \<Rightarrow>
      case re_find moveRe s of Some cs \<Rightarrow> Inr (arrow_args Move cs) | None \<Rightarrow>
      case re_find setFieldRe s of Some cs \<Rightarrow> Inr (arrow_args SetField cs) | None \<Rightarrow>
      Inl (ErrNoActionMatched s))"

(* src: ovs/actionparser.go func parseAction *)
definition parseAction :: "string \<Rightarrow> action result" where
  "parseAction s =
     (case simple_action s of Some a \<Rightarrow> Inr a | None \<Rightarrow>
      case re_find ctRe s of Some cs \<Rightarrow> Inr (ConnectionTracking (cs ! 0)) | None \<Rightarrow>
      if has_prefix s preModDataLinkDestination then
        (case scan_lit_string preModDataLinkDestination s of
           Inl err \<Rightarrow> Inl err
         | Inr (addr, _) \<Rightarrow>
             (case ParseMAC addr of
                Inl err \<Rightarrow> Inl err
              | Inr mac \<Rightarrow> Inr (ModDataLinkDestination mac)))
      else if has_prefix s preModDataLinkSource then
        (case scan_lit_string preModDataLinkSource s of
           Inl err \<Rightarrow> Inl err
         | Inr (addr, _) \<Rightarrow>
             (case ParseMAC addr of
                Inl err \<Rightarrow> Inl err
              | Inr mac \<Rightarrow> Inr (ModDataLinkSource mac)))
      else if has_prefix s preModNetworkDestination then
        (case scan_lit_string preModNetworkDestination s of
           Inl err \<Rightarrow> Inl err
         | Inr (ip, _) \<Rightarrow> parse_ip4 ModNetworkDestination ip)
      else if has_prefix s preModNetworkSource then
        (case scan_lit_string preModNetworkSource s of
           Inl err \<Rightarrow> Inl err
         | Inr (ip, _) \<Rightarrow> parse_ip4 ModNetworkSource ip)
      else if has_prefix s preModTransportDestinationPort then
        (case scan_lit_uint 16 preModTransportDestinationPort s of
           Inl err \<Rightarrow> Inl err
         | Inr (port, _) \<Rightarrow> Inr (ModTransportDestinationPort (word_of_int port)))
      else if has_prefix s preModTransportSourcePort then
        (case scan_lit_uint 16 preModTransportSourcePort s of
           Inl err \<Rightarrow> Inl err
         | Inr (port, _) \<Rightarrow> Inr (ModTransportSourcePort (word_of_int port)))
      else if has_prefix s preModVLANVID then
        (case scan_lit_int 64 preModVLANVID s of
           Inl err \<Rightarrow> Inl err
         | Inr (vlan, _) \<Rightarrow> Inr (ModVLANVID vlan))
      else if has_prefix s ''conjunction'' then
        (case scan_lit_int 64 preConjunction s of
           Inl err \<Rightarrow> Inl err
         | Inr (i, t) \<Rightarrow>
             (case scan_lit_int 64 '','' t of
                Inl err \<Rightarrow> Inl err
              | Inr (dimensionNumber, u) \<Rightarrow>
                  (case scan_lit_int 64 ''/'' u of
                     Inl err \<Rightarrow> Inl err
                   | Inr (dimensionSize, v) \<Rightarrow>
                       (case scan_lit '')'' v of
                          Inl err \<Rightarrow> Inl err
                        | Inr _ \<Rightarrow> Inr (Conjunction i dimensionNumber dimensionSize)))))
      else if has_prefix s preOutput then
        (case scan_lit_int 64 preOutput s of
           Inl err \<Rightarrow> Inl err
         | Inr (port, _) \<Rightarrow> Inr (Output port))
      else parse_patterns s)"

lemmas parseAction_defs = parseAction_def parse_patterns_def

section \<open>The list of actions\<close>

text \<open>The end of the input of an action, at the depth \<open>d\<close> of the stack.\<close>

(* src: ovs/actionparser.go 96-104 actionParser.parseAction: at eof *)
definition at_eof :: "nat \<Rightarrow> string \<Rightarrow> string \<Rightarrow> (string \<times> string) result" where
  "at_eof d buf rest =
     (if buf = [] then Inl EOF
      else if d > 0 then Inl (ErrInvalidAction buf)
      else Inr (buf, rest))"

text \<open>
  The loop of the method \<open>parseAction\<close>: the text of the next action and the input after it.
\<close>

(* src: ovs/actionparser.go 86-121 actionParser.parseAction: the loop *)
function read_action :: "nat \<Rightarrow> string \<Rightarrow> string \<Rightarrow> (string \<times> string) result" where
  "read_action d buf inp =
     (case read_rune inp of
        None \<Rightarrow> at_eof d buf []
      | Some (ch, rest) \<Rightarrow>
          if ch = '','' \<and> d = 0 then Inr (buf, rest)
          else if ch = [CHR 0x00] then at_eof d buf rest
          else if ch = ''('' then read_action (Suc d) (buf @ ch) rest
          else if ch = '')'' then
            (if d = 0 then Inl (GoPanic ''slice bounds out of range'')
             else read_action (d - 1) (buf @ ch) rest)
          else read_action d (buf @ ch) rest)"
  by pat_completeness auto
termination
  by (relation "measure (\<lambda>(d, buf, inp). length inp)") (auto dest: read_rune_shrinks)

declare read_action.simps [simp del]

(* src: ovs/actionparser.go func actionParser.parseAction *)
definition actionParser_parseAction :: "string \<Rightarrow> (action \<times> string \<times> string) result" where
  "actionParser_parseAction inp =
     (case read_action 0 [] inp of
        Inl err \<Rightarrow> Inl err
      | Inr (s, rest) \<Rightarrow> (case parseAction s of Inl err \<Rightarrow> Inl err | Inr act \<Rightarrow> Inr (act, s, rest)))"

text \<open>One round of the loop.\<close>

lemma read_action_step:
  assumes "read_rune inp = Some (ch, t)"
  shows "read_action d buf inp =
     (if ch = '','' \<and> d = 0 then Inr (buf, t)
      else if ch = [CHR 0x00] then at_eof d buf t
      else if ch = ''('' then read_action (Suc d) (buf @ ch) t
      else if ch = '')'' then
        (if d = 0 then Inl (GoPanic ''slice bounds out of range'')
         else read_action (d - 1) (buf @ ch) t)
      else read_action d (buf @ ch) t)"
  using assms by (simp add: read_action.simps[of d buf inp])

lemma read_action_end: "read_action d buf [] = at_eof d buf []"
  by (simp add: read_action.simps)

lemma read_action_cases:
  assumes "read_action d buf inp = Inr (s, rest)" and "read_rune inp = Some (ch, t)"
  obtains "rest = t" | d' buf' where "read_action d' buf' t = Inr (s, rest)"
  using assms(1) unfolding read_action_step[OF assms(2)] at_eof_def by (metis Inl_Inr_False Inr_inject prod.inject)

lemma read_action_shrinks:
  "read_action d buf inp = Inr (s, rest) \<Longrightarrow> length rest < length inp \<or> inp = [] \<and> rest = []"
proof (induction "length inp" arbitrary: d buf inp rule: less_induct)
  case less
  show ?case
  proof (cases "read_rune inp")
    case None
    then have "inp = []" by (simp add: read_rune_def split: if_splits)
    with less.prems show ?thesis by (simp add: read_action_end at_eof_def split: if_splits)
  next
    case (Some p)
    then obtain ch t where rr: "read_rune inp = Some (ch, t)" by (cases p) auto
    then have lt: "length t < length inp" by (rule read_rune_shrinks)
    from less.prems rr show ?thesis
      by (rule read_action_cases) (use lt less.hyps[OF lt] in fastforce)+
  qed
qed

lemma read_action_Nil [simp]: "read_action 0 [] [] = Inl EOF"
  by (simp add: read_action.simps at_eof_def)

lemma parse_one_shrinks:
  "actionParser_parseAction inp = Inr (a, s, rest) \<Longrightarrow> length rest < length inp"
  by (cases inp)
    (auto simp: actionParser_parseAction_def split: sum.splits prod.splits dest!: read_action_shrinks)

(* src: ovs/actionparser.go func actionParser.Parse *)
function Parse :: "string \<Rightarrow> (action list \<times> string list) result" where
  "Parse inp =
     (case actionParser_parseAction inp of
        Inl err \<Rightarrow> if err = EOF then Inr ([], []) else Inl err
      | Inr (a, r, rest) \<Rightarrow>
          (case Parse rest of
             Inl err \<Rightarrow> Inl err
           | Inr (actions, raw) \<Rightarrow> Inr (a # actions, r # raw)))"
  by pat_completeness auto
termination
  by (relation "measure length") (auto dest: parse_one_shrinks)

declare Parse.simps [simp del]

end
