(* ===== verification/ActionRoundtrip.thy ===== *)
theory ActionRoundtrip
  imports ActionParser MatchRoundtrip
begin

text \<open>
  What the action parser does with the texts of actions: a list of them joined with commas is taken
  apart at the right commas, and the actions whose syntax the parser knows are read back as they
  were.  The last section shows when the parser panics.
\<close>

section \<open>Lists of actions\<close>

text \<open>
  A text that is read as one action: ASCII without NUL, its parentheses balanced, and its
  commas inside parentheses.  \<open>d\<close> is the number of open parentheses.
\<close>

fun depth_ok :: "nat \<Rightarrow> string \<Rightarrow> bool" where
  "depth_ok d [] = (d = 0)"
| "depth_ok d (c # s) =
     (byte c < 128 \<and> c \<noteq> CHR 0x00 \<and>
      (if c = CHR '','' then d > 0 \<and> depth_ok d s
       else if c = CHR ''('' then depth_ok (Suc d) s
       else if c = CHR '')'' then d > 0 \<and> depth_ok (d - 1) s
       else depth_ok d s))"

lemma read_action_text:
  "depth_ok d s \<Longrightarrow> read_action d buf (s @ CHR '','' # rest) = Inr (buf @ s, rest)"
proof (induction d s arbitrary: buf rule: depth_ok.induct)
  case (1 d)
  have "read_rune (CHR '','' # rest) = Some ('','', rest)" by (rule read_rune_ascii) (simp add: byte_def)
  with 1 show ?case by (simp add: read_action_step)
next
  case (2 d c s)
  then have "read_rune (c # s @ CHR '','' # rest) = Some ([c], s @ CHR '','' # rest)" by simp
  with 2 show ?case by (cases "d = 0") (auto simp: read_action_step split: if_splits)
qed

lemma read_action_last:
  "depth_ok d s \<Longrightarrow> buf @ s \<noteq> [] \<Longrightarrow> read_action d buf s = Inr (buf @ s, [])"
proof (induction d s arbitrary: buf rule: depth_ok.induct)
  case (1 d)
  then show ?case by (simp add: read_action_end at_eof_def)
next
  case (2 d c s)
  then have "read_rune (c # s) = Some ([c], s)" by simp
  with 2 show ?case by (cases "d = 0") (auto simp: read_action_step split: if_splits)
qed

lemma Parse_Nil: "Parse [] = Inr ([], [])"
  by (subst Parse.simps) (simp add: actionParser_parseAction_def)

lemma Parse_step:
  assumes "read_action 0 [] inp = Inr (s, rest)" and "parseAction s = Inr a"
  shows "Parse inp = (case Parse rest of Inl err \<Rightarrow> Inl err | Inr (as, raw) \<Rightarrow> Inr (a # as, s # raw))"
  using assms by (subst Parse.simps) (simp add: actionParser_parseAction_def)

lemma Parse_join_aux:
  assumes "list_all2 (\<lambda>s a. depth_ok 0 s \<and> s \<noteq> [] \<and> parseAction s = Inr a) ss as"
  shows "Parse (join '','' ss) = Inr (as, ss)"
  using assms
proof (induction rule: list_all2_induct)
  case Nil
  then show ?case by (simp add: Parse_Nil)
next
  case (Cons s ss a as)
  show ?case
  proof (cases "ss = []")
    case True
    with Cons have "as = []" "Parse s = Inr ([a], [s])"
      using Parse_step[OF read_action_last[of 0 s "[]", simplified]] by (auto simp: Parse_Nil)
    with True show ?thesis by simp
  next
    case False
    have "read_action 0 [] (s @ CHR '','' # join '','' ss) = Inr (s, join '','' ss)"
      using Cons read_action_text[of 0 s "[]"] by simp
    from Parse_step[OF this] Cons False show ?thesis by (simp add: join_Cons)
  qed
qed

section \<open>Actions that are read back\<close>

definition arg_char :: "char \<Rightarrow> bool" where
  "arg_char c \<longleftrightarrow> 33 \<le> byte c \<and> byte c < 127"

definition canonical_arg :: "string \<Rightarrow> bool" where
  "canonical_arg s \<longleftrightarrow> s \<noteq> [] \<and> list_all arg_char s"

text \<open>
  The two arguments of an action with an arrow, of the given name: the second one holds no arrow, and the
  text holds no name of an action that the parser looks for first.
\<close>

definition canonical_arrow :: "string \<Rightarrow> string list \<Rightarrow> string \<Rightarrow> string \<Rightarrow> bool" where
  "canonical_arrow name names a b \<longleftrightarrow>
     canonical_arg a \<and> canonical_arg b \<and> \<not> contains b ''->'' \<and>
     depth_ok 0 (name @ a @ ''->'' @ b) \<and>
     list_all (\<lambda>n. \<not> contains (name @ a @ ''->'' @ b) n) names"

fun canonical_action :: "action \<Rightarrow> bool" where
  "canonical_action (textAction n) =
     (n \<in> {actionDrop, actionFlood, actionInPort, actionLocal, actionNormal, actionStripVLAN})"
| "canonical_action (ctAction args) = (canonical_arg args \<and> depth_ok 1 (args @ '')''))"
| "canonical_action (modDataLinkAction d a) = (canonical_srcdst d \<and> length a = 6)"
| "canonical_action (modNetworkAction d ip) =
     (canonical_srcdst d \<and> (case ip of None \<Rightarrow> False | Some a \<Rightarrow> length a = 4))"
| "canonical_action (modTransportPortAction d p) = canonical_srcdst d"
| "canonical_action (modVLANVIDAction vid) = validVLANVID vid"
| "canonical_action (outputAction p) = (0 \<le> p \<and> int_range p)"
| "canonical_action (conjunctionAction i n s) = (n \<le> s \<and> int_range i \<and> int_range n \<and> int_range s)"
| "canonical_action (resubmitAction p t) =
     (0 \<le> p \<and> 0 \<le> t \<and> (p \<noteq> 0 \<or> t \<noteq> 0) \<and> int_range p \<and> int_range t)"
| "canonical_action (resubmitPortAction p) = (0 \<le> p \<and> p \<le> 0xfffffeff)"
| "canonical_action (loadSetFieldAction v f typ) =
     (typ = actionLoad \<and> canonical_arrow ''load:'' [''ct('', ''resubmit('', ''resubmit:''] v f \<or>
      typ = actionSetField \<and>
      canonical_arrow ''set_field:'' [''ct('', ''resubmit('', ''resubmit:'', ''load:'', ''move:''] v f)"
| "canonical_action (moveAction s d) =
     canonical_arrow ''move:'' [''ct('', ''resubmit('', ''resubmit:'', ''load:''] s d"
| "canonical_action _ = False"

definition action_reads_back :: "action \<Rightarrow> bool" where
  "action_reads_back a \<longleftrightarrow>
     (\<exists>s. action_MarshalText a = Inr s \<and> depth_ok 0 s \<and> s \<noteq> [] \<and> list_all arg_char s \<and>
          parseAction s = Inr a)"

lemma action_reads_backI:
  assumes "action_MarshalText a = Inr s" and "depth_ok 0 s" and "s \<noteq> []" and "list_all arg_char s"
    and "parseAction s = Inr a"
  shows "action_reads_back a"
  using assms by (auto simp: action_reads_back_def)

lemmas action_constructors =
  All_def Drop_def Flood_def InPort_def Local_def Normal_def StripVLAN_def ConnectionTracking_def
  ModDataLinkDestination_def ModDataLinkSource_def ModNetworkDestination_def ModNetworkSource_def
  ModTransportDestinationPort_def ModTransportSourcePort_def ModVLANVID_def Output_def
  OutputField_def Multipath_def Conjunction_def Resubmit_def ResubmitPort_def SetField_def Load_def
  SetTunnel_def Move_def Learn_def

lemma depth_ok_plain:
  assumes "\<forall>c \<in> set s. byte c < 128 \<and> c \<notin> {CHR 0x00, CHR '','', CHR ''('', CHR '')''}"
  shows "depth_ok d (s @ t) = depth_ok d t"
  using assms by (induction s) auto

lemma number_plain:
  "is_digit c \<or> 97 \<le> byte c \<and> byte c \<le> 102 \<or> c = CHR '':'' \<or> c = CHR ''.'' \<or> c = CHR ''-'' \<Longrightarrow>
     byte c < 128 \<and> c \<notin> {CHR 0x00, CHR '','', CHR ''('', CHR '')''}"
  by (auto simp: is_digit_def byte_def)

lemma depth_ok_numbers [simp]:
  "depth_ok d (itoa i @ t) = depth_ok d t"
  "depth_ok d (dec w @ t) = depth_ok d t"
  "depth_ok d (mac_string a @ t) = depth_ok d t"
  "depth_ok d (ipv4_string p @ t) = depth_ok d t"
  by (intro depth_ok_plain ballI number_plain; use itoa_chars dec_chars mac_string_chars ipv4_string_chars in fast)+

lemma depth_ok_numbers0 [simp]:
  "depth_ok d (itoa i) = (d = 0)"
  "depth_ok d (dec w) = (d = 0)"
  "depth_ok d (mac_string a) = (d = 0)"
  "depth_ok d (ipv4_string p) = (d = 0)"
  using depth_ok_numbers[where t = "[]"] by simp_all

lemma number_arg_char:
  "is_digit c \<or> 97 \<le> byte c \<and> byte c \<le> 102 \<or> c = CHR '':'' \<or> c = CHR ''.'' \<or> c = CHR ''-'' \<Longrightarrow> arg_char c"
  by (auto simp: arg_char_def is_digit_def byte_def)

lemma arg_char_numbers [simp]:
  "list_all arg_char (itoa i)" "list_all arg_char (dec w)" "list_all arg_char (mac_string a)"
  "list_all arg_char (ipv4_string p)"
  unfolding list_all_iff
  by (auto intro!: number_arg_char dest!: dec_chars itoa_chars mac_string_chars ipv4_string_chars)

text \<open>A pattern whose literal holds a character that the text does not.\<close>

lemma re_find_no_char: "c \<in> set l \<Longrightarrow> c \<notin> set s \<Longrightarrow> re_find (Lit l # is) s = None"
  by (rule re_find_None) (auto dest: set_mono_sublist)

lemma no_paren [simp]:
  "CHR ''('' \<notin> set (itoa i)" "CHR ''('' \<notin> set (dec w)" "CHR ''('' \<notin> set (mac_string a)"
  "CHR ''('' \<notin> set (ipv4_string p)"
  by (auto dest!: itoa_chars dec_chars mac_string_chars ipv4_string_chars simp: is_digit_def byte_def)

lemma ctRe_none: "CHR ''('' \<notin> set s \<Longrightarrow> re_find ctRe s = None"
  unfolding ctRe_def by (rule re_find_no_char[where c = "CHR ''(''"]) auto

lemma to_lower_keeps:
  "c \<in> set s \<Longrightarrow> byte c < 65 \<Longrightarrow> c \<in> set (to_lower s)"
proof (induction s rule: to_lower.induct)
  case (2 d s)
  have b: "byte (CHR 0xB0) = 176" "byte (CHR 0xC4) = 196" "byte (CHR 0xE2) = 226" "byte (CHR 0x84) = 132"
    "byte (CHR 0xAA) = 170"
    by (simp_all add: byte_def)
  show ?case
  proof (cases "c = d")
    case True
    with 2 b show ?thesis by (auto simp: to_lower_char_def)
  next
    case False
    then have cs: "c \<in> set s" using 2 by simp
    then obtain e t where s: "s = e # t" by (cases s) auto
    have "c \<in> set (tl s)" if "e = CHR 0xB0" using that cs s "2.prems" b by auto
    moreover have "c \<in> set (drop 2 s)" if "length s \<ge> 2" "s ! 0 = CHR 0x84" "s ! 1 = CHR 0xAA"
      using that cs s "2.prems" b by (cases t) auto
    ultimately show ?thesis using 2 cs s by simp
  qed
qed simp

lemma simple_action_none:
  assumes "CHR '':'' \<in> set s \<or> CHR ''('' \<in> set s"
  shows "simple_action s = None"
proof -
  have "CHR '':'' \<in> set (to_lower s) \<or> CHR ''('' \<in> set (to_lower s)"
    using assms to_lower_keeps by (auto simp: byte_def)
  then show ?thesis by (auto simp: simple_action_def Let_def)
qed

lemmas parse_simps = parseAction_defs simple_action_none ctRe_none has_prefix_def

lemma action_text_reads_back:
  assumes "n \<in> {actionDrop, actionFlood, actionInPort, actionLocal, actionNormal, actionStripVLAN}"
  shows "action_reads_back (textAction n)"
proof -
  have "to_lower n = n" and "depth_ok 0 n" and "list_all arg_char n"
    using assms by (auto simp: to_lower_char_def arg_char_def byte_def)
  with assms have "parseAction n = Inr (textAction n)"
    by (elim insertE emptyE) (simp_all add: parseAction_defs simple_action_def action_constructors)
  with assms \<open>depth_ok 0 n\<close> \<open>list_all arg_char n\<close> show ?thesis
    by (intro action_reads_backI[where s = n]) (auto simp: action_MarshalText_defs)
qed

lemma action_ports_read_back:
  assumes "canonical_srcdst d"
  shows "action_reads_back (modTransportPortAction d p)"
proof -
  have "parseAction (preModTransportSourcePort @ dec p) = Inr (ModTransportSourcePort p)"
    "parseAction (preModTransportDestinationPort @ dec p) = Inr (ModTransportDestinationPort p)"
    using scan_lit_uint_dec[of 16 preModTransportSourcePort p]
      scan_lit_uint_dec[of 16 preModTransportDestinationPort p]
    by (simp_all add: parse_simps)
  with assms show ?thesis
    by (auto simp: canonical_srcdst_def action_MarshalText_defs action_constructors byte_def arg_char_def
        intro: action_reads_backI)
qed

lemma action_hwaddr_reads_back:
  assumes "canonical_srcdst d" and "length a = 6"
  shows "action_reads_back (modDataLinkAction d a)"
proof -
  have "a \<noteq> []" using assms(2) by auto
  then have ne: "mac_string a \<noteq> []" using length_mac_string[of a] assms(2) by auto
  have pl: "\<forall>c \<in> set (mac_string a). byte c < 128 \<and> \<not> ascii_space c"
    by (auto dest!: mac_string_chars simp: is_digit_def ascii_space_def byte_def)
  have "ParseMAC (mac_string a) = Inr a"
    using assms(2) by (intro ParseMAC_mac_string) (simp add: mac_length_ok_def)
  then have "parseAction (preModDataLinkSource @ mac_string a) = Inr (ModDataLinkSource a)"
    "parseAction (preModDataLinkDestination @ mac_string a) = Inr (ModDataLinkDestination a)"
    using scan_lit_string_plain[OF pl ne, of preModDataLinkSource]
      scan_lit_string_plain[OF pl ne, of preModDataLinkDestination]
    by (simp_all add: parse_simps)
  with assms show ?thesis
    by (auto simp: canonical_srcdst_def action_MarshalText_defs action_constructors byte_def arg_char_def
        ethernetAddrLen_def intro: action_reads_backI)
qed

lemma action_ip_reads_back:
  assumes "canonical_srcdst d" and "length a = 4"
  shows "action_reads_back (modNetworkAction d (Some a))"
proof -
  have pl: "\<forall>c \<in> set (ipv4_string a). byte c < 128 \<and> \<not> ascii_space c"
    by (auto dest!: ipv4_string_chars simp: is_digit_def ascii_space_def byte_def)
  have parse: "parseIPv4 (ipv4_string a) = Some (v4_in_v6_prefix @ a)"
    using assms(2) by (rule parseIPv4_ipv4_string)
  then have ne: "ipv4_string a \<noteq> []" by (auto simp: parseIPv4_def eval_nat_numeral)
  have "CHR ''.'' \<in> set (ipv4_string a)"
    using assms(2) by (auto simp: ipv4_string_def join_Cons eval_nat_numeral length_Suc_conv)
  moreover have "CHR '':'' \<notin> set (ipv4_string a)"
    by (auto dest!: ipv4_string_chars simp: is_digit_def byte_def)
  ultimately have "ip_kind (ipv4_string a) = Some (CHR ''.'')" by (rule ip_kind_dot)
  then have "ParseIP (ipv4_string a) = Some (v4_in_v6_prefix @ a)" by (simp add: ParseIP_def parse)
  moreover have "To4 (v4_in_v6_prefix @ a) = Some a" "To4 a = Some a"
    using assms(2) by (simp_all add: To4_def v4_in_v6_prefix_def)
  ultimately have "parseAction (preModNetworkSource @ ipv4_string a) = Inr (ModNetworkSource a)"
    "parseAction (preModNetworkDestination @ ipv4_string a) = Inr (ModNetworkDestination a)"
    using scan_lit_string_plain[OF pl ne, of preModNetworkSource]
      scan_lit_string_plain[OF pl ne, of preModNetworkDestination]
    by (simp_all add: parse_simps parse_ip4_def)
  moreover have "ip_string a = ipv4_string a" 
    using assms(2) \<open>To4 a = Some a\<close> by (auto simp: ip_string_def)
  ultimately show ?thesis
    using assms \<open>To4 a = Some a\<close>
    by (auto simp: canonical_srcdst_def action_MarshalText_defs action_constructors byte_def arg_char_def
        intro: action_reads_backI)
qed

lemma action_int_reads_back:
  shows "validVLANVID vid \<Longrightarrow> action_reads_back (modVLANVIDAction vid)"
    and "0 \<le> p \<Longrightarrow> int_range p \<Longrightarrow> action_reads_back (outputAction p)"
proof -
  assume v: "validVLANVID vid"
  then have "int_range vid" by (simp add: validVLANVID_def int_range_def)
  then have "parseAction (preModVLANVID @ itoa vid) = Inr (ModVLANVID vid)"
    using scan_lit_int_itoa[of vid "[]" preModVLANVID] by (simp add: parse_simps)
  with v show "action_reads_back (modVLANVIDAction vid)"
    by (auto simp: action_MarshalText_defs action_constructors byte_def arg_char_def intro: action_reads_backI)
next
  assume p: "0 \<le> p" "int_range p"
  then have "parseAction (preOutput @ itoa p) = Inr (Output p)"
    using scan_lit_int_itoa[of p "[]" preOutput] by (simp add: parse_simps)
  with p show "action_reads_back (outputAction p)"
    by (auto simp: action_MarshalText_defs action_constructors byte_def arg_char_def intro: action_reads_backI)
qed

lemma action_conjunction_reads_back:
  assumes "n \<le> s" and "int_range i" "int_range n" "int_range s"
  shows "action_reads_back (conjunctionAction i n s)"
proof -
  let ?t = "preConjunction @ itoa i @ '','' @ itoa n @ ''/'' @ itoa s @ '')''"
  have "\<not> sublist ''ct('' ?t"
    by (auto simp: sublist_Cons_right dest!: set_mono_sublist itoa_chars)
  then have ct: "re_find ctRe ?t = None" unfolding ctRe_def by (rule re_find_None)
  have "scan_lit_int 64 preConjunction ?t = Inr (i, '','' @ itoa n @ ''/'' @ itoa s @ '')'')"
    by (rule scan_lit_int_itoa) (simp_all add: assms is_digit_def byte_def)
  moreover have "scan_lit_int 64 '','' ('','' @ itoa n @ ''/'' @ itoa s @ '')'') =
      Inr (n, ''/'' @ itoa s @ '')'')"
    by (rule scan_lit_int_itoa) (simp_all add: assms is_digit_def byte_def)
  moreover have "scan_lit_int 64 ''/'' (''/'' @ itoa s @ '')'') = Inr (s, '')'')"
    by (rule scan_lit_int_itoa) (simp_all add: assms is_digit_def byte_def)
  ultimately have "parseAction ?t = Inr (Conjunction i n s)"
    using ct by (simp add: parse_simps)
  with assms(1) show ?thesis
    by (auto simp: action_MarshalText_defs action_constructors byte_def arg_char_def intro: action_reads_backI)
qed

text \<open>Patterns that begin the text.\<close>

lemma parseAction_resubmit:
  assumes "re_find resubmitRe s = Some cs" and "has_prefix s ''resubmit''" and "re_find ctRe s = None"
    and "CHR ''('' \<in> set s"
  shows "parseAction s =
     (case resubmit_operand (cs ! 0) of
        Inl err \<Rightarrow> Inl err
      | Inr port \<Rightarrow>
          (case resubmit_operand (cs ! 1) of Inl err \<Rightarrow> Inl err | Inr table \<Rightarrow> Inr (Resubmit port table)))"
proof -
  from assms(2) obtain t where "s = ''resubmit'' @ t" by (auto simp: has_prefix_def prefix_def)
  with assms show ?thesis by (simp add: parse_simps)
qed

lemma resubmit_operand_text:
  assumes "0 \<le> p" and "int_range p"
  shows "resubmit_operand (if p \<noteq> 0 then itoa p else []) = Inr p"
  using assms by (auto simp: resubmit_operand_def Atoi_itoa)

lemma itoa_digits: "0 \<le> p \<Longrightarrow> \<forall>c \<in> set (itoa p). is_digit c"
  using fmt_nat_10_digits by (simp add: itoa_def)

lemma action_resubmit_reads_back:
  assumes "0 \<le> p" "0 \<le> t" "p \<noteq> 0 \<or> t \<noteq> 0" "int_range p" "int_range t"
  shows "action_reads_back (resubmitAction p t)"
proof -
  define u where "u = (if p \<noteq> 0 then itoa p else [])"
  define v where "v = (if t \<noteq> 0 then itoa t else [])"
  have d: "\<forall>c \<in> set u. is_digit c" "\<forall>c \<in> set v. is_digit c"
    using assms itoa_digits by (auto simp: u_def v_def)
  let ?s = "''resubmit('' @ u @ '','' @ v @ '')''"
  have "re_match [Rep is_digit 0, Lit '')''] (v @ CHR '')'' # []) = Some [v]"
    by (rule re_match_Rep_delim) (use d in \<open>auto simp: is_digit_def byte_def\<close>)
  then have "re_match [Rep is_digit 0, Lit '','', Rep is_digit 0, Lit '')''] (u @ CHR '','' # v @ '')'') =
      Some [u, v]"
    by (intro re_match_Rep_delim) (use d in \<open>auto simp: is_digit_def byte_def\<close>)
  then have f: "re_find resubmitRe ?s = Some [u, v]"
    by (intro re_find_prefix) (simp add: resubmitRe_def del: re_match.simps(2) add: re_match.simps(2)[of "Lit l" for l])
  have "CHR ''('' \<notin> set (u @ '','' @ v @ '')'')"
    using d by (auto simp: is_digit_def byte_def)
  then have "\<not> sublist ''ct('' ?s"
    by (auto simp: sublist_Cons_right dest!: set_mono_sublist)
  then have ct: "re_find ctRe ?s = None" unfolding ctRe_def by (rule re_find_None)
  have "parseAction ?s = Inr (Resubmit p t)"
    using resubmit_operand_text[OF assms(1,4)] resubmit_operand_text[OF assms(2,5)]
    by (subst parseAction_resubmit[OF f _ ct])
      (simp_all add: has_prefix_def u_def[symmetric] v_def[symmetric])
  moreover have "depth_ok 0 ?s"
    by (auto simp: u_def v_def byte_def)
  ultimately show ?thesis
    using assms(3)
    by (intro action_reads_backI[where s = ?s])
      (auto simp: action_MarshalText_defs action_constructors u_def v_def Let_def arg_char_def byte_def)
qed

lemma action_resubmitPort_reads_back:
  assumes "0 \<le> p" "p \<le> 0xfffffeff"
  shows "action_reads_back (resubmitPortAction p)"
proof -
  let ?s = "''resubmit:'' @ itoa p"
  have r: "int_range p" using assms by (simp add: int_range_def)
  have "re_match [Rep is_digit 1] (itoa p) = Some [itoa p]"
    using assms itoa_digits by (intro re_match_Rep_end) (auto simp: Suc_le_eq)
  then have f: "re_find resubmitPortRe ?s = Some [itoa p]"
    by (intro re_find_prefix) (simp add: resubmitPortRe_def)
  have "re_find resubmitRe ?s = None"
    unfolding resubmitRe_def by (rule re_find_no_char[where c = "CHR ''(''"]) auto
  then have "parseAction ?s = Inr (ResubmitPort p)"
    using f r by (simp add: parse_simps Atoi_itoa)
  with assms show ?thesis
    by (intro action_reads_backI[where s = ?s])
      (auto simp: action_MarshalText_defs action_constructors byte_def arg_char_def)
qed

text \<open>Greedy arguments.\<close>

lemma arg_char_not_space: "arg_char c \<Longrightarrow> not_space c"
  by (auto simp: arg_char_def not_space_def byte_def)

lemma canonical_arg_not_space: "canonical_arg a \<Longrightarrow> \<forall>c \<in> set a. not_space c"
  by (auto simp: canonical_arg_def list_all_iff arg_char_not_space)

lemma action_ct_reads_back:
  assumes "canonical_arg args" and "depth_ok 1 (args @ '')'')"
  shows "action_reads_back (ctAction args)"
proof -
  let ?s = "''ct('' @ args @ '')''"
  have ns: "\<forall>c \<in> set (args @ '')''). not_space c"
    using canonical_arg_not_space[OF assms(1)] by (auto simp: not_space_def)
  have "re_match [Rep not_space 1, Lit '')''] (args @ '')'') = Some (take (length args) (args @ '')'') # [])"
    by (rule re_match_Rep_greedy[OF ns])
      (use assms(1) in \<open>auto simp: canonical_arg_def Suc_le_eq\<close>)
  then have "re_find ctRe ?s = Some [args]"
    by (intro re_find_prefix) (simp add: ctRe_def del: re_match.simps(2) add: re_match.simps(2)[of "Lit l" for l])
  then have "parseAction ?s = Inr (ConnectionTracking args)"
    by (simp add: parse_simps)
  with assms show ?thesis
    by (intro action_reads_backI[where s = ?s])
      (auto simp: action_MarshalText_defs action_constructors byte_def arg_char_def canonical_arg_def)
qed

lemma arrow_match:
  assumes "canonical_arg a" and "canonical_arg b" and "\<not> contains b ''->''"
  shows "re_match [Rep not_space 1, Lit ''->'', Rep not_space 1] (a @ ''->'' @ b) = Some [a, b]"
proof -
  let ?s = "a @ ''->'' @ b"
  have ns: "\<forall>c \<in> set ?s. not_space c"
    using canonical_arg_not_space[OF assms(1)] canonical_arg_not_space[OF assms(2)]
    by (auto simp: not_space_def)
  have "re_match [Rep not_space 1] b = Some [b]"
    using canonical_arg_not_space[OF assms(2)] assms(2)
    by (intro re_match_Rep_end) (auto simp: canonical_arg_def Suc_le_eq)
  then have hit: "re_match [Lit ''->'', Rep not_space 1] (drop (length a) ?s) = Some [b]"
    by (simp del: re_match.simps(2) add: re_match.simps(2)[of "Lit l" for l])
  have miss: "re_match [Lit ''->'', Rep not_space 1] (drop j ?s) = None" if "length a < j" for j
  proof (rule ccontr)
    assume "re_match [Lit ''->'', Rep not_space 1] (drop j ?s) \<noteq> None"
    then have pre: "prefix ''->'' (drop j ?s)" by (rule re_match_Lit_sublist)
    obtain k where k: "j = length a + Suc k" using \<open>length a < j\<close> less_imp_Suc_add by fastforce
    then have dj: "drop j ?s = drop k (CHR ''>'' # b)" by simp
    show False
    proof (cases k)
      case 0
      with pre dj show False by simp
    next
      case (Suc l)
      with pre dj have "prefix ''->'' (drop l b)" by simp
      then have "sublist ''->'' b" by (metis append_take_drop_id prefix_def sublist_def)
      with assms(3) show False by (simp add: contains_iff)
    qed
  qed
  have "re_match [Rep not_space 1, Lit ''->'', Rep not_space 1] ?s = Some (take (length a) ?s # [b])"
    by (rule re_match_Rep_greedy[OF ns _ _ hit miss])
      (use assms(1) in \<open>auto simp: canonical_arg_def Suc_le_eq\<close>)
  then show ?thesis by simp
qed

lemma arrow_find:
  assumes "canonical_arrow name ns a b"
  shows "re_find [Lit name, Rep not_space 1, Lit ''->'', Rep not_space 1] (name @ a @ ''->'' @ b) = Some [a, b]"
proof -
  have "re_match [Rep not_space 1, Lit ''->'', Rep not_space 1] (a @ ''->'' @ b) = Some [a, b]"
    using assms by (intro arrow_match) (simp_all add: canonical_arrow_def)
  then show ?thesis
    by (intro re_find_prefix) (simp del: re_match.simps(2) add: re_match.simps(2)[of "Lit l" for l])
qed

lemma arrow_other:
  assumes "canonical_arrow name ns a b" and "n \<in> set ns"
  shows "re_find (Lit n # is) (name @ a @ ''->'' @ b) = None"
  using assms by (intro re_find_None) (simp add: canonical_arrow_def list_all_iff contains_iff)

lemma action_arrows_read_back:
  shows "canonical_arrow ''load:'' [''ct('', ''resubmit('', ''resubmit:''] v f \<Longrightarrow>
      action_reads_back (loadSetFieldAction v f actionLoad)"
    and "canonical_arrow ''set_field:'' [''ct('', ''resubmit('', ''resubmit:'', ''load:'', ''move:''] v f \<Longrightarrow>
      action_reads_back (loadSetFieldAction v f actionSetField)"
    and "canonical_arrow ''move:'' [''ct('', ''resubmit('', ''resubmit:'', ''load:''] v f \<Longrightarrow>
      action_reads_back (moveAction v f)"
proof -
  assume c: "canonical_arrow ''load:'' [''ct('', ''resubmit('', ''resubmit:''] v f"
  have "parseAction (''load:'' @ v @ ''->'' @ f) = Inr (Load v f)"
    using arrow_find[OF c] arrow_other[OF c, of "''ct(''"] arrow_other[OF c, of "''resubmit(''"]
      arrow_other[OF c, of "''resubmit:''"]
    by (simp add: parse_simps ctRe_def resubmitRe_def resubmitPortRe_def loadRe_def arrow_args_def)
  with c show "action_reads_back (loadSetFieldAction v f actionLoad)"
    by (intro action_reads_backI[where s = "''load:'' @ v @ ''->'' @ f"])
      (auto simp: action_MarshalText_defs action_constructors canonical_arrow_def canonical_arg_def arg_char_def byte_def)
next
  assume c: "canonical_arrow ''set_field:'' [''ct('', ''resubmit('', ''resubmit:'', ''load:'', ''move:''] v f"
  have "parseAction (''set_field:'' @ v @ ''->'' @ f) = Inr (SetField v f)"
    using arrow_find[OF c] arrow_other[OF c, of "''ct(''"] arrow_other[OF c, of "''resubmit(''"]
      arrow_other[OF c, of "''resubmit:''"] arrow_other[OF c, of "''load:''"]
      arrow_other[OF c, of "''move:''"]
    by (simp add: parse_simps ctRe_def resubmitRe_def resubmitPortRe_def loadRe_def moveRe_def
        setFieldRe_def arrow_args_def)
  with c show "action_reads_back (loadSetFieldAction v f actionSetField)"
    by (intro action_reads_backI[where s = "''set_field:'' @ v @ ''->'' @ f"])
      (auto simp: action_MarshalText_defs action_constructors canonical_arrow_def canonical_arg_def arg_char_def byte_def
        actionLoad_def actionSetField_def)
next
  assume c: "canonical_arrow ''move:'' [''ct('', ''resubmit('', ''resubmit:'', ''load:''] v f"
  have "parseAction (''move:'' @ v @ ''->'' @ f) = Inr (Move v f)"
    using arrow_find[OF c] arrow_other[OF c, of "''ct(''"] arrow_other[OF c, of "''resubmit(''"]
      arrow_other[OF c, of "''resubmit:''"] arrow_other[OF c, of "''load:''"]
    by (simp add: parse_simps ctRe_def resubmitRe_def resubmitPortRe_def loadRe_def moveRe_def
        arrow_args_def)
  with c show "action_reads_back (moveAction v f)"
    by (intro action_reads_backI[where s = "''move:'' @ v @ ''->'' @ f"])
      (auto simp: action_MarshalText_defs action_constructors canonical_arrow_def canonical_arg_def arg_char_def byte_def)
qed

lemma canonical_action_reads_back: "canonical_action a \<Longrightarrow> action_reads_back a"
  by (cases a)
    (auto intro: action_ct_reads_back action_hwaddr_reads_back action_ip_reads_back
      action_ports_read_back action_int_reads_back action_conjunction_reads_back
      action_resubmit_reads_back action_resubmitPort_reads_back action_arrows_read_back
      simp: action_text_reads_back split: option.splits)

text \<open>A list of them, as the code marshals and parses it.\<close>

lemma canonical_actions_read_back:
  assumes "list_all canonical_action as"
  obtains ss where "marshalActions as = Inr ss" and "length ss = length as"
    and "list_all (\<lambda>s. depth_ok 0 s \<and> s \<noteq> [] \<and> list_all arg_char s) ss"
    and "Parse (join '','' ss) = Inr (as, ss)"
proof -
  from assms have "\<forall>a \<in> set as. \<exists>s. action_MarshalText a = Inr s \<and> depth_ok 0 s \<and> s \<noteq> [] \<and>
      list_all arg_char s \<and> parseAction s = Inr a"
    using canonical_action_reads_back by (auto simp: list_all_iff action_reads_back_def)
  then obtain f where f: "\<And>a. a \<in> set as \<Longrightarrow>
      action_MarshalText a = Inr (f a) \<and> depth_ok 0 (f a) \<and> f a \<noteq> [] \<and> list_all arg_char (f a) \<and>
      parseAction (f a) = Inr a"
    by metis
  then have m: "marshalActions as = Inr (map f as)"
    by (auto simp: marshalActions_def intro: mapR_all_Inr)
  have "list_all2 (\<lambda>s a. depth_ok 0 s \<and> s \<noteq> [] \<and> parseAction s = Inr a) (map f as) as"
    using f by (auto simp: list_all2_map1 list_all2_same intro: list.rel_refl_strong)
  then have "Parse (join '','' (map f as)) = Inr (as, map f as)" by (rule Parse_join_aux)
  moreover have "list_all (\<lambda>s. depth_ok 0 s \<and> s \<noteq> [] \<and> list_all arg_char s) (map f as)"
    using f by (auto simp: list_all_iff)
  ultimately show ?thesis using m by (intro that) auto
qed

section \<open>When the parser panics\<close>

text \<open>The functions that read one action return, with an error or without.\<close>

lemma num_result_no_panic: "num_result s r \<noteq> Inl (GoPanic m)"
  by (simp add: num_result_def split: sum.splits num_error.splits)

lemma Atoi_no_panic: "Atoi s \<noteq> Inl (GoPanic m)"
  by (simp add: Atoi_def num_result_no_panic)

lemma scan_lit_no_panic: "scan_lit l s \<noteq> Inl (GoPanic m)"
  by (induction l s rule: scan_lit.induct) auto

lemma skip_space_no_panic: "skip_space s \<noteq> Inl (GoPanic m)"
  by (induction s rule: skip_space.induct) auto

lemma scan_number_no_panic: "scan_number s \<noteq> Inl (GoPanic m)"
  by (simp add: scan_number_def)

lemma scan_no_panic:
  "scan_lit_string l s \<noteq> Inl (GoPanic m)"
  "scan_lit_int b l s \<noteq> Inl (GoPanic m)"
  "scan_lit_uint b l s \<noteq> Inl (GoPanic m)"
  using scan_lit_no_panic skip_space_no_panic scan_number_no_panic num_result_no_panic
  by (fastforce simp: scan_lit_string_def scan_lit_int_def scan_lit_uint_def scan_int_def
      scan_uint_def Let_def split: sum.splits prod.splits if_splits)+

lemma ParseMAC_no_panic: "ParseMAC s \<noteq> Inl (GoPanic m)"
  by (simp add: ParseMAC_def Let_def split: option.splits)

lemma parse_ip4_no_panic: "parse_ip4 f s \<noteq> Inl (GoPanic m)"
  by (simp add: parse_ip4_def split: option.splits)

lemma resubmit_operand_no_panic: "resubmit_operand s \<noteq> Inl (GoPanic m)"
  by (simp add: resubmit_operand_def Atoi_no_panic)

text \<open>Composition of calls that return.\<close>

lemma no_panic_case:
  "r \<noteq> Inl (GoPanic m) \<Longrightarrow> (\<And>x. f x \<noteq> Inl (GoPanic m)) \<Longrightarrow> case_sum Inl f r \<noteq> Inl (GoPanic m)"
  "u \<noteq> Inl (GoPanic m) \<Longrightarrow> (\<And>x. g x \<noteq> Inl (GoPanic m)) \<Longrightarrow> case_option u g opt \<noteq> Inl (GoPanic m)"
  "(\<And>a b. h a b \<noteq> Inl (GoPanic m)) \<Longrightarrow> case_prod h p \<noteq> Inl (GoPanic m)"
  "u \<noteq> Inl (GoPanic m) \<Longrightarrow> v \<noteq> Inl (GoPanic m) \<Longrightarrow> (if b then u else v) \<noteq> Inl (GoPanic m)"
  "Inr x \<noteq> Inl (GoPanic m)"
  by (auto split: sum.splits option.splits prod.splits)

lemma parseAction_no_panic: "parseAction s \<noteq> Inl (GoPanic m)"
  unfolding parseAction_defs
  by (intro no_panic_case scan_no_panic scan_lit_no_panic ParseMAC_no_panic parse_ip4_no_panic
      Atoi_no_panic resubmit_operand_no_panic) simp

text \<open>No closing parenthesis without its opening one, from the depth \<open>d\<close> on.\<close>

fun close_ok :: "nat \<Rightarrow> string \<Rightarrow> bool" where
  "close_ok d [] = True"
| "close_ok d (c # s) =
     (if c = CHR ''('' then close_ok (Suc d) s
      else if c = CHR '')'' then d > 0 \<and> close_ok (d - 1) s
      else close_ok d s)"

lemma close_ok_skip: "\<forall>c \<in> set u. c \<noteq> CHR ''('' \<and> c \<noteq> CHR '')'' \<Longrightarrow> close_ok d (u @ s) = close_ok d s"
  by (induction u) auto

lemma read_rune_bytes:
  assumes "read_rune s = Some (ch, t)"
  shows "(\<exists>c. ch = [c] \<and> s = c # t \<and> byte c < 128) \<or>
    (\<exists>u c ch'. s = u @ t \<and> (\<forall>d \<in> set u. 128 \<le> byte d) \<and> ch = c # ch' \<and> 128 \<le> byte c)"
proof -
  from assms obtain c r where s: "s = c # r" by (cases s) auto
  show ?thesis
  proof (cases "byte c < 128")
    case True
    with assms s show ?thesis by simp
  next
    case False
    show ?thesis
    proof (cases "rune_len s = 0")
      case True
      with assms s have "ch = rune_error" "t = r" by (auto simp: read_rune_def)
      with s False show ?thesis
        by (intro disjI2 exI[of _ "[c]"]) (auto simp: rune_error_def byte_def)
    next
      case n: False
      define n where "n = rune_size (byte c)"
      from n s False have len: "rune_len s = n" "n \<ge> 2" and ok: "length r \<ge> n - 1"
        "second_byte_ok (byte c) (byte (hd r))" "list_all (\<lambda>d. cont_byte (byte d)) (take (n - 2) (tl r))"
        by (auto simp: n_def Let_def rune_size_def Suc_le_eq split: if_splits)
      then obtain e r' where r: "r = e # r'" by (cases r) auto
      have take: "take n s = c # e # take (n - 2) r'"
        using len(2) unfolding s r by (cases n rule: nat.exhaust; cases "n - 1") auto
      have "\<forall>d \<in> set (take n s). 128 \<le> byte d"
        using ok False unfolding take by (auto simp: r second_byte_ok_def cont_byte_def list_all_iff split: if_splits)
      moreover have "s = take n s @ t" "ch = take n s"
        using assms len n s by (auto simp: read_rune_def)
      ultimately show ?thesis using False take
        by (intro disjI2 exI[of _ "take n s"] exI[of _ c] exI[of _ "e # take (n - 2) r'"]) auto
    qed
  qed
qed

lemma read_action_no_panic:
  assumes "close_ok d inp"
  shows "read_action d buf inp \<noteq> Inl (GoPanic m) \<and>
    (\<forall>s rest. read_action d buf inp = Inr (s, rest) \<longrightarrow> close_ok 0 rest)"
  using assms
proof (induction "length inp" arbitrary: d buf inp rule: less_induct)
  case less
  show ?case
  proof (cases "read_rune inp")
    case None
    then have "inp = []" by (simp add: read_rune_def split: if_splits)
    then show ?thesis by (simp add: read_action_end at_eof_def)
  next
    case (Some p)
    then obtain ch t where rr: "read_rune inp = Some (ch, t)" by (cases p) auto
    note IH = less.hyps[OF read_rune_shrinks[OF rr]]
    from read_rune_bytes[OF rr] show ?thesis
    proof (elim disjE exE conjE)
      fix c assume c: "ch = [c]" "inp = c # t" "byte c < 128"
      show ?thesis
      proof (cases "c = CHR ''('' \<or> c = CHR '')''")
        case True
        with less.prems c IH[of "Suc d"] IH[of "d - 1"] show ?thesis
          unfolding read_action_step[OF rr] by auto
      next
        case False
        with less.prems c have "close_ok d t" by simp
        with False c IH[OF this] show ?thesis
          unfolding read_action_step[OF rr] at_eof_def by auto
      qed
    next
      fix u c ch' assume u: "inp = u @ t" "\<forall>d \<in> set u. 128 \<le> byte d" "ch = c # ch'" "128 \<le> byte c"
      have "close_ok d t"
        using less.prems u(1,2) close_ok_skip[of u d t] by (fastforce simp: byte_def)
      moreover have "ch \<noteq> '',''" "ch \<noteq> [CHR 0x00]" "ch \<noteq> ''(''" "ch \<noteq> '')''"
        using u(3,4) by (auto simp: byte_def)
      ultimately show ?thesis
        unfolding read_action_step[OF rr] using IH[of d] by simp
    qed
  qed
qed

lemma Parse_close_ok:
  "close_ok 0 inp \<Longrightarrow> Parse inp \<noteq> Inl (GoPanic m)"
proof (induction inp rule: Parse.induct)
  case (1 inp)
  note np = read_action_no_panic[OF "1.prems", of "[]"]
  show ?case
  proof (cases "actionParser_parseAction inp")
    case (Inl e)
    then have "e \<noteq> GoPanic m"
      using np parseAction_no_panic
      by (auto simp: actionParser_parseAction_def split: sum.splits prod.splits)
    with Inl show ?thesis by (subst Parse.simps) auto
  next
    case (Inr x)
    obtain a s rest where x: "x = (a, s, rest)" by (cases x)
    with Inr np have "close_ok 0 rest"
      by (auto simp: actionParser_parseAction_def split: sum.splits prod.splits)
    from "1.IH"[OF Inr x[symmetric] refl this] Inr x show ?thesis
      by (subst Parse.simps) (auto split: sum.splits)
  qed
qed

lemma read_action_unmatched:
  "depth_ok d s \<Longrightarrow> read_action d buf (s @ CHR '')'' # rest) = Inl (GoPanic ''slice bounds out of range'')"
proof (induction d s arbitrary: buf rule: depth_ok.induct)
  case (1 d)
  have "read_rune (CHR '')'' # rest) = Some ('')'', rest)" by (rule read_rune_ascii) (simp add: byte_def)
  with 1 show ?case by (simp add: read_action_step)
next
  case (2 d c s)
  then have "read_rune (c # s @ CHR '')'' # rest) = Some ([c], s @ CHR '')'' # rest)" by simp
  with 2 show ?case by (cases "d = 0") (auto simp: read_action_step split: if_splits)
qed

lemma Parse_unmatched:
  "depth_ok 0 s \<Longrightarrow> Parse (s @ CHR '')'' # rest) = Inl (GoPanic ''slice bounds out of range'')"
  by (subst Parse.simps) (simp add: actionParser_parseAction_def read_action_unmatched)

end
