(* ===== verification/ActionProps.thy ===== *)
theory ActionProps
  imports ActionRoundtrip
begin

text \<open>The properties of the parser of actions, \<open>ovs/actionparser.go\<close>, with the texts of \<open>ovs/action.go\<close>.\<close>

text \<open>
  C10.  A list of actions in canonical form is printed without an error, and the parser reads the texts joined with
  commas as the same actions, with the text of each; the actions with commas of their own inside
  parentheses included.
\<close>

theorem actions_round_trip:
  assumes "list_all canonical_action as"
  shows "\<exists>ss. marshalActions as = Inr ss \<and> length ss = length as \<and> Parse (join '','' ss) = Inr (as, ss)"
  using canonical_actions_read_back[OF assms] by metis

lemma actions_round_trip_witness:
  "\<exists>ss. marshalActions [Resubmit 1 2, ConnectionTracking ''commit,exec(load:1)'', Output 3] = Inr ss \<and> length ss = 3 \<and>
     Parse (join '','' ss) = Inr ([Resubmit 1 2, ConnectionTracking ''commit,exec(load:1)'', Output 3], ss)"
  using actions_round_trip[of "[Resubmit 1 2, ConnectionTracking ''commit,exec(load:1)'', Output 3]"]
  by (simp add: action_constructors int_range_def canonical_arg_def arg_char_def byte_def numeral_3_eq_3)



text \<open>
  C15.  The parser never panics on an input in which no parenthesis is closed that is not open, well formed or not:
  it returns the actions or an error.
\<close>

theorem Parse_never_panics:
  assumes "close_ok 0 inp" shows "Parse inp \<noteq> Inl (GoPanic m)"
  using assms by (rule Parse_close_ok)

lemma Parse_never_panics_witness: "Parse ''ct((,output:'' \<noteq> Inl (GoPanic ''slice bounds out of range'')"
  by (rule Parse_never_panics) simp

text \<open>
  A closing parenthesis that nothing opened, after balanced text, pops the empty stack: the parser
  panics instead of returning an error.
\<close>

theorem Parse_panics_on_unmatched:
  assumes "depth_ok 0 s" shows "Parse (s @ '')'' @ rest) = Inl (GoPanic ''slice bounds out of range'')"
  using Parse_unmatched[OF assms] by simp

lemma Parse_panics_on_unmatched_witness: "Parse ''output:1)'' = Inl (GoPanic ''slice bounds out of range'')"
  using Parse_panics_on_unmatched[of "''output:1''" "[]"] by (simp add: byte_def)

text \<open>
  The parser takes an action whose operand is missing for the end of its input: it returns without an error, and
  the actions after it are lost.
\<close>

theorem Parse_stops_at_missing_operand:
  assumes "depth_ok 0 s" and "parseAction s = Inl EOF"
  shows "Parse (s @ '','' @ rest) = Inr ([], [])"
proof -
  have "read_action 0 [] (s @ CHR '','' # rest) = Inr (s, rest)"
    using read_action_text[OF assms(1), of "[]"] by simp
  with assms(2) show ?thesis by (subst Parse.simps) (simp add: actionParser_parseAction_def)
qed

lemma Parse_stops_at_missing_operand_witness: "Parse ''mod_dl_dst:,drop'' = Inr ([], [])"
proof -
  have "parseAction ''mod_dl_dst:'' = Inl EOF"
    by (simp add: parse_simps scan_lit_string_def skip_space.simps)
  from Parse_stops_at_missing_operand[OF _ this, of "''drop''"] show ?thesis by (simp add: byte_def)
qed

text \<open>
  The action \<open>All\<close> is printed as a text the parser does not know.
\<close>

theorem All_not_parsed:
  "action_MarshalText All = Inr ''all'' \<and> parseAction ''all'' = Inl (ErrNoActionMatched ''all'')"
proof -
  have "re_find resubmitRe actionAll = None" "re_find ctRe actionAll = None"
    unfolding resubmitRe_def ctRe_def by (rule re_find_no_char[where c = "CHR ''(''"]; simp)+
  moreover have "re_find resubmitPortRe actionAll = None" "re_find loadRe actionAll = None"
    "re_find moveRe actionAll = None" "re_find setFieldRe actionAll = None"
    unfolding resubmitPortRe_def loadRe_def moveRe_def setFieldRe_def
    by (rule re_find_no_char[where c = "CHR '':''"]; simp)+
  ultimately show ?thesis
    by (simp add: action_MarshalText_defs action_constructors parseAction_defs simple_action_def
        to_lower_char_def byte_def Let_def has_prefix_def)
qed

end
