(* ===== verification/ActionReader.thy ===== *)
theory ActionReader
  imports ActionRoundtrip
begin

text \<open>
  The parser of \<open>ovs/actionparser.go\<close> with its state, as the methods of \<open>actionParser\<close> change it: the reader and
  the stack, which the parser keeps from one action to the next.  Theory \<open>ActionParser\<close> has the same parser without
  the state; the theory shows that it is the same, for the stack is empty whenever an action was read.  Then it says
  what the parser does with an input without speaking of its loop: which inputs it reads, as which actions.
\<close>

section \<open>The stack\<close>

text \<open>A stack of values of the empty struct.  The slice expression of \<open>pop\<close> panics when the stack is empty.\<close>

(* src: ovs/actionparser.go type stack *)
type_synonym stack = "unit list"

(* src: ovs/actionparser.go func stack.len *)
definition stack_len :: "stack \<Rightarrow> nat" where
  "stack_len s = length s"

(* src: ovs/actionparser.go func stack.push *)
definition stack_push :: "stack \<Rightarrow> stack" where
  "stack_push s = s @ [()]"

(* src: ovs/actionparser.go func stack.pop *)
definition stack_pop :: "stack \<Rightarrow> stack result" where
  "stack_pop s =
     (if stack_len s = 0 then Inl (GoPanic ''slice bounds out of range'') else Inr (take (stack_len s - 1) s))"

section \<open>The parser\<close>

(* src: ovs/actionparser.go type actionParser *)
record actionParser =
  ap_r :: string
  ap_s :: stack

(* src: ovs/actionparser.go func newActionParser *)
definition newActionParser :: "string \<Rightarrow> actionParser" where
  "newActionParser r = \<lparr>ap_r = r, ap_s = []\<rparr>"

(* src: ovs/actionparser.go 43-44 eof *)
definition eof :: string where
  "eof = [CHR 0x00]"

(* src: ovs/actionparser.go func actionParser.read *)
definition parser_read :: "actionParser \<Rightarrow> string \<times> actionParser" where
  "parser_read p =
     (case read_rune (ap_r p) of
        None \<Rightarrow> (eof, p)
      | Some (ch, rest) \<Rightarrow> (ch, p\<lparr>ap_r := rest\<rparr>))"

lemma parser_read_shrinks:
  "parser_read p = (ch, q) \<Longrightarrow> ch \<noteq> eof \<Longrightarrow> length (ap_r q) < length (ap_r p)"
  by (auto simp: parser_read_def split: option.splits dest: read_rune_shrinks)

text \<open>The loop of \<open>parseAction\<close>: the text in the buffer and the parser when the loop ends.\<close>

(* src: ovs/actionparser.go 86-116 actionParser.parseAction: the loop *)
function parser_loop :: "actionParser \<Rightarrow> string \<Rightarrow> (string \<times> actionParser) result" where
  "parser_loop p buf =
     (let (ch, q) = parser_read p in
      if ch = '','' \<and> stack_len (ap_s q) = 0 then Inr (buf, q)
      else if ch = eof then (if length buf = 0 then Inl EOF else Inr (buf, q))
      else if ch = ''('' then parser_loop (q\<lparr>ap_s := stack_push (ap_s q)\<rparr>) (buf @ ch)
      else if ch = '')'' then
        (case stack_pop (ap_s q) of
           Inl err \<Rightarrow> Inl err
         | Inr s \<Rightarrow> parser_loop (q\<lparr>ap_s := s\<rparr>) (buf @ ch))
      else parser_loop q (buf @ ch))"
  by pat_completeness auto
termination
  by (relation "measure (\<lambda>(p, buf). length (ap_r p))") (auto dest: parser_read_shrinks[OF sym])

declare parser_loop.simps [simp del]

(* src: ovs/actionparser.go func actionParser.parseAction *)
definition parser_parseAction :: "actionParser \<Rightarrow> (action \<times> string \<times> actionParser) result" where
  "parser_parseAction p =
     (case parser_loop p [] of
        Inl err \<Rightarrow> Inl err
      | Inr (s, q) \<Rightarrow>
          if stack_len (ap_s q) > 0 then Inl (ErrInvalidAction s)
          else (case parseAction s of Inl err \<Rightarrow> Inl err | Inr act \<Rightarrow> Inr (act, s, q)))"

text \<open>The loop without the state counts the open parentheses.\<close>

definition loop_result :: "(string \<times> actionParser) result \<Rightarrow> (string \<times> string) result" where
  "loop_result r =
     (case r of
        Inl err \<Rightarrow> Inl err
      | Inr (s, q) \<Rightarrow> if stack_len (ap_s q) > 0 then Inl (ErrInvalidAction s) else Inr (s, ap_r q))"

lemma parser_loop_read_action:
  "loop_result (parser_loop p buf) = read_action (stack_len (ap_s p)) buf (ap_r p)"
proof (induction p buf rule: parser_loop.induct)
  case (1 p buf)
  show ?case
  proof (cases "read_rune (ap_r p)")
    case None
    moreover from this have "ap_r p = []" by (simp add: read_rune_def split: if_splits)
    ultimately show ?thesis
      by (subst parser_loop.simps, subst read_action.simps)
        (simp add: parser_read_def at_eof_def loop_result_def eof_def)
  next
    case (Some c)
    then obtain ch t where c: "read_rune (ap_r p) = Some (ch, t)" by (cases c) auto
    then have r: "parser_read p = (ch, p\<lparr>ap_r := t\<rparr>)" by (simp add: parser_read_def)
    note IH = "1.IH"[OF r[symmetric] refl]
    show ?thesis
      by (subst parser_loop.simps, subst read_action_step[OF c])
        (use IH in \<open>auto simp: r at_eof_def loop_result_def eof_def stack_len_def stack_push_def stack_pop_def\<close>)
  qed
qed

text \<open>The reader never grows, so the loop over the actions ends.\<close>

lemma parser_loop_shrinks:
  "parser_loop p buf = Inr (s, q) \<Longrightarrow> stack_len (ap_s q) = 0 \<Longrightarrow>
     length (ap_r q) < length (ap_r p) \<or> ap_r p = [] \<and> ap_r q = []"
  using parser_loop_read_action[of p buf]
    read_action_shrinks[of "stack_len (ap_s p)" buf "ap_r p" s "ap_r q"]
  by (simp add: loop_result_def)

lemma parser_parseAction_stateless:
  assumes "ap_s p = []"
  shows "parser_parseAction p =
     (case actionParser_parseAction (ap_r p) of
        Inl err \<Rightarrow> Inl err
      | Inr (act, s, rest) \<Rightarrow> Inr (act, s, \<lparr>ap_r = rest, ap_s = []\<rparr>))"
  using parser_loop_read_action[of p "[]"] assms
  by (cases "parser_loop p []")
    (auto simp: parser_parseAction_def actionParser_parseAction_def loop_result_def stack_len_def
      split: sum.splits if_splits)

lemma parser_parseAction_shrinks:
  assumes "parser_parseAction p = Inr (act, s, q)"
  shows "length (ap_r q) < length (ap_r p)"
proof -
  from assms have q: "parser_loop p [] = Inr (s, q)" "stack_len (ap_s q) = 0"
    by (auto simp: parser_parseAction_def split: sum.splits if_splits)
  then have "ap_r p \<noteq> []" by (auto simp: parser_loop.simps[of p] parser_read_def eof_def)
  with parser_loop_shrinks[OF q] show ?thesis by blast
qed

(* src: ovs/actionparser.go func actionParser.Parse *)
function parser_Parse :: "actionParser \<Rightarrow> (action list \<times> string list) result" where
  "parser_Parse p =
     (case parser_parseAction p of
        Inl err \<Rightarrow> if err = EOF then Inr ([], []) else Inl err
      | Inr (a, r, q) \<Rightarrow>
          (case parser_Parse q of
             Inl err \<Rightarrow> Inl err
           | Inr (actions, raw) \<Rightarrow> Inr (a # actions, r # raw)))"
  by pat_completeness auto
termination
  by (relation "measure (length \<circ> ap_r)") (auto dest: parser_parseAction_shrinks)

declare parser_Parse.simps [simp del]

text \<open>The parser with its state reads what the functions on the input read.\<close>

lemma parser_Parse_stateless: "ap_s p = [] \<Longrightarrow> parser_Parse p = Parse (ap_r p)"
proof (induction p rule: parser_Parse.induct)
  case (1 p)
  note step = parser_parseAction_stateless[OF "1.prems"]
  show ?case
  proof (cases "actionParser_parseAction (ap_r p)")
    case (Inl err)
    then show ?thesis by (simp add: parser_Parse.simps[of p] Parse.simps[of "ap_r p"] step)
  next
    case (Inr r)
    then obtain a s rest where "actionParser_parseAction (ap_r p) = Inr (a, s, rest)" by (cases r) auto
    with step "1.IH" show ?thesis by (simp add: parser_Parse.simps[of p] Parse.simps[of "ap_r p"])
  qed
qed

lemma parser_refines_Parse: "parser_Parse (newActionParser inp) = Parse inp"
  using parser_Parse_stateless[of "newActionParser inp"] by (simp add: newActionParser_def)

section \<open>The texts of an input\<close>

text \<open>
  The specification counts characters.  The depth at a position is the number of parentheses opened before it and not
  closed; the text of an action is never below depth 0, ends there, and has its commas at a greater depth.
\<close>

definition depth_at :: "nat \<Rightarrow> string \<Rightarrow> int" where
  "depth_at k s = int (count_list (take k s) (CHR ''('')) - int (count_list (take k s) (CHR '')''))"

definition action_text :: "string \<Rightarrow> bool" where
  "action_text s \<longleftrightarrow>
     (\<forall>k\<le>length s. 0 \<le> depth_at k s) \<and> depth_at (length s) s = 0 \<and>
     (\<forall>k<length s. s ! k = CHR '','' \<longrightarrow> 0 < depth_at k s)"

definition ascii_text :: "string \<Rightarrow> bool" where
  "ascii_text s \<longleftrightarrow> list_all (\<lambda>c. byte c < 128 \<and> c \<noteq> CHR 0x00) s"

text \<open>
  What the texts \<open>raw\<close> make of the input: all of it, separated by commas; or each with a comma behind it, and then
  nothing, or a text whose operand is missing, where the parser stops.
\<close>

definition stops_at :: "string \<Rightarrow> bool" where
  "stops_at inp \<longleftrightarrow>
     inp = [] \<or> (\<exists>s u. action_text s \<and> parseAction s = Inl EOF \<and> (inp = s \<or> inp = s @ CHR '','' # u))"

definition splits_into :: "string \<Rightarrow> string list \<Rightarrow> bool" where
  "splits_into inp raw \<longleftrightarrow>
     raw \<noteq> [] \<and> inp = join '','' raw \<or> (\<exists>rest. inp = concat (map (\<lambda>s. s @ '','') raw) @ rest \<and> stops_at rest)"

text \<open>The texts that the loop reads, with the open parentheses counted on the way, are these.\<close>

lemma depth_at_Cons:
  "depth_at 0 s = 0"
  "depth_at (Suc k) (c # s) = (if c = CHR ''('' then 1 else if c = CHR '')'' then - 1 else 0) + depth_at k s"
  by (auto simp: depth_at_def)

lemma all_le_Suc: "(\<forall>k\<le>Suc n. P k) \<longleftrightarrow> P 0 \<and> (\<forall>k\<le>n. P (Suc k))"
  by (metis Suc_le_mono not0_implies_Suc zero_le)

lemma depth_ok_depth_at:
  "depth_ok d s \<longleftrightarrow> ascii_text s \<and> (\<forall>k\<le>length s. 0 \<le> int d + depth_at k s) \<and> int d + depth_at (length s) s = 0 \<and>
     (\<forall>k<length s. s ! k = CHR '','' \<longrightarrow> 0 < int d + depth_at k s)"
proof (induction s arbitrary: d)
  case Nil
  show ?case by (auto simp: ascii_text_def depth_at_Cons)
next
  case (Cons c s)
  have start: "0 \<le> int e + depth_at 0 s" for e by (simp add: depth_at_Cons)
  have closed: "\<exists>k\<le>length s. depth_at k s - 1 < 0" by (rule exI[of _ 0]) (simp add: depth_at_Cons)
  have shift: "int (Suc d) + x = int d + (1 + x)" "d > 0 \<Longrightarrow> int (d - 1) + x = int d + (- 1 + x)" for x
    by (simp_all add: of_nat_diff)
  show ?case
    using closed
    by (cases "d = 0")
      (auto simp: Cons.IH ascii_text_def all_le_Suc All_less_Suc2 depth_at_Cons shift not_le byte_def split: if_splits)
qed

lemma action_text_depth_ok: "depth_ok 0 s \<longleftrightarrow> ascii_text s \<and> action_text s"
  by (simp add: depth_ok_depth_at action_text_def)

lemma ascii_text_simps [simp]:
  "ascii_text []" "ascii_text (c # s) \<longleftrightarrow> byte c < 128 \<and> c \<noteq> CHR 0x00 \<and> ascii_text s"
  "ascii_text (s @ t) \<longleftrightarrow> ascii_text s \<and> ascii_text t"
  by (simp_all add: ascii_text_def)

text \<open>What the loop over the characters has read when it returns.\<close>

lemma read_action_read:
  assumes "ascii_text inp" and "read_action d buf inp = Inr (s, rest)"
  shows "\<exists>t. s = buf @ t \<and> depth_ok d t \<and> (inp = t @ CHR '','' # rest \<or> inp = t \<and> rest = [] \<and> s \<noteq> [])"
  using assms
proof (induction inp arbitrary: d buf)
  case Nil
  then show ?case by (auto simp: read_action_end at_eof_def split: if_splits)
next
  case (Cons c inp)
  then have rr: "read_rune (c # inp) = Some ([c], inp)" by simp
  have go: "\<exists>t. s = buf @ t \<and> depth_ok d t \<and> (c # inp = t @ CHR '','' # rest \<or> c # inp = t \<and> rest = [] \<and> s \<noteq> [])"
    if e: "read_action e (buf @ [c]) inp = Inr (s, rest)" and d: "\<And>t. depth_ok e t \<Longrightarrow> depth_ok d (c # t)" for e
  proof -
    from Cons.IH[OF _ e] Cons.prems(1) obtain t where
      "s = (buf @ [c]) @ t" "depth_ok e t" "inp = t @ CHR '','' # rest \<or> inp = t \<and> rest = [] \<and> s \<noteq> []" by auto
    then show ?thesis by (intro exI[of _ "c # t"]) (auto simp del: depth_ok.simps intro: d)
  qed
  show ?case
  proof (cases "c = CHR '','' \<and> d = 0")
    case True
    with Cons.prems rr show ?thesis by (intro exI[of _ "[]"]) (simp add: read_action_step)
  next
    case False
    with Cons.prems rr show ?thesis
      using go[of "Suc d"] go[of "d - 1"] go[of d] by (auto simp: read_action_step split: if_splits)
  qed
qed

lemma read_action_eof:
  assumes "ascii_text inp" and "read_action d buf inp = Inl EOF"
  shows "inp = [] \<and> buf = []"
  using assms
proof (induction inp arbitrary: d buf)
  case Nil
  then show ?case by (auto simp: read_action_end at_eof_def split: if_splits)
next
  case (Cons c inp)
  then have "read_rune (c # inp) = Some ([c], inp)" by simp
  with Cons show ?case by (auto simp: read_action_step split: if_splits)
qed

lemma parseAction_Nil: "parseAction [] = Inl (ErrNoActionMatched [])"
  by (simp add: parseAction_defs simple_action_def Let_def has_prefix_def re_find_None resubmitRe_def resubmitPortRe_def
      ctRe_def loadRe_def moveRe_def setFieldRe_def)

lemma Parse_stops: "ascii_text inp \<Longrightarrow> stops_at inp \<Longrightarrow> Parse inp = Inr ([], [])"
proof (cases "inp = []")
  case False
  assume "ascii_text inp" "stops_at inp"
  with False obtain s u where "action_text s" "parseAction s = Inl EOF" "inp = s \<or> inp = s @ CHR '','' # u"
    unfolding stops_at_def by blast
  with \<open>ascii_text inp\<close> have s: "depth_ok 0 s" "parseAction s = Inl EOF" "inp = s \<or> inp = s @ CHR '','' # u"
    by (auto simp: action_text_depth_ok)
  then have "s \<noteq> []" using parseAction_Nil by auto
  with s read_action_text[OF s(1), of "[]" u] read_action_last[OF s(1), of "[]"]
  obtain rest where "read_action 0 [] inp = Inr (s, rest)" by auto
  with s(2) show ?thesis by (subst Parse.simps) (simp add: actionParser_parseAction_def)
qed (simp add: Parse_Nil)

lemma Parse_splits_into:
  assumes "ascii_text inp" and "splits_into inp raw"
    and "list_all2 (\<lambda>s a. action_text s \<and> parseAction s = Inr a) raw as"
  shows "Parse inp = Inr (as, raw)"
proof (cases "raw \<noteq> [] \<and> inp = join '','' raw")
  case True
  have "ascii_text (join '','' ss) \<Longrightarrow> \<forall>s\<in>set ss. ascii_text s" for ss
    by (induction ss) (auto simp: join_Cons split: if_splits)
  with True assms(1) have "\<forall>s\<in>set raw. ascii_text s" by blast
  moreover have "s \<noteq> []" if "parseAction s = Inr a" for s a
    using that parseAction_Nil by auto
  ultimately have "list_all2 (\<lambda>s a. depth_ok 0 s \<and> s \<noteq> [] \<and> parseAction s = Inr a) raw as"
    using assms(3) by (fastforce simp: action_text_depth_ok list_all2_iff dest: set_zip_leftD)
  then show ?thesis using True by (simp add: Parse_join_aux)
next
  case False
  with assms(2) obtain rest where "inp = concat (map (\<lambda>s. s @ '','') raw) @ rest" "stops_at rest"
    by (auto simp: splits_into_def)
  with assms(1,3) show ?thesis
  proof (induction raw arbitrary: inp as)
    case Nil
    then show ?case by (simp add: Parse_stops)
  next
    case (Cons s raw)
    then obtain a as' where as: "as = a # as'" and s: "parseAction s = Inr a" "action_text s" "ascii_text s"
      by (auto simp: list_all2_Cons1)
    let ?t = "concat (map (\<lambda>s. s @ '','') raw) @ rest"
    have "read_action 0 [] (s @ CHR '','' # ?t) = Inr (s, ?t)"
      using read_action_text[of 0 s "[]" ?t] s by (simp add: action_text_depth_ok)
    moreover have "Parse ?t = Inr (as', raw)" using Cons as by (intro Cons.IH) auto
    ultimately show ?case using Parse_step[of inp s ?t a] Cons.prems s as by simp
  qed
qed

lemma Parse_read_splits:
  assumes "ascii_text inp" and "Parse inp = Inr (as, raw)"
  shows "list_all2 (\<lambda>s a. action_text s \<and> parseAction s = Inr a) raw as \<and> splits_into inp raw"
  using assms
proof (induction "length inp" arbitrary: inp as raw rule: less_induct)
  case less
  show ?case
  proof (cases "read_action 0 [] inp")
    case (Inl err)
    with less.prems have "err = EOF" "as = []" "raw = []"
      by (subst (asm) Parse.simps; auto simp: actionParser_parseAction_def split: if_splits)+
    with less.prems Inl read_action_eof[of inp 0 "[]"] show ?thesis by (simp add: splits_into_def stops_at_def)
  next
    case (Inr r)
    then obtain s rest where r: "read_action 0 [] inp = Inr (s, rest)" by (cases r) auto
    from read_action_read[OF less.prems(1) r] have s: "action_text s" "ascii_text s"
      "inp = s @ CHR '','' # rest \<or> inp = s \<and> rest = [] \<and> s \<noteq> []" by (auto simp: action_text_depth_ok)
    show ?thesis
    proof (cases "parseAction s")
      case (Inl err)
      with less.prems r have "err = EOF" "as = []" "raw = []"
        by (subst (asm) Parse.simps; auto simp: actionParser_parseAction_def split: if_splits)+
      with s Inl show ?thesis by (auto simp: splits_into_def stops_at_def)
    next
      case (Inr a)
      with less.prems r Parse_step[OF r] obtain as' raw' where
        p: "Parse rest = Inr (as', raw')" "as = a # as'" "raw = s # raw'" by (auto split: sum.splits prod.splits)
      have IH: "list_all2 (\<lambda>s a. action_text s \<and> parseAction s = Inr a) raw' as' \<and> splits_into rest raw'"
        using s less.prems(1) p(1) by (intro less.hyps) auto
      have "splits_into inp raw"
      proof (cases "inp = s @ CHR '','' # rest")
        case True
        then show ?thesis using IH p(3) by (auto simp: splits_into_def join_Cons)
      next
        case False
        with s p(1) have "inp = s" "raw' = []" by (auto simp: Parse_Nil)
        then show ?thesis using p(3) by (simp add: splits_into_def)
      qed
      with IH p s Inr show ?thesis by simp
    qed
  qed
qed

text \<open>
  C32.  On an ASCII input without NUL the parser, with its reader and its stack, returns actions and raw texts exactly
  when the raw texts are what the commas at depth 0 separate: each with its parentheses matched and no comma outside of
  them, each read as its action, and nothing of the input left over.  A comma may stand at the end, and the parser
  stops at the first text whose operand is missing; every other input, and so every one with a parenthesis that is
  not matched before that, is refused.
\<close>

theorem parser_splits_input:
  assumes "ascii_text inp"
  shows "parser_Parse (newActionParser inp) = Inr (as, raw) \<longleftrightarrow>
    list_all2 (\<lambda>s a. action_text s \<and> parseAction s = Inr a) raw as \<and> splits_into inp raw"
  unfolding parser_refines_Parse using Parse_splits_into Parse_read_splits assms by blast

lemma action_text_eval: "action_text s \<longleftrightarrow> depth_ok 0 s" if "ascii_text s"
  using that by (simp add: action_text_depth_ok)

lemma parser_splits_input_witness:
  "parser_Parse (newActionParser ''drop,resubmit(,1),'') = Inr ([Drop, Resubmit 0 1], [''drop'', ''resubmit(,1)'']) \<and>
   parser_Parse (newActionParser ''drop,mod_dl_dst:,resubmit(,1)'') = Inr ([Drop], [''drop'']) \<and>
   parser_Parse (newActionParser ''drop,resubmit((,1)'') \<noteq> Inr ([Drop, Resubmit 0 1], [''drop'', ''resubmit((,1)''])"
proof -
  have a: "parseAction ''drop'' = Inr Drop"
    by (simp add: parseAction_defs simple_action_def action_constructors to_lower_char_def byte_def Let_def)
  moreover have "parseAction ''resubmit(,1)'' = Inr (Resubmit 0 1)"
    using action_resubmit_reads_back[of 0 1]
    by (simp add: action_reads_back_def action_MarshalText_defs Resubmit_def int_range_def print_eval)
  moreover have "parseAction ''mod_dl_dst:'' = Inl EOF"
    by (simp add: parse_simps scan_lit_string_def skip_space.simps)
  moreover have "splits_into ''drop,resubmit(,1),'' [''drop'', ''resubmit(,1)'']"
    by (simp add: splits_into_def stops_at_def)
  moreover have "splits_into ''drop,mod_dl_dst:,resubmit(,1)'' [''drop'']"
    using \<open>parseAction ''mod_dl_dst:'' = Inl EOF\<close> unfolding splits_into_def stops_at_def
    by (intro disjI2 exI[of _ "''mod_dl_dst:,resubmit(,1)''"] conjI exI[of _ "''mod_dl_dst:''"] exI[of _ "''resubmit(,1)''"])
      (simp_all add: action_text_eval byte_def)
  ultimately show ?thesis
    using parser_splits_input[of "''drop,resubmit(,1),''" "[Drop, Resubmit 0 1]" "[''drop'', ''resubmit(,1)'']"]
      parser_splits_input[of "''drop,mod_dl_dst:,resubmit(,1)''" "[Drop]" "[''drop'']"]
      parser_splits_input[of "''drop,resubmit((,1)''" "[Drop, Resubmit 0 1]" "[''drop'', ''resubmit((,1)'']"]
    by (simp add: action_text_eval byte_def)
qed

end
