(* ===== verification/StatsProps.thy ===== *)
theory StatsProps
  imports Stats
begin

text \<open>
  The properties of \<open>ovs/portstats.go\<close>, \<open>ovs/table.go\<close> and \<open>ovs/flowstats.go\<close>: what is printed
  in the documented form is read as the values printed, and which texts of a table make the code panic.
\<close>

section \<open>Words between blanks\<close>

definition word :: "string \<Rightarrow> bool" where
  "word s \<longleftrightarrow> s \<noteq> [] \<and> (\<forall>c \<in> set s. byte c < 128 \<and> \<not> ascii_space c)"

text \<open>Words, each with at least one blank before it.\<close>

definition spaced :: "nat list \<Rightarrow> string list \<Rightarrow> string" where
  "spaced ns ws = concat (map2 (\<lambda>n w. replicate (Suc n) (CHR '' '') @ w) ns ws)"

lemma fields_blanks: "fields_aux None (replicate n (CHR '' '') @ s) = fields_aux None s"
  by (induction n) (simp_all add: space_len.simps ascii_space_def)

lemma fields_word:
  "\<forall>c \<in> set w. byte c < 128 \<and> \<not> ascii_space c \<Longrightarrow> fields_aux (Some f) (w @ s) = fields_aux (Some (f @ w)) s"
  by (induction w arbitrary: f) auto

lemma fields_one:
  assumes "word w" and "s = [] \<or> hd s = CHR '' ''"
  shows "fields_aux None (w @ s) = w # fields_aux None s"
proof -
  obtain c v where w: "w = c # v" using assms(1) by (cases w) (auto simp: word_def)
  have "fields_aux None (w @ s) = fields_aux (Some w) s"
    using assms(1) fields_word[of v "[c]" s] by (simp add: w word_def)
  also have "\<dots> = w # fields_aux None s"
    using assms(2) by (cases s) (simp_all add: space_len.simps ascii_space_def)
  finally show ?thesis .
qed

lemma Fields_spaced:
  assumes "list_all word ws" and "length ns = length ws"
  shows "Fields (spaced ns ws) = ws"
  using assms(2,1)
proof (induction ns ws rule: list_induct2)
  case (Cons n ns w ws)
  have "spaced ns ws = [] \<or> hd (spaced ns ws) = CHR '' ''"
    by (cases ns; cases ws) (simp_all add: spaced_def)
  with Cons fields_one[of w "spaced ns ws"] show ?case
    using fields_blanks[of "Suc n" "w @ spaced ns ws"] by (simp add: Fields_def spaced_def)
qed (simp add: Fields_def spaced_def)

section \<open>Counters\<close>

text \<open>A counter as it is printed: a question mark where the switch does not know it.\<close>

definition counter_text :: "uint64 option \<Rightarrow> string" where
  "counter_text c = (case c of None \<Rightarrow> ''?'' | Some n \<Rightarrow> dec n)"

definition counter_value :: "uint64 option \<Rightarrow> uint64" where
  "counter_value c = (case c of None \<Rightarrow> 0 | Some n \<Rightarrow> n)"

lemma counter_chars: "c \<in> set (counter_text n) \<Longrightarrow> is_digit c \<or> c = CHR ''?''"
  by (auto simp: counter_text_def split: option.splits dest: dec_chars)

lemma counter_plain: "\<forall>c \<in> set (counter_text n). byte c < 128 \<and> \<not> ascii_space c"
  by (auto dest!: counter_chars simp: is_digit_def ascii_space_def byte_def)

lemma counter_no: "CHR ''='' \<notin> set (counter_text n)" "CHR '','' \<notin> set (counter_text n)"
  by (auto dest!: counter_chars simp: is_digit_def byte_def)

lemma split_counter:
  "CHR ''='' \<notin> set k \<Longrightarrow> split ''='' (k @ CHR ''='' # counter_text n) = [k, counter_text n]"
  using counter_no(1)[of n] by (simp add: split_char_append split_char_no_sep)

lemma dec_not_mark: "dec w \<noteq> ''?''"
proof
  assume "dec w = ''?''"
  then have "CHR ''?'' \<in> set (dec w)" by simp
  then show False by (auto dest!: dec_chars simp: is_digit_def byte_def)
qed

lemma trim_comma [simp]: "trim_suffix (s @ '','') '','' = s"
  by (simp add: trim_suffix_def)

lemma trim_counter [simp]: "trim_suffix (k @ CHR ''='' # counter_text n) '','' = k @ CHR ''='' # counter_text n"
proof -
  have "CHR '','' \<notin> set (CHR ''='' # counter_text n)" using counter_no(2) by simp
  then have "last (CHR ''='' # counter_text n) \<noteq> CHR '',''" by (metis last_in_set list.distinct(1))
  then have "last (k @ CHR ''='' # counter_text n) \<noteq> CHR '',''" by simp
  then have "\<not> suffix '','' (k @ CHR ''='' # counter_text n)" by (metis last_snoc suffix_def)
  then show ?thesis by (simp add: trim_suffix_def)
qed

lemma port_counter:
  assumes "CHR ''='' \<notin> set k" and "sep = [] \<or> sep = '',''"
  shows "port_counters dir out ((k @ CHR ''='' # counter_text n @ sep) # ss) =
    port_counters dir (out(dir := (out dir)(k := counter_value n))) ss"
proof -
  have t: "trim_suffix (k @ CHR ''='' # counter_text n @ sep) '','' = k @ CHR ''='' # counter_text n"
    using assms(2) trim_comma[of "k @ CHR ''='' # counter_text n"] trim_counter[of k n] by auto
  have "CHR ''='' \<in> set (k @ CHR ''='' # counter_text n)" by simp
  then have "k @ CHR ''='' # counter_text n \<noteq> ''rx''" "k @ CHR ''='' # counter_text n \<noteq> ''tx''"
    by (auto simp del: set_append)
  then have "port_counters dir out ((k @ CHR ''='' # counter_text n @ sep) # ss) =
      (if counter_text n = ''?'' then port_counters dir (out(dir := (out dir)(k := 0))) ss
       else (case ParseUint (counter_text n) 10 64 of
               Inl err \<Rightarrow> Inl err
             | Inr i \<Rightarrow> port_counters dir (out(dir := (out dir)(k := word_of_nat i))) ss))"
    using split_counter[OF assms(1), of n] by (simp add: t split: sum.split)
  then show ?thesis
    by (cases n) (simp_all add: counter_text_def counter_value_def ParseUint_dec dec_not_mark del: port_counters.simps)
qed

section \<open>Ports\<close>

text \<open>The words of the two lines of a port, \<open>LOCAL\<close> for the port of the bridge itself.\<close>

definition port_words :: "int \<Rightarrow> uint64 option list \<Rightarrow> uint64 option list \<Rightarrow> string list" where
  "port_words i rx tx =
     [''port'', (if i = PortLOCAL then portLOCAL else itoa i) @ '':'', ''rx''] @
     map2 (\<lambda>k n. k @ CHR ''='' # counter_text n @ '','')
       [''pkts'', ''bytes'', ''drop'', ''errs'', ''frame'', ''over''] (take 6 rx) @
     [''crc='' @ counter_text (rx ! 6), ''tx''] @
     map2 (\<lambda>k n. k @ CHR ''='' # counter_text n @ '','')
       [''pkts'', ''bytes'', ''drop'', ''errs''] (take 4 tx) @
     [''coll='' @ counter_text (tx ! 4)]"

definition port_stats :: "int \<Rightarrow> uint64 option list \<Rightarrow> uint64 option list \<Rightarrow> PortStats" where
  "port_stats i rx tx =
     (let r = map counter_value rx; t = map counter_value tx in
      \<lparr>PortID = i,
       Received = \<lparr>RxPackets = r ! 0, RxBytes = r ! 1, RxDropped = r ! 2, RxErrors = r ! 3,
         RxFrame = r ! 4, RxOver = r ! 5, RxCRC = r ! 6\<rparr>,
       Transmitted = \<lparr>TxPackets = t ! 0, TxBytes = t ! 1, TxDropped = t ! 2, TxErrors = t ! 3,
         TxCollisions = t ! 4\<rparr>\<rparr>)"

lemma port_dir: "port_counters dir out (''rx'' # ss) = port_counters ''rx'' out ss"
  "port_counters dir out (''tx'' # ss) = port_counters ''tx'' out ss"
  by (simp_all add: trim_suffix_def suffix_to_prefix)

lemma word_append: "word (k @ w) \<longleftrightarrow> k @ w \<noteq> [] \<and> (\<forall>c \<in> set k. byte c < 128 \<and> \<not> ascii_space c) \<and>
    (\<forall>c \<in> set w. byte c < 128 \<and> \<not> ascii_space c)"
  by (auto simp: word_def)

lemma list5: "length xs = 5 \<Longrightarrow> \<exists>a b c d e. xs = [a, b, c, d, e]"
  and list7: "length xs = 7 \<Longrightarrow> \<exists>a b c d e f g. xs = [a, b, c, d, e, f, g]"
  by (simp_all add: eval_nat_numeral length_Suc_conv) auto

declare port_counters.simps(2) [simp del]

lemmas port_keys =
  port_counter [where k = "''pkts''" and sep = "'',''", simplified]
  port_counter [where k = "''bytes''" and sep = "'',''", simplified]
  port_counter [where k = "''drop''" and sep = "'',''", simplified]
  port_counter [where k = "''errs''" and sep = "'',''", simplified]
  port_counter [where k = "''frame''" and sep = "'',''", simplified]
  port_counter [where k = "''over''" and sep = "'',''", simplified]

lemmas port_last_keys =
  port_counter [where k = "''crc''" and sep = "[]", simplified]
  port_counter [where k = "''coll''" and sep = "[]", simplified]

lemma port_words_read:
  assumes "int_range i" and "length rx = 7" and "length tx = 5" and "Fields s = port_words i rx tx"
  shows "PortStats_UnmarshalText p s = (port_stats i rx tx, None)"
proof -
  from assms(2,3) obtain r0 r1 r2 r3 r4 r5 r6 t0 t1 t2 t3 t4 where
    rx: "rx = [r0, r1, r2, r3, r4, r5, r6]" and tx: "tx = [t0, t1, t2, t3, t4]"
    using list7[of rx] list5[of tx] by blast
  have "itoa i \<noteq> portLOCAL" using itoa_chars[of "CHR ''L''" i] by (auto simp: is_digit_def byte_def)
  moreover have "Atoi (itoa i) = Inr i" using assms(1) by (rule Atoi_itoa)
  moreover have "trim_suffix (t @ '':'') '':'' = t" for t by (simp add: trim_suffix_def)
  moreover have "port_counters [] (\<lambda>dir key. 0) (drop 2 (port_words i rx tx)) =
      Inr (\<lambda>dir key. 
        if dir = ''rx'' then
          (if key = ''pkts'' then counter_value r0 else if key = ''bytes'' then counter_value r1
           else if key = ''drop'' then counter_value r2 else if key = ''errs'' then counter_value r3
           else if key = ''frame'' then counter_value r4 else if key = ''over'' then counter_value r5
           else if key = ''crc'' then counter_value r6 else 0)
        else if dir = ''tx'' then
          (if key = ''pkts'' then counter_value t0 else if key = ''bytes'' then counter_value t1
           else if key = ''drop'' then counter_value t2 else if key = ''errs'' then counter_value t3
           else if key = ''coll'' then counter_value t4 else 0)
        else 0)"
    by (simp add: port_words_def rx tx port_dir port_keys port_last_keys fun_eq_iff)
  ultimately show ?thesis
    using assms(4) by (simp add: PortStats_UnmarshalText_def port_stats_def rx tx port_words_def)
qed

lemma port_words_word:
  assumes "length rx = 7" and "length tx = 5"
  shows "list_all word (port_words i rx tx)" and "length (port_words i rx tx) = 16"
proof -
  have "\<forall>c \<in> set (itoa i). byte c < 128 \<and> \<not> ascii_space c"
    by (auto dest!: itoa_chars simp: is_digit_def ascii_space_def byte_def)
  moreover obtain r0 r1 r2 r3 r4 r5 r6 t0 t1 t2 t3 t4 where
    rx: "rx = [r0, r1, r2, r3, r4, r5, r6]" and tx: "tx = [t0, t1, t2, t3, t4]"
    using list7[OF assms(1)] list5[OF assms(2)] by blast
  ultimately show "list_all word (port_words i rx tx)" "length (port_words i rx tx) = 16"
    using counter_plain by (auto simp: port_words_def word_def ascii_space_def byte_def)
qed

text \<open>
  The two lines of a port that \<open>ovs-ofctl dump-ports\<close> prints, joined, are read as the port and its twelve
  counters, with 0 for a counter the switch does not know, however the words are spaced.
\<close>

theorem PortStats_reads_output:
  assumes "int_range i" and "length rx = 7" and "length tx = 5" and "length ns = 16"
  shows "PortStats_UnmarshalText p (spaced ns (port_words i rx tx)) = (port_stats i rx tx, None)"
  using assms port_words_word[OF assms(2,3), of i] Fields_spaced[of "port_words i rx tx" ns]
  by (intro port_words_read) simp_all

lemma PortStats_reads_output_witness:
  "PortStats_UnmarshalText (port_stats 0 (replicate 7 None) (replicate 5 None)) (spaced (replicate 16 0) (port_words PortLOCAL [Some 1, Some 2, None, Some 0, None, None, None] [Some 5, Some 6, None, None, None])) =
     (port_stats PortLOCAL [Some 1, Some 2, None, Some 0, None, None, None] [Some 5, Some 6, None, None, None], None)"
  by (rule PortStats_reads_output) (simp_all add: PortLOCAL_def int_range_def)

section \<open>Tables\<close>

text \<open>The words of a table; some versions print the colon behind the name as a word of its own.\<close>

definition table_words :: "int \<Rightarrow> string list \<Rightarrow> string \<Rightarrow> uint64 list \<Rightarrow> string list" where
  "table_words i name wild vs =
     (itoa i @ '':'') # name @ [''wild='' @ wild @ '','', ''max='' @ dec (vs ! 0) @ '','', ''active='' @ dec (vs ! 1),
      ''lookup='' @ dec (vs ! 2) @ '','', ''matched='' @ dec (vs ! 3)]"

lemma trim_dec [simp]: "trim_suffix (k @ CHR ''='' # dec (n :: uint64)) '','' = k @ CHR ''='' # dec n"
  using trim_counter[of k "Some n"] by (simp add: counter_text_def)

lemma split_dec: "CHR ''='' \<notin> set k \<Longrightarrow> split ''='' (k @ CHR ''='' # dec (n :: uint64)) = [k, dec n]"
  using split_counter[of k "Some n"] by (simp add: counter_text_def)

lemma table_field_value:
  assumes "CHR ''='' \<notin> set k" and "sep = [] \<or> sep = '',''"
  shows "table_fields (Suc i) t out ((k @ CHR ''='' # dec n @ sep) # ss) = table_fields (Suc (Suc i)) t (out @ [n]) ss"
proof -
  have "trim_suffix (k @ CHR ''='' # dec n @ sep) '','' = k @ CHR ''='' # dec n"
    using assms(2) trim_comma[of "k @ CHR ''='' # dec n"] by auto
  then show ?thesis using split_dec[OF assms(1), of n] by (simp add: Let_def ParseUint_dec)
qed

lemma table_field_wild:
  assumes "CHR ''='' \<notin> set w"
  shows "table_fields 0 t out ((''wild='' @ w @ '','') # ss) = table_fields 1 (t\<lparr>Wild := w\<rparr>) out ss"
proof -
  have "trim_suffix (''wild='' @ w @ '','') '','' = ''wild='' @ w" using trim_comma[of "''wild='' @ w"] by simp
  moreover have "split ''='' (''wild='' @ w) = [''wild'', w]"
    using assms by (simp add: split_char_no_sep)
  ultimately show ?thesis by simp
qed

lemma table_fields_step:
  "table_fields i t out (s # ss) =
     (if length (split ''='' (trim_suffix s '','')) \<noteq> 2 then (t, Inl ErrInvalidTable)
      else if i = 0 then table_fields (Suc i) (t\<lparr>Wild := split ''='' (trim_suffix s '','') ! 1\<rparr>) out ss
      else (case ParseUint (split ''='' (trim_suffix s '','') ! 1) 10 64 of
              Inl err \<Rightarrow> (t, Inl err)
            | Inr n \<Rightarrow> table_fields (Suc i) t (out @ [word_of_nat n]) ss))"
  by (simp add: Let_def)

declare table_fields.simps(2) [simp del]

lemma table_fields_any: "snd (table_fields i t out ss) = snd (table_fields i t' out ss)"
  by (induction ss arbitrary: i t t' out) (simp_all add: table_fields_step split: sum.splits)

lemma table_fields_length:
  "snd (table_fields i t out ss) = Inr vs \<Longrightarrow> length vs = length out + length ss - (if i = 0 \<and> ss \<noteq> [] then 1 else 0)"
  by (induction ss arbitrary: i t out) (auto simp: table_fields_step split: sum.splits if_splits)

lemma table_fields_no_panic: "snd (table_fields i t out ss) \<noteq> Inl (GoPanic m)"
  by (induction ss arbitrary: i t out)
    (auto simp: table_fields_step ParseUint_def num_result_def split: sum.splits num_error.splits if_splits)

text \<open>
  \<open>Table.UnmarshalText\<close> panics on exactly these texts: seven words, the second one without a colon at its end, so that the
  code skips a third word that is a value, with a number for the table and values that can all be read.
\<close>

theorem Table_panic_iff:
  "snd (Table_UnmarshalText t s) = Some (GoPanic m) \<longleftrightarrow>
     m = ''index out of range'' \<and> length (Fields s) = 7 \<and> \<not> has_suffix (Fields s ! 1) '':'' \<and>
     \<not> isl (Atoi (trim_suffix (Fields s ! 0) '':'')) \<and> \<not> isl (snd (table_fields 0 t [] (drop 3 (Fields s))))"
proof (cases "length (Fields s) = 7 \<or> length (Fields s) = 8")
  case False
  then show ?thesis by (auto simp: Table_UnmarshalText_def Let_def)
next
  case len: True
  show ?thesis
  proof (cases "Atoi (trim_suffix (Fields s ! 0) '':'')")
    case (Inl e)
    then have "e \<noteq> GoPanic m" by (auto simp: Atoi_def num_result_def split: sum.splits num_error.splits)
    with Inl len show ?thesis by (auto simp: Table_UnmarshalText_def Let_def)
  next
    case (Inr i)
    define idx where "idx = (if \<not> has_suffix (Fields s ! 1) '':'' then 3 else 2 :: nat)"
    define t1 where "t1 = t\<lparr>ID := i, Name := trim_suffix (Fields s ! 1) '':''\<rparr>"
    have idx: "idx = 3 \<longleftrightarrow> \<not> has_suffix (Fields s ! 1) '':''" "idx = 2 \<or> idx = 3" by (auto simp: idx_def)
    have U: "Table_UnmarshalText t s =
        (case table_fields 0 t1 [] (drop idx (Fields s)) of
           (t2, Inl err) \<Rightarrow> (t2, Some err)
         | (t2, Inr out) \<Rightarrow>
             (let t3 = t2\<lparr>Max := sint (out ! 0), Active := sint (out ! 1)\<rparr> in
              if length out \<le> 2 then (t3, Some (GoPanic ''index out of range''))
              else
                (let t4 = t3\<lparr>Lookup := out ! 2\<rparr> in
                 if length out \<le> 3 then (t4, Some (GoPanic ''index out of range''))
                 else (t4\<lparr>Matched := out ! 3\<rparr>, None))))"
      using len Inr by (auto simp: Table_UnmarshalText_def Let_def t1_def idx_def)
    obtain t2 r where r: "table_fields 0 t1 [] (drop idx (Fields s)) = (t2, r)" by fastforce
    have any: "snd (table_fields 0 t [] (drop 3 (Fields s))) = r" if "idx = 3"
      using table_fields_any[of 0 t "[]" "drop 3 (Fields s)" t1] r that by simp
    show ?thesis
    proof (cases r)
      case (Inl e)
      then have "e \<noteq> GoPanic m" using table_fields_no_panic[of 0 t1 "[]" "drop idx (Fields s)" m] r by auto
      with Inl any show ?thesis using idx by (auto simp: U r)
    next
      case ok: (Inr vs)
      then have "length vs = length (Fields s) - idx - 1"
        using table_fields_length[of 0 t1 "[]" "drop idx (Fields s)" vs] r len by (auto simp: idx_def split: if_splits)
      with ok Inr len any show ?thesis
        using idx by (auto simp: U r Let_def)
    qed
  qed
qed

lemma table_words_read:
  assumes "int_range i" and "CHR ''='' \<notin> set wild" and "length vs = 4" and "\<not> suffix '':'' n"
    and "Fields s = table_words i name wild vs" and "name = [n @ '':''] \<or> name = [n, '':'']"
  shows "Table_UnmarshalText t s =
    (\<lparr>ID = i, Name = n, Wild = wild, Max = sint (vs ! 0), Active = sint (vs ! 1), Lookup = vs ! 2, Matched = vs ! 3\<rparr>, None)"
proof -
  from assms(3) obtain a b c d where vs: "vs = [a, b, c, d]"
    by (auto simp: eval_nat_numeral length_Suc_conv)
  have id: "Atoi (trim_suffix (itoa i @ '':'') '':'') = Inr i"
    using Atoi_itoa[OF assms(1)] by (simp add: trim_suffix_def)
  have fs: "table_fields 0 t [] [''wild='' @ wild @ '','', ''max='' @ dec a @ '','', ''active='' @ dec b,
      ''lookup='' @ dec c @ '','', ''matched='' @ dec d] = (t\<lparr>Wild := wild\<rparr>, Inr [a, b, c, d])" for t
    using table_field_wild[OF assms(2)] table_field_value[of "''max''" "'',''" 0]
      table_field_value[of "''active''" "[]" 1] table_field_value[of "''lookup''" "'',''" 2]
      table_field_value[of "''matched''" "[]" 3]
    by (simp add: eval_nat_numeral)
  from assms(6) show ?thesis
  proof
    assume n: "name = [n @ '':'']"
    have "has_suffix (n @ '':'') '':''" "trim_suffix (n @ '':'') '':'' = n"
      by (simp_all add: has_suffix_def trim_suffix_def)
    with n show ?thesis using assms(5) id fs
      by (simp add: Table_UnmarshalText_def table_words_def vs)
  next
    assume n: "name = [n, '':'']"
    have "\<not> has_suffix n '':''" "trim_suffix n '':'' = n"
      using assms(4) by (simp_all add: has_suffix_def trim_suffix_def)
    with n show ?thesis using assms(5) id fs
      by (simp add: Table_UnmarshalText_def table_words_def vs)
  qed
qed

lemma table_words_word:
  assumes "word n" and "word wild" and "name = [n @ '':''] \<or> name = [n, '':'']"
  shows "list_all word (table_words i name wild vs)"
proof -
  have "\<forall>c \<in> set (itoa i). byte c < 128 \<and> \<not> ascii_space c"
    by (auto dest!: itoa_chars simp: is_digit_def ascii_space_def byte_def)
  moreover have "\<forall>c \<in> set (dec (k :: uint64)). byte c < 128 \<and> \<not> ascii_space c" for k
    by (auto dest!: dec_chars simp: is_digit_def ascii_space_def byte_def)
  ultimately show ?thesis
    using assms by (elim disjE) (simp_all add: table_words_def word_def ascii_space_def byte_def)
qed

text \<open>
  The two lines of a table that \<open>ovs-ofctl dump-tables\<close> prints, joined, are read as the table, in both of the forms the name
  is printed in and however the words are spaced.
\<close>

theorem Table_reads_output:
  assumes "int_range i" and "word n" and "\<not> suffix '':'' n" and "word wild" and "CHR ''='' \<notin> set wild"
    and "length vs = 4" and "name = [n @ '':''] \<or> name = [n, '':'']" and "length ns = length (table_words i name wild vs)"
  shows "Table_UnmarshalText t (spaced ns (table_words i name wild vs)) =
    (\<lparr>ID = i, Name = n, Wild = wild, Max = sint (vs ! 0), Active = sint (vs ! 1), Lookup = vs ! 2, Matched = vs ! 3\<rparr>, None)"
proof -
  have "Fields (spaced ns (table_words i name wild vs)) = table_words i name wild vs"
    using table_words_word[OF assms(2,4,7)] assms(8) by (rule Fields_spaced)
  then show ?thesis using assms by (intro table_words_read)
qed

lemma Table_reads_output_witness:
  "Table_UnmarshalText \<lparr>ID = 1, Name = [], Wild = [], Max = 0, Active = 0, Lookup = 0, Matched = 0\<rparr> (spaced [1, 0, 0, 0, 0, 5, 0] (table_words 0 [''classifier:''] ''0x3fffff'' [1000000, 0, 7, 3])) =
    (\<lparr>ID = 0, Name = ''classifier'', Wild = ''0x3fffff'', Max = 1000000, Active = 0, Lookup = 7, Matched = 3\<rparr>, None)"
  using Table_reads_output[of 0 "''classifier''" "''0x3fffff''" "[1000000, 0, 7, 3]" "[''classifier:'']" "[1, 0, 0, 0, 0, 5, 0]" "\<lparr>ID = 1, Name = [], Wild = [], Max = 0, Active = 0, Lookup = 0, Matched = 0\<rparr>"]
  by (simp add: word_def int_range_def table_words_def suffix_to_prefix ascii_space_def byte_def)

section \<open>Flows\<close>

text \<open>
  The sums that \<open>ovs-ofctl dump-aggregate\<close> prints are read whatever stands before them, as long as it does not name
  the first of the three.
\<close>

theorem FlowStats_reads_output:
  assumes "\<not> contains u ''packet_count''"
  shows "FlowStats_UnmarshalText f (u @ '' packet_count='' @ dec (p :: uint64) @ '' byte_count='' @ dec (b :: uint64) @ '' flow_count='' @ dec (n :: uint64)) =
    (\<lparr>PacketCount = p, ByteCount = b\<rparr>, None)"
proof -
  let ?ws = "[''packet_count='' @ dec p, ''byte_count='' @ dec b, ''flow_count='' @ dec n]"
  let ?t = "''='' @ dec p @ '' byte_count='' @ dec b @ '' flow_count='' @ dec n"
  have idx: "index_of (u @ CHR '' '' # ''packet_count'' @ ?t) ''packet_count'' = Some (Suc (length u))"
    using assms by (intro index_of_after) simp_all
  have d: "drop (Suc (length u)) (u @ CHR '' '' # ''packet_count'' @ ?t) = ''packet_count'' @ ?t" by simp
  have "\<forall>c \<in> set (dec (k :: uint64)). byte c < 128 \<and> \<not> ascii_space c" for k
    by (auto dest!: dec_chars simp: is_digit_def ascii_space_def byte_def)
  then have "list_all word ?ws" by (auto simp: word_def ascii_space_def byte_def)
  then have "Fields (spaced [0, 0, 0] ?ws) = ?ws" by (rule Fields_spaced) simp
  then have "fields_aux None (''packet_count'' @ ?t) = ?ws"
    using fields_blanks[of 1 "''packet_count'' @ ?t"] by (simp add: Fields_def spaced_def)
  then have fl: "Fields (''packet_count'' @ ?t) = ?ws" by (simp add: Fields_def)
  have field: "flow_stats_field (k, k @ CHR ''='' # dec (v :: uint64)) = Inr v" if "CHR ''='' \<notin> set k" for k v
    using split_dec[OF that, of v] by (simp add: flow_stats_field_def ParseUint_dec)
  from field[of "''packet_count''" p] field[of "''byte_count''" b] field[of "''flow_count''" n]
  have "mapR flow_stats_field (zip [''packet_count'', ''byte_count'', ''flow_count''] ?ws) = Inr [p, b, n]" by simp
  then show ?thesis
    using idx d fl by (simp add: FlowStats_UnmarshalText_def Let_def)
qed

lemma FlowStats_reads_output_witness:
  "FlowStats_UnmarshalText \<lparr>PacketCount = 0, ByteCount = 0\<rparr> (''NXST_AGGREGATE reply (xid=0x4):'' @ '' packet_count='' @ dec (642800 :: uint64) @ '' byte_count='' @ dec (141379644 :: uint64) @ '' flow_count='' @ dec (2 :: uint64)) =
    (\<lparr>PacketCount = 642800, ByteCount = 141379644\<rparr>, None)"
  by (rule FlowStats_reads_output) (simp add: contains_def)

end
