(* ===== verification/Flows.thy ===== *)
theory Flows
  imports ActionParser MatchParser Stats
begin

text \<open>
  \<open>ovs/flow.go\<close> and \<open>ovs/matchflow.go\<close>: flows and flow patterns, and their texts.  The fields of a
  Go struct whose name is taken by an action or by the other struct have a letter in front.
\<close>

section \<open>Flows\<close>

(* src: ovs/flow.go type Flow *)
record Flow =
  Priority :: int
  Protocol :: string
  FInPort :: int
  Matches :: "match list"
  Table :: int
  IdleTimeout :: int
  Cookie :: uint64
  Actions :: "action list"
  Stats :: FlowStats

text \<open>The zero value of the type.\<close>

definition zero_flow :: Flow where
  "zero_flow =
     \<lparr>Priority = 0, Protocol = [], FInPort = 0, Matches = [], Table = 0, IdleTimeout = 0, Cookie = 0,
      Actions = [], Stats = \<lparr>PacketCount = 0, ByteCount = 0\<rparr>\<rparr>"

(* src: ovs/flow.go const priorityString *)
definition priorityString :: string where
  "priorityString = ''priority=''"

(* src: ovs/flow.go const priority *)
abbreviation priority :: string where "priority \<equiv> ''priority''"
(* src: ovs/flow.go const cookie *)
abbreviation cookie :: string where "cookie \<equiv> ''cookie''"
(* src: ovs/flow.go const keyActions *)
abbreviation keyActions :: string where "keyActions \<equiv> ''actions''"
(* src: ovs/flow.go const idleTimeout *)
abbreviation idleTimeout :: string where "idleTimeout \<equiv> ''idle_timeout''"
(* src: ovs/flow.go const table *)
abbreviation table :: string where "table \<equiv> ''table''"
(* src: ovs/flow.go const duration *)
abbreviation duration :: string where "duration \<equiv> ''duration''"
(* src: ovs/flow.go const nPackets *)
abbreviation nPackets :: string where "nPackets \<equiv> ''n_packets''"
(* src: ovs/flow.go const nBytes *)
abbreviation nBytes :: string where "nBytes \<equiv> ''n_bytes''"
(* src: ovs/flow.go const hardAge *)
abbreviation hardAge :: string where "hardAge \<equiv> ''hard_age''"
(* src: ovs/flow.go const idleAge *)
abbreviation idleAge :: string where "idleAge \<equiv> ''idle_age''"

subsection \<open>Printing\<close>

text \<open>The port of a flow, \<open>LOCAL\<close> for the special value.\<close>

(* src: ovs/flow.go 177-186 Flow.MarshalText: in_port *)
definition in_port_text :: "int \<Rightarrow> string" where
  "in_port_text p = inPort @ ''='' @ (if p = PortLOCAL then portLOCAL else itoa p)"

(* src: ovs/flow.go func Flow.MarshalText *)
definition Flow_MarshalText :: "Flow \<Rightarrow> string result" where
  "Flow_MarshalText f =
     (if Actions f = [] then Inl (FlowError [] errNoActions)
      else case marshalActions (Actions f) of Inl err \<Rightarrow> Inl err | Inr actions \<Rightarrow>
      case marshalMatches (Matches f) of Inl err \<Rightarrow> Inl err | Inr matches \<Rightarrow>
      if length actions > 1 \<and> actionDrop \<in> set actions then Inl (FlowError [] errActionsWithDrop)
      else Inr
        (priorityString @ itoa (Priority f) @
         (if Protocol f \<noteq> [] then '','' @ Protocol f else []) @
         (if FInPort f \<noteq> 0 then '','' @ in_port_text (FInPort f) else []) @
         (if matches \<noteq> [] then '','' @ join '','' matches else []) @
         '','' @ table @ ''='' @ itoa (Table f) @
         '','' @ idleTimeout @ ''='' @ itoa (IdleTimeout f) @
         (if Cookie f > 0 then '','' @ cookie @ ''='' @ paddedHexUint64 (Cookie f) else []) @
         '','' @ keyActions @ ''='' @ join '','' actions))"

subsection \<open>Reading\<close>

text \<open>
  The case of the switch for a field that holds an integer: \<open>upd\<close> assigns it to the flow.
\<close>

(* src: ovs/flow.go 336-346 Flow.UnmarshalText: the case priority *)
definition int_case :: "Flow \<Rightarrow> string \<Rightarrow> (int \<Rightarrow> Flow) \<Rightarrow> Flow unmarshal" where
  "int_case f v upd =
     (case Atoi v of Inl err \<Rightarrow> (f, Some (FlowError v err)) | Inr n \<Rightarrow> (upd n, None))"

(* src: ovs/flow.go 347-357 Flow.UnmarshalText: the case cookie *)
definition uint_case :: "Flow \<Rightarrow> string \<Rightarrow> (uint64 \<Rightarrow> Flow) \<Rightarrow> Flow unmarshal" where
  "uint_case f v upd =
     (case ParseUint v 0 64 of
        Inl err \<Rightarrow> (f, Some (FlowError v err))
      | Inr n \<Rightarrow> (upd (word_of_nat n), None))"

text \<open>One round of the loop over the elements between commas.\<close>

(* src: ovs/flow.go 318-437 Flow.UnmarshalText: the body of the loop *)
definition unmarshal_element :: "Flow \<Rightarrow> string \<Rightarrow> Flow unmarshal" where
  "unmarshal_element f s =
     (if \<not> contains s ''='' then (if s \<noteq> [] then f\<lparr>Protocol := s\<rparr> else f, None)
      else
        (let kv = split ''='' s in
         if length kv \<noteq> 2 then (f, None)
         else
           (let v = trim_space (kv ! 1); k = trim_space (kv ! 0) in
            if k = priority then int_case f v (\<lambda>n. f\<lparr>Priority := n\<rparr>)
            else if k = cookie then uint_case f v (\<lambda>n. f\<lparr>Cookie := n\<rparr>)
            else if k = keyActions then (f, None)
            else if k = inPort then
              (if trim_space v = portLOCAL then (f\<lparr>FInPort := PortLOCAL\<rparr>, None)
               else int_case f v (\<lambda>n. f\<lparr>FInPort := n\<rparr>))
            else if k = idleTimeout then int_case f v (\<lambda>n. f\<lparr>IdleTimeout := n\<rparr>)
            else if k = table then int_case f v (\<lambda>n. f\<lparr>Table := n\<rparr>)
            else if k = nPackets then uint_case f v (\<lambda>n. f\<lparr>Stats := Stats f\<lparr>PacketCount := n\<rparr>\<rparr>)
            else if k = nBytes then uint_case f v (\<lambda>n. f\<lparr>Stats := Stats f\<lparr>ByteCount := n\<rparr>\<rparr>)
            else if k = duration \<or> k = hardAge \<or> k = idleAge then (f, None)
            else
              (case parseMatch (kv ! 0) v of
                 Inl err \<Rightarrow> (f, Some err)
               | Inr None \<Rightarrow> (f, None)
               | Inr (Some m) \<Rightarrow> (f\<lparr>Matches := Matches f @ [m]\<rparr>, None)))))"

(* src: ovs/flow.go 317-438 Flow.UnmarshalText: the loop *)
fun unmarshal_elements :: "Flow \<Rightarrow> string list \<Rightarrow> Flow unmarshal" where
  "unmarshal_elements f [] = (f, None)"
| "unmarshal_elements f (s # ss) =
     (case unmarshal_element f s of
        (f', Some err) \<Rightarrow> (f', Some err)
      | (f', None) \<Rightarrow> unmarshal_elements f' ss)"

(* src: ovs/flow.go func Flow.UnmarshalText *)
definition Flow_UnmarshalText :: "Flow \<Rightarrow> string \<Rightarrow> Flow unmarshal" where
  "Flow_UnmarshalText f b =
     (let ss = split (keyActions @ ''='') b in
      if length ss \<noteq> 2 \<or> ss ! 1 = [] then (f, Some (FlowError [] errNoActions))
      else
        (let matchers = trim_space (ss ! 0); actions = trim_space (ss ! 1) in
         case unmarshal_elements (f\<lparr>Matches := []\<rparr>) (split '','' matchers) of
           (f1, Some err) \<Rightarrow> (f1, Some err)
         | (f1, None) \<Rightarrow>
             (case Parse actions of
                Inl (GoPanic m) \<Rightarrow> (f1, Some (GoPanic m))
              | Inl err \<Rightarrow> (f1, Some (FlowError actions errInvalidActions))
              | Inr (out, raw) \<Rightarrow>
                  (f1\<lparr>Actions := out\<rparr>,
                   if length raw > 1 \<and> actionDrop \<in> set raw then Some (FlowError [] errActionsWithDrop)
                   else None))))"

section \<open>Flow patterns\<close>

(* src: ovs/matchflow.go type MatchFlow *)
record MatchFlow =
  MProtocol :: string
  MInPort :: int
  MMatches :: "match list"
  MTable :: int
  MCookie :: uint64
  MCookieMask :: uint64

(* src: ovs/matchflow.go const AnyTable *)
definition AnyTable :: int where
  "AnyTable = -1"

(* src: ovs/flow.go func Flow.MatchFlow *)
definition Flow_MatchFlow :: "Flow \<Rightarrow> MatchFlow" where
  "Flow_MatchFlow f =
     \<lparr>MProtocol = Protocol f, MInPort = FInPort f, MMatches = Matches f, MTable = Table f,
      MCookie = Cookie f, MCookieMask = 0\<rparr>"

(* src: ovs/matchflow.go func MatchFlow.marshalMatches *)
definition MatchFlow_marshalMatches :: "MatchFlow \<Rightarrow> string list result" where
  "MatchFlow_marshalMatches f = mapR match_MarshalText (MMatches f)"

(* src: ovs/matchflow.go func MatchFlow.MarshalText *)
definition MatchFlow_MarshalText :: "MatchFlow \<Rightarrow> string result" where
  "MatchFlow_MarshalText f =
     (case MatchFlow_marshalMatches f of
        Inl err \<Rightarrow> Inl err
      | Inr matches \<Rightarrow>
          (let b = trim_char (CHR '','')
                 ((if MProtocol f \<noteq> [] then MProtocol f @ '','' else []) @
                  (if MInPort f \<noteq> 0 then in_port_text (MInPort f) @ '','' else []) @
                  (if matches \<noteq> [] then join '','' matches @ '','' else []) @
                  (if MCookie f > 0 \<or> MCookieMask f > 0 then
                     cookie @ ''='' @ paddedHexUint64 (MCookie f) @ ''/'' @
                     (if MCookieMask f = 0 then ''-1'' else paddedHexUint64 (MCookieMask f)) @ '',''
                   else []) @
                  (if MTable f \<noteq> AnyTable then table @ ''='' @ itoa (MTable f) else []))
           in if b = [] then Inl (MatchFlowError [] errEmptyMatchFlow) else Inr b))"

end
