(* ===== verification/FlowRoundtrip.thy ===== *)
theory FlowRoundtrip
  imports Flows ActionRoundtrip
begin

text \<open>
  The proof that a flow whose matches and actions are of the kinds that are read back is read back
  itself from the text it is printed as, for \<open>ovs/flow.go\<close>.
\<close>

section \<open>Trimming what needs none\<close>

lemma arg_char_ascii: "arg_char c \<Longrightarrow> byte c < 128 \<and> \<not> ascii_space c"
  by (auto simp: arg_char_def ascii_space_def byte_def)

lemma value_char_arg: "value_char c \<Longrightarrow> arg_char c"
  by (simp add: value_char_def arg_char_def)

lemma trim_space_args: "list_all arg_char s \<Longrightarrow> trim_space s = s"
  by (rule trim_space_id) (cases s; auto simp: list_all_iff arg_char_ascii)

lemma trim_space_value [simp]: "value_text s \<Longrightarrow> trim_space s = s"
  by (rule trim_space_args) (auto simp: value_text_def list_all_iff value_char_arg)

section \<open>Elements of a flow\<close>

lemma value_text_no: "value_text s \<Longrightarrow> CHR ''='' \<notin> set s" "value_text s \<Longrightarrow> CHR '','' \<notin> set s"
  by (auto simp: value_text_def list_all_iff value_char_def)

lemma split_key_value:
  assumes "value_text k" and "value_text v"
  shows "split ''='' (k @ CHR ''='' # v) = [k, v]"
  using value_text_no(1)[OF assms(1)] value_text_no(1)[OF assms(2)]
  by (simp add: split_char_append split_char_no_sep)

lemma element_key_value:
  assumes "value_text k" and "value_text v"
  shows "unmarshal_element f (k @ CHR ''='' # v) =
     (if k = priority then int_case f v (\<lambda>n. f\<lparr>Priority := n\<rparr>)
      else if k = cookie then uint_case f v (\<lambda>n. f\<lparr>Cookie := n\<rparr>)
      else if k = keyActions then (f, None)
      else if k = inPort then
        (if v = portLOCAL then (f\<lparr>FInPort := PortLOCAL\<rparr>, None) else int_case f v (\<lambda>n. f\<lparr>FInPort := n\<rparr>))
      else if k = idleTimeout then int_case f v (\<lambda>n. f\<lparr>IdleTimeout := n\<rparr>)
      else if k = table then int_case f v (\<lambda>n. f\<lparr>Table := n\<rparr>)
      else if k = nPackets then uint_case f v (\<lambda>n. f\<lparr>Stats := Stats f\<lparr>PacketCount := n\<rparr>\<rparr>)
      else if k = nBytes then uint_case f v (\<lambda>n. f\<lparr>Stats := Stats f\<lparr>ByteCount := n\<rparr>\<rparr>)
      else if k = duration \<or> k = hardAge \<or> k = idleAge then (f, None)
      else
        (case parseMatch k v of
           Inl err \<Rightarrow> (f, Some err)
         | Inr None \<Rightarrow> (f, None)
         | Inr (Some m) \<Rightarrow> (f\<lparr>Matches := Matches f @ [m]\<rparr>, None)))"
proof -
  have "contains (k @ CHR ''='' # v) ''=''" by simp
  then show ?thesis
    unfolding unmarshal_element_def split_key_value[OF assms] using assms
    by (simp add: Let_def)
qed

lemma value_text_words [simp]:
  "value_text priority" "value_text cookie" "value_text inPort" "value_text idleTimeout"
  "value_text table" "value_text portLOCAL"
  by (simp_all add: value_char_def byte_def)

declare value_text_simps(2) [simp del]

lemma int_case_itoa: "int_range n \<Longrightarrow> int_case f (itoa n) upd = (upd n, None)"
  by (simp add: int_case_def Atoi_itoa)

lemma ParseUint_padded: "ParseUint (paddedHexUint64 c) 0 64 = Inr (unat c)"
proof -
  have "CHR ''_'' \<notin> set (hex_pad 16 c)" by (auto dest!: hex_pad_chars simp: is_digit_def byte_def)
  moreover have "unat c \<le> 2 ^ 64 - 1" using unsigned_less[of c, where ?'a = nat] by simp
  moreover have "length (hex_pad 16 c) > 0" by simp
  ultimately show ?thesis
    by (simp add: ParseUint_def parse_uint_def paddedHexUint64_def hex_lit_def base_prefix_def
        to_lower_char_def byte_def uint_loop_hex_pad num_result_def Suc_le_eq)
qed

lemma element_priority:
  "int_range n \<Longrightarrow> unmarshal_element f (priority @ CHR ''='' # itoa n) = (f\<lparr>Priority := n\<rparr>, None)"
  by (subst element_key_value) (simp_all add: int_case_itoa)

lemma element_table:
  "int_range n \<Longrightarrow> unmarshal_element f (table @ CHR ''='' # itoa n) = (f\<lparr>Table := n\<rparr>, None)"
  by (subst element_key_value) (simp_all add: int_case_itoa)

lemma element_idleTimeout:
  "int_range n \<Longrightarrow> unmarshal_element f (idleTimeout @ CHR ''='' # itoa n) = (f\<lparr>IdleTimeout := n\<rparr>, None)"
  by (subst element_key_value) (simp_all add: int_case_itoa)

lemma value_text_padded [simp]: "value_text (paddedHexUint64 c)"
  by (simp add: paddedHexUint64_def)

lemma element_cookie:
  "unmarshal_element f (cookie @ CHR ''='' # paddedHexUint64 c) = (f\<lparr>Cookie := c\<rparr>, None)"
  by (subst element_key_value) (simp_all add: uint_case_def ParseUint_padded)

lemmas element_simps =
  element_priority [simplified] element_table [simplified] element_idleTimeout [simplified]
  element_cookie [simplified]

lemma element_in_port:
  assumes "int_range n"
  shows "unmarshal_element f (in_port_text n) = (f\<lparr>FInPort := n\<rparr>, None)"
proof -
  have "itoa n \<noteq> portLOCAL" using itoa_chars[of "CHR ''L''" n] by (auto simp: is_digit_def byte_def)
  then show ?thesis
    using assms element_key_value[of inPort portLOCAL f] element_key_value[of inPort "itoa n" f]
    by (simp add: in_port_text_def int_case_itoa)
qed

lemma element_protocol:
  assumes "value_text p" and "p \<noteq> []"
  shows "unmarshal_element f p = (f\<lparr>Protocol := p\<rparr>, None)"
  using assms value_text_no(1) by (simp add: unmarshal_element_def)

fun is_in_port :: "match \<Rightarrow> bool" where
  "is_in_port (inPortMatch p) = True"
| "is_in_port _ = False"

lemma parse_in_port: "parseMatch inPort v = Inr (Some m) \<Longrightarrow> is_in_port m"
  by (auto simp: parseIntMatch_def match_constructors found_def split: sum.splits)

lemma match_key_cases:
  assumes "k \<in> set match_keys"
  shows "k \<notin> {priority, cookie, keyActions, idleTimeout, table, nPackets, nBytes, duration, hardAge, idleAge}"
proof -
  have "list_all (\<lambda>k. k \<notin> {priority, cookie, keyActions, idleTimeout, table, nPackets, nBytes, duration,
      hardAge, idleAge}) match_keys"
    by (simp add: match_keys_def)
  with assms show ?thesis by (simp add: list_all_iff)
qed

lemma element_match:
  assumes "canonical m" and "\<not> is_in_port m"
  obtains k v where "match_MarshalText m = Inr (k @ CHR ''='' # v)" and "k \<in> set match_keys"
    and "value_text k" and "value_text v"
    and "\<And>f. unmarshal_element f (k @ CHR ''='' # v) = (f\<lparr>Matches := Matches f @ [m]\<rparr>, None)"
proof -
  from canonical_reads_back[OF assms(1)] obtain k v where
    kv: "match_MarshalText m = Inr (k @ CHR ''='' # v)" "k \<in> set match_keys" "value_text v"
      "parseMatch k v = Inr (Some m)"
    by (auto simp: reads_back_def)
  have "k \<noteq> inPort" using parse_in_port assms(2) kv(4) by auto
  with kv match_key_cases[OF kv(2)] match_keys_char[OF kv(2)] show ?thesis
    by (intro that[of k v]) (auto simp: element_key_value)
qed

section \<open>The flow\<close>

text \<open>The elements of the text before the actions.\<close>

definition flow_elements :: "Flow \<Rightarrow> string list \<Rightarrow> string list" where
  "flow_elements f ms =
     [priority @ ''='' @ itoa (Priority f)] @
     (if Protocol f \<noteq> [] then [Protocol f] else []) @
     (if FInPort f \<noteq> 0 then [in_port_text (FInPort f)] else []) @
     ms @
     [table @ ''='' @ itoa (Table f), idleTimeout @ ''='' @ itoa (IdleTimeout f)] @
     (if Cookie f > 0 then [cookie @ ''='' @ paddedHexUint64 (Cookie f)] else [])"

lemma flow_text:
  "join '','' (flow_elements f ms) =
     priorityString @ itoa (Priority f) @
     (if Protocol f \<noteq> [] then '','' @ Protocol f else []) @
     (if FInPort f \<noteq> 0 then '','' @ in_port_text (FInPort f) else []) @
     (if ms \<noteq> [] then '','' @ join '','' ms else []) @
     '','' @ table @ ''='' @ itoa (Table f) @
     '','' @ idleTimeout @ ''='' @ itoa (IdleTimeout f) @
     (if Cookie f > 0 then '','' @ cookie @ ''='' @ paddedHexUint64 (Cookie f) else [])"
  by (cases "ms = []") (simp_all add: flow_elements_def join_append join_Cons priorityString_def)

text \<open>
  The flows that are read back.  The text of no action may hold \<open>actions=\<close>, which the code splits
  at, and a match on the ingress port is read as the field \<open>InPort\<close>.
\<close>

definition canonical_flow :: "Flow \<Rightarrow> bool" where
  "canonical_flow f \<longleftrightarrow>
     Actions f \<noteq> [] \<and> list_all canonical_action (Actions f) \<and>
     (length (Actions f) > 1 \<longrightarrow> list_all (\<lambda>a. action_MarshalText a \<noteq> Inr actionDrop) (Actions f)) \<and>
     list_all (\<lambda>a. case action_MarshalText a of Inl _ \<Rightarrow> False | Inr s \<Rightarrow> \<not> contains s ''actions='') (Actions f) \<and>
     list_all (\<lambda>m. canonical m \<and> \<not> is_in_port m) (Matches f) \<and>
     value_text (Protocol f) \<and>
     int_range (Priority f) \<and> int_range (FInPort f) \<and> int_range (Table f) \<and> int_range (IdleTimeout f) \<and>
     Stats f = \<lparr>PacketCount = 0, ByteCount = 0\<rparr>"

text \<open>An element of the text: a word, or a key and a value.\<close>

definition element_ok :: "string \<Rightarrow> bool" where
  "element_ok t \<longleftrightarrow>
     t \<noteq> [] \<and>
     (value_text t \<or>
      (\<exists>k v. t = k @ CHR ''='' # v \<and> value_text k \<and> value_text v \<and> \<not> suffix ''actions'' k))"

lemma element_okI:
  "value_text k \<Longrightarrow> value_text v \<Longrightarrow> \<not> suffix ''actions'' k \<Longrightarrow> element_ok (k @ CHR ''='' # v)"
  by (auto simp: element_ok_def)

lemma element_ok_char: "element_ok t \<Longrightarrow> c \<in> set t \<Longrightarrow> arg_char c \<and> c \<noteq> CHR '',''"
  by (auto simp: element_ok_def value_text_def list_all_iff value_char_arg)
    (auto simp: value_char_def arg_char_def byte_def)

lemma element_ok_contains: "element_ok t \<Longrightarrow> \<not> contains t ''actions=''"
proof
  assume "element_ok t" and "contains t ''actions=''"
  then obtain u w where t: "t = (u @ ''actions'') @ CHR ''='' # w"
    by (auto simp: contains_iff sublist_def)
  then have "\<not> value_text t" using value_text_no(1)[of t] by auto
  with \<open>element_ok t\<close> obtain k v where k: "t = k @ CHR ''='' # v" "value_text k" "value_text v"
    "\<not> suffix ''actions'' k"
    by (auto simp: element_ok_def)
  from k(2,3) have "k = u @ ''actions''"
    using t unfolding k(1) by (subst (asm) append_Cons_eq_iff) (auto dest: value_text_no)
  with k(4) show False by (auto simp: suffix_def)
qed

lemma join_elements_chars:
  assumes "list_all element_ok es" shows "list_all arg_char (join '','' es)"
  using assms set_join_subset[of "'',''" es] element_ok_char
  by (fastforce simp: list_all_iff arg_char_def byte_def)

lemma match_key_suffix: "k \<in> set match_keys \<Longrightarrow> \<not> suffix ''actions'' k"
proof -
  have "list_all (\<lambda>k. \<not> suffix ''actions'' k) match_keys"
    by (simp add: match_keys_def suffix_to_prefix)
  then show "k \<in> set match_keys \<Longrightarrow> \<not> suffix ''actions'' k" by (simp add: list_all_iff)
qed

lemma unmarshal_elements_append:
  "unmarshal_elements f ss = (f', None) \<Longrightarrow> unmarshal_elements f (ss @ ts) = unmarshal_elements f' ts"
  by (induction f ss rule: unmarshal_elements.induct) (auto split: prod.splits option.splits)

lemma unmarshal_matches:
  assumes "list_all (\<lambda>m. canonical m \<and> \<not> is_in_port m) ms"
  shows "\<exists>ts. marshalMatches ms = Inr ts \<and> list_all element_ok ts \<and>
    (\<forall>f. unmarshal_elements f ts = (f\<lparr>Matches := Matches f @ ms\<rparr>, None))"
  using assms
proof (induction ms)
  case Nil
  then show ?case by (simp add: marshalMatches_def)
next
  case (Cons m ms)
  then obtain ts where ts: "mapR match_MarshalText ms = Inr ts" "list_all element_ok ts"
    "\<And>f. unmarshal_elements f ts = (f\<lparr>Matches := Matches f @ ms\<rparr>, None)"
    by (auto simp: marshalMatches_def)
  from Cons.prems obtain k v where kv: "match_MarshalText m = Inr (k @ CHR ''='' # v)"
    "k \<in> set match_keys" "value_text k" "value_text v"
    "\<And>f. unmarshal_element f (k @ CHR ''='' # v) = (f\<lparr>Matches := Matches f @ [m]\<rparr>, None)"
    by (auto elim: element_match)
  show ?case
    using ts kv match_key_suffix[OF kv(2)]
    by (intro exI[of _ "(k @ CHR ''='' # v) # ts"]) (auto simp: marshalMatches_def intro: element_okI)
qed

lemma flow_elements_ok:
  assumes "list_all element_ok ts" and "value_text (Protocol f)"
  shows "list_all element_ok (flow_elements f ts)"
  using assms element_okI[of inPort] element_okI[of priority] element_okI[of table]
    element_okI[of idleTimeout] element_okI[of cookie]
  by (auto simp: flow_elements_def in_port_text_def suffix_to_prefix element_ok_def[of "Protocol f"])

lemma unmarshal_flow_elements:
  assumes "\<And>g. unmarshal_elements g ts = (g\<lparr>Matches := Matches g @ Matches f\<rparr>, None)"
    and "value_text (Protocol f)"
    and "int_range (Priority f)" "int_range (FInPort f)" "int_range (Table f)" "int_range (IdleTimeout f)"
    and "Stats f = \<lparr>PacketCount = 0, ByteCount = 0\<rparr>"
  shows "unmarshal_elements zero_flow (flow_elements f ts @ [[]]) = (f\<lparr>Actions := []\<rparr>, None)"
proof -
  have e: "unmarshal_elements g [[]] = (g, None)" for g by (simp add: unmarshal_element_def contains_def)
  have append: "unmarshal_elements g (xs @ ys) = unmarshal_elements g' ys"
    if "unmarshal_elements g xs = (g', None)" for g g' xs ys
    using that by (rule unmarshal_elements_append)
  define g1 where "g1 = zero_flow\<lparr>Priority := Priority f, Protocol := Protocol f, FInPort := FInPort f\<rparr>"
  define g2 where "g2 = g1\<lparr>Matches := Matches f, Table := Table f, IdleTimeout := IdleTimeout f\<rparr>"
  have a: "unmarshal_elements zero_flow
      ([priority @ ''='' @ itoa (Priority f)] @ (if Protocol f \<noteq> [] then [Protocol f] else []) @
       (if FInPort f \<noteq> 0 then [in_port_text (FInPort f)] else [])) = (g1, None)"
    using assms by (simp add: element_simps element_protocol element_in_port g1_def zero_flow_def)
  have b: "unmarshal_elements g1 (ts @ [table @ ''='' @ itoa (Table f), idleTimeout @ ''='' @ itoa (IdleTimeout f)])
      = (g2, None)"
    using assms by (simp add: append[OF assms(1)] element_simps g2_def g1_def zero_flow_def)
  have c: "unmarshal_elements g2 (if Cookie f > 0 then [cookie @ ''='' @ paddedHexUint64 (Cookie f)] else [])
      = (f\<lparr>Actions := []\<rparr>, None)"
    using assms by (simp add: element_simps g2_def g1_def zero_flow_def word_gt_0)
  show ?thesis
    unfolding flow_elements_def using append[OF a] append[OF b] append[OF c] e by simp
qed

text \<open>The text of the actions: one that is read back, with nothing in it the code splits at.\<close>

lemma canonical_flow_actions:
  assumes "canonical_flow f"
  obtains ss where "marshalActions (Actions f) = Inr ss" and "Parse (join '','' ss) = Inr (Actions f, ss)"
    and "\<not> (length ss > 1 \<and> actionDrop \<in> set ss)" and "split ''actions='' (join '','' ss) = [join '','' ss]"
    and "list_all arg_char (join '','' ss)" and "join '','' ss \<noteq> []"
proof -
  note cf = assms[unfolded canonical_flow_def]
  from cf obtain ss where ss: "marshalActions (Actions f) = Inr ss" "length ss = length (Actions f)"
    "list_all (\<lambda>s. depth_ok 0 s \<and> s \<noteq> [] \<and> list_all arg_char s) ss" "Parse (join '','' ss) = Inr (Actions f, ss)"
    using canonical_actions_read_back by blast
  have rel: "list_all2 (\<lambda>a s. action_MarshalText a = Inr s) (Actions f) ss"
    using ss(1) by (simp add: marshalActions_def mapR_Inr_iff)
  have from_action: "\<exists>a \<in> set (Actions f). action_MarshalText a = Inr s" if "s \<in> set ss" for s
  proof -
    from that obtain i where "i < length ss" "s = ss ! i" by (auto simp: in_set_conv_nth)
    with rel show ?thesis by (intro bexI[of _ "Actions f ! i"]) (simp_all add: list_all2_conv_all_nth)
  qed
  have drop: "\<not> (length ss > 1 \<and> actionDrop \<in> set ss)"
    using cf ss(2) from_action[of actionDrop] by (auto simp: list_all_iff)
  have nact: "\<forall>s \<in> set ss. \<not> contains s ''actions=''"
    using cf from_action by (force simp: list_all_iff)
  then have "split ''actions='' (join '','' ss) = [join '','' ss]"
    by (intro split_no_occurrence not_contains_join) auto
  moreover have "list_all arg_char (join '','' ss)"
    using ss(3) set_join_subset[of "'',''" ss]
    by (fastforce simp: list_all_iff arg_char_def byte_def)
  moreover have "join '','' ss \<noteq> []"
    using ss(2,3) cf by (cases ss) (auto simp: join_Cons)
  ultimately show ?thesis using ss(1,4) drop by (intro that)
qed

lemma canonical_flow_round_trip:
  assumes "canonical_flow f"
  shows "\<exists>t. Flow_MarshalText f = Inr t \<and> t \<noteq> [] \<and> list_all arg_char t \<and>
    Flow_UnmarshalText zero_flow t = (f, None)"
proof -
  note cf = assms[unfolded canonical_flow_def]
  from assms obtain ss where ss: "marshalActions (Actions f) = Inr ss" "Parse (join '','' ss) = Inr (Actions f, ss)"
    and drop: "\<not> (length ss > 1 \<and> actionDrop \<in> set ss)"
    and sps: "split ''actions='' (join '','' ss) = [join '','' ss]"
    and chQ: "list_all arg_char (join '','' ss)" and ssne: "join '','' ss \<noteq> []"
    by (rule canonical_flow_actions)
  from cf obtain ts where ts: "marshalMatches (Matches f) = Inr ts" "list_all element_ok ts"
    "\<And>g. unmarshal_elements g ts = (g\<lparr>Matches := Matches g @ Matches f\<rparr>, None)"
    using unmarshal_matches by blast
  let ?es = "flow_elements f ts"
  let ?t = "join '','' ?es @ '','' @ keyActions @ ''='' @ join '','' ss"
  have m: "Flow_MarshalText f = Inr ?t"
    using cf ss(1) ts(1) drop by (auto simp: Flow_MarshalText_def flow_text)
  have es: "list_all element_ok ?es" using ts(2) cf by (auto intro: flow_elements_ok)
  have ne: "?es \<noteq> []" by (simp add: flow_elements_def)
  have P: "concat (map (\<lambda>t. t @ '','') ?es) = join '','' ?es @ '',''"
    using concat_commas[OF ne] .
  have "split ''actions='' (concat (map (\<lambda>t. t @ '','') ?es) @ ''actions='' @ join '','' ss) =
      concat (map (\<lambda>t. t @ '','') ?es) # split ''actions='' (join '','' ss)"
    by (rule split_tokens) (use es element_ok_contains in \<open>auto simp: list_all_iff\<close>)
  with sps have sp: "split (keyActions @ ''='') ?t = [join '','' ?es @ '','', join '','' ss]"
    unfolding P by simp
  have trimP: "trim_space (join '','' ?es @ '','') = join '','' ?es @ '',''"
    by (rule trim_space_id) (simp add: flow_elements_def join_Cons byte_def ascii_space_def)
  from chQ have trimQ: "trim_space (join '','' ss) = join '','' ss" by (rule trim_space_args)
  have "join '','' (?es @ [[]]) = join '','' ?es @ '',''" using ne by (simp add: join_append)
  moreover have "split '','' (join '','' (?es @ [[]])) = ?es @ [[]]"
    by (rule split_join) (use es element_ok_char in \<open>auto simp: list_all_iff\<close>)
  ultimately have spP: "split '','' (join '','' ?es @ '','') = ?es @ [[]]" by simp
  have un: "unmarshal_elements zero_flow (?es @ [[]]) = (f\<lparr>Actions := []\<rparr>, None)"
    using ts(3) cf by (intro unmarshal_flow_elements) auto
  have z: "zero_flow\<lparr>Matches := []\<rparr> = zero_flow" by (simp add: zero_flow_def)
  have "Flow_UnmarshalText zero_flow ?t = (f, None)"
    unfolding Flow_UnmarshalText_def sp
    using ssne drop by (simp add: Let_def trimP trimQ spP un z ss(2))
  moreover have "list_all arg_char ?t"
    using chQ join_elements_chars[OF es] by (simp add: arg_char_def byte_def)
  ultimately show ?thesis using m by (intro exI[of _ ?t]) auto
qed

section \<open>Flow patterns\<close>

text \<open>The elements of the text of a \<open>MatchFlow\<close>.\<close>

definition match_flow_elements :: "MatchFlow \<Rightarrow> string list \<Rightarrow> string list" where
  "match_flow_elements f ms =
     (if MProtocol f \<noteq> [] then [MProtocol f] else []) @
     (if MInPort f \<noteq> 0 then [in_port_text (MInPort f)] else []) @
     ms @
     (if MCookie f > 0 \<or> MCookieMask f > 0 then
        [cookie @ ''='' @ paddedHexUint64 (MCookie f) @ ''/'' @
         (if MCookieMask f = 0 then ''-1'' else paddedHexUint64 (MCookieMask f))]
      else []) @
     (if MTable f \<noteq> AnyTable then [table @ ''='' @ itoa (MTable f)] else [])"

lemma trim_char_id: "s = [] \<or> hd s \<noteq> c \<and> last s \<noteq> c \<Longrightarrow> trim_char c s = s"
proof -
  assume a: "s = [] \<or> hd s \<noteq> c \<and> last s \<noteq> c"
  have dw: "dropWhile (\<lambda>d. d = c) t = t" if "t = [] \<or> hd t \<noteq> c" for t using that by (cases t) auto
  show ?thesis using a dw[of s] dw[of "rev s"] by (auto simp: trim_char_def hd_rev)
qed

lemma trim_char_last:
  assumes "s \<noteq> []" and "hd s \<noteq> c" and "last s \<noteq> c"
  shows "trim_char c (s @ [c]) = s"
  using assms trim_char_id[of s c] by (cases s) (auto simp: trim_char_def)

lemma element_ok_ends:
  assumes "list_all element_ok es" and "es \<noteq> []"
  shows "join '','' es \<noteq> []" and "hd (join '','' es) \<noteq> CHR '',''" and "last (join '','' es) \<noteq> CHR '',''"
proof -
  have ne: "e \<noteq> [] \<and> hd e \<noteq> CHR '','' \<and> last e \<noteq> CHR '',''" if "e \<in> set es" for e
    using assms(1) that element_ok_char[of e "hd e"] element_ok_char[of e "last e"]
    by (auto simp: list_all_iff element_ok_def)
  obtain x xs where x: "es = x # xs" using assms(2) by (cases es) auto
  obtain ys y where y: "es = ys @ [y]" using assms(2) by (metis rev_exhaust)
  show "join '','' es \<noteq> []" "hd (join '','' es) \<noteq> CHR '',''"
    using ne[of x] by (simp_all add: x join_Cons)
  show "last (join '','' es) \<noteq> CHR '',''"
    using ne[of y] y by (cases "ys = []") (auto simp: join_append)
qed

lemma MatchFlow_text:
  assumes ms: "mapR match_MarshalText (MMatches f) = Inr ms" and ok: "list_all element_ok ms"
    and p: "value_text (MProtocol f)"
  shows "MatchFlow_MarshalText f =
     (if match_flow_elements f ms = [] then Inl (MatchFlowError [] errEmptyMatchFlow)
      else Inr (join '','' (match_flow_elements f ms)))"
    and "list_all element_ok (match_flow_elements f ms)"
proof -
  show es: "list_all element_ok (match_flow_elements f ms)"
  proof -
    have "element_ok (in_port_text n)" for n
      using element_okI[of inPort "if n = PortLOCAL then portLOCAL else itoa n"]
      by (simp add: in_port_text_def suffix_to_prefix)
    moreover have "element_ok (table @ CHR ''='' # itoa n)" for n
      by (rule element_okI) (simp_all add: suffix_to_prefix)
    moreover have "element_ok (cookie @ CHR ''='' # paddedHexUint64 a @ ''/'' @ t)" if "value_text t" for a t
      using that element_okI[of cookie "paddedHexUint64 a @ CHR ''/'' # t"]
      by (simp add: suffix_to_prefix value_text_simps(2)) (simp add: value_char_def byte_def)
    moreover have "value_text ''-1''" by (simp add: value_text_def value_char_def byte_def)
    moreover have "MProtocol f \<noteq> [] \<Longrightarrow> element_ok (MProtocol f)" using p by (simp add: element_ok_def)
    ultimately show ?thesis using ok unfolding match_flow_elements_def by (simp split del: if_split) simp
  qed
  define es' where "es' = match_flow_elements (f\<lparr>MTable := AnyTable\<rparr>) ms"
  define tb where "tb = (if MTable f \<noteq> AnyTable then [table @ ''='' @ itoa (MTable f)] else [])"
  have split: "match_flow_elements f ms = es' @ tb" by (simp add: es'_def tb_def match_flow_elements_def)
  have raw: "MatchFlow_MarshalText f =
     (let b = trim_char (CHR '','') (concat (map (\<lambda>t. t @ '','') es') @ concat tb) in
      if b = [] then Inl (MatchFlowError [] errEmptyMatchFlow) else Inr b)"
    using concat_commas[of ms "CHR '',''"]
    by (simp add: MatchFlow_MarshalText_def MatchFlow_marshalMatches_def ms es'_def tb_def match_flow_elements_def)
  show "MatchFlow_MarshalText f =
     (if match_flow_elements f ms = [] then Inl (MatchFlowError [] errEmptyMatchFlow)
      else Inr (join '','' (match_flow_elements f ms)))"
  proof (cases "tb = []")
    case True
    show ?thesis
    proof (cases "es' = []")
      case True
      with \<open>tb = []\<close> show ?thesis by (simp add: raw split trim_char_def)
    next
      case False
      have "list_all element_ok es'" using es split by simp
      note ends = element_ok_ends[OF this False]
      have "trim_char (CHR '','') (join '','' es' @ '','') = join '','' es'" using ends by (intro trim_char_last)
      with \<open>tb = []\<close> False ends(1) show ?thesis by (simp add: raw split concat_commas)
    qed
  next
    case False
    then obtain t where tb: "tb = [t]" by (auto simp: tb_def split: if_splits)
    have "concat (map (\<lambda>t. t @ '','') es') @ t = join '','' (es' @ [t])"
      by (cases "es' = []") (simp_all add: concat_commas join_append)
    moreover have "list_all element_ok (es' @ [t])" using es split tb by simp
    note ends = element_ok_ends[OF this]
    ultimately show ?thesis using ends by (simp add: raw split tb trim_char_id)
  qed
qed

definition canonical_match_flow :: "MatchFlow \<Rightarrow> bool" where
  "canonical_match_flow f \<longleftrightarrow>
     list_all canonical (MMatches f) \<and> value_text (MProtocol f) \<and>
     (MProtocol f \<noteq> [] \<or> MInPort f \<noteq> 0 \<or> MMatches f \<noteq> [] \<or> MCookie f > 0 \<or> MCookieMask f > 0 \<or>
      MTable f \<noteq> AnyTable)"

lemma canonical_matches_elements:
  assumes "list_all canonical ms"
  shows "\<exists>ts. mapR match_MarshalText ms = Inr ts \<and> length ts = length ms \<and> list_all element_ok ts"
  using assms
proof (induction ms)
  case (Cons m ms)
  then obtain ts where ts: "mapR match_MarshalText ms = Inr ts" "length ts = length ms" "list_all element_ok ts"
    by auto
  from Cons.prems have "reads_back m" by (simp add: canonical_reads_back)
  then obtain k v where kv: "match_MarshalText m = Inr (k @ CHR ''='' # v)" "k \<in> set match_keys" "value_text v"
    by (auto simp: reads_back_def)
  with ts match_key_suffix[OF kv(2)] match_keys_char(1)[OF kv(2)] show ?case
    by (intro exI[of _ "(k @ CHR ''='' # v) # ts"]) (auto intro: element_okI)
qed simp

lemma canonical_match_flow_text:
  assumes "canonical_match_flow f"
  shows "\<exists>t. MatchFlow_MarshalText f = Inr t \<and> t \<noteq> [] \<and> list_all arg_char t"
proof -
  from assms have c: "list_all canonical (MMatches f)" "value_text (MProtocol f)"
    by (auto simp: canonical_match_flow_def)
  from canonical_matches_elements[OF c(1)] obtain ms where
    ms: "mapR match_MarshalText (MMatches f) = Inr ms" "length ms = length (MMatches f)" "list_all element_ok ms"
    by blast
  have ne: "match_flow_elements f ms \<noteq> []"
    using assms ms(2) by (auto simp: canonical_match_flow_def match_flow_elements_def)
  note t = MatchFlow_text[OF ms(1,3) c(2)]
  from t(1) ne element_ok_ends(1)[OF t(2) ne] join_elements_chars[OF t(2)] show ?thesis by simp
qed

end
