(* ===== verification/DumpFormat.thy ===== *)
theory DumpFormat
  imports FlowRoundtrip
begin

text \<open>
  The lines that \<open>ovs-ofctl dump-flows\<close> prints, in the format of the Open vSwitch tools that the tests of
  \<open>ovs/flow.go\<close> and \<open>ovs/openflow.go\<close> have, and what \<open>Flow.UnmarshalText\<close> reads from them.
\<close>

section \<open>Elements behind a blank\<close>

text \<open>An element with a blank before it, as the counters are separated.\<close>

lemma trim_space_blank [simp]: "trim_space (CHR '' '' # s) = trim_space s"
  by (simp add: trim_space_def trim_left.simps[of "CHR '' '' # s"])

lemma element_blank:
  assumes "value_text k" and "value_text v" and "k \<noteq> []"
  shows "unmarshal_element f (CHR '' '' # k @ CHR ''='' # v) =
    (if k \<in> {priority, cookie, keyActions, inPort, idleTimeout, table, nPackets, nBytes, duration, hardAge, idleAge}
     then unmarshal_element f (k @ CHR ''='' # v)
     else (case parseMatch (CHR '' '' # k) v of
             Inl err \<Rightarrow> (f, Some err)
           | Inr None \<Rightarrow> (f, None)
           | Inr (Some m) \<Rightarrow> (f\<lparr>Matches := Matches f @ [m]\<rparr>, None)))"
proof -
  have "contains (k @ CHR ''='' # v) ''=''" "contains (CHR '' '' # k @ CHR ''='' # v) ''=''" by simp_all
  moreover have "split ''='' (CHR '' '' # k @ CHR ''='' # v) = [CHR '' '' # k, v]"
    using split_key_value[OF assms(1,2)] value_text_no(1)[OF assms(1)]
    by (simp add: split_char_append[of _ "CHR '' '' # k", simplified] split_char_no_sep value_text_no(1)[OF assms(2)])
  ultimately show ?thesis
    unfolding unmarshal_element_def split_key_value[OF assms(1,2)] using assms
    by (simp add: Let_def trim_space_blank)
qed

lemma parseMatch_blank: "parseMatch (CHR '' '' # k) v = Inr None"
  by (simp add: parseMatch_def)

section \<open>The lines of \<open>ovs-ofctl dump-flows\<close>\<close>

lemma trim_space_ends:
  assumes "s \<noteq> []" and "byte (hd s) < 128 \<and> \<not> ascii_space (hd s)" and "byte (last s) < 128 \<and> \<not> ascii_space (last s)"
  shows "trim_space (CHR '' '' # s @ '' '') = s"
proof -
  have "space_len (s @ '' '') = 0" using assms(1,2) by (cases s) auto
  then have "trim_left (CHR '' '' # s @ '' '') = s @ '' ''" 
    by (simp add: trim_left.simps[of "CHR '' '' # s @ '' ''"] trim_left.simps[of "s @ '' ''"])
  moreover have "ends_space_len (s @ '' '') = 1" by (simp add: ends_space_len_def)
  then have "trim_right (s @ '' '') = trim_right s" by (subst trim_right.simps) simp
  moreover have "trim_right s = s"
    using ends_space_len_ascii[of s] assms by (subst trim_right.simps) auto
  ultimately show ?thesis by (simp add: trim_space_def)
qed

text \<open>
  What a line shows of the match: the protocol, the ingress port, by its number or as the local port, a match in the
  text of this package, or any other field with its value.
\<close>

datatype shown =
    SProtocol string
  | SLocal
  | SInPort int
  | SMatch "match"
  | SField string string

text \<open>
  A flow that is shown.  The ages and the timeouts are printed when the switch has them, and the priority when it is not
  the default one, 32768; \<open>d_text\<close> is the text of the actions.
\<close>

record dump_entry =
  d_cookie :: uint64
  d_duration :: string
  d_table :: int
  d_packets :: uint64
  d_bytes :: uint64
  d_idle_timeout :: "int option"
  d_hard_timeout :: "int option"
  d_idle_age :: "string option"
  d_hard_age :: "string option"
  d_priority :: "int option"
  d_shown :: "shown list"
  d_text :: string
  d_actions :: "action list"

fun shown_text :: "shown \<Rightarrow> string" where
  "shown_text (SProtocol p) = p"
| "shown_text SLocal = ''in_port=LOCAL''"
| "shown_text (SInPort n) = ''in_port='' @ itoa n"
| "shown_text (SMatch m) = (case match_MarshalText m of Inl _ \<Rightarrow> [] | Inr t \<Rightarrow> t)"
| "shown_text (SField k v) = k @ ''='' @ v"

definition printed_if :: "string \<Rightarrow> string option \<Rightarrow> string list" where
  "printed_if key v = (case v of None \<Rightarrow> [] | Some t \<Rightarrow> [key @ ''='' @ t])"

definition dump_counters :: "dump_entry \<Rightarrow> string list" where
  "dump_counters e =
     [''cookie='' @ hex_lit 0 (d_cookie e), ''duration='' @ d_duration e, ''table='' @ itoa (d_table e),
      ''n_packets='' @ dec (d_packets e), ''n_bytes='' @ dec (d_bytes e)] @
     printed_if ''idle_timeout'' (map_option itoa (d_idle_timeout e)) @
     printed_if ''hard_timeout'' (map_option itoa (d_hard_timeout e)) @
     printed_if ''idle_age'' (d_idle_age e) @ printed_if ''hard_age'' (d_hard_age e)"

definition dump_match :: "dump_entry \<Rightarrow> string list" where
  "dump_match e = printed_if ''priority'' (map_option itoa (d_priority e)) @ map shown_text (d_shown e)"

text \<open>
  The line: a blank, the counters, each with a comma and a blank behind it, then the match, its parts separated by
  commas alone, a blank if there is a match, and the actions.
\<close>

definition dump_line :: "dump_entry \<Rightarrow> string" where
  "dump_line e =
     '' '' @ concat (map (\<lambda>c. c @ '', '') (dump_counters e)) @ join '','' (dump_match e) @
     (if dump_match e = [] then [] else '' '') @ ''actions='' @ d_text e"

text \<open>
  What is read.  Without a priority the first part of the match stands behind a blank: a protocol is read with the
  blank, and a match or another field is lost.  The priority is then read as 0.
\<close>

fun read_shown :: "shown \<Rightarrow> Flow \<Rightarrow> Flow" where
  "read_shown (SProtocol p) f = f\<lparr>Protocol := p\<rparr>"
| "read_shown SLocal f = f\<lparr>FInPort := PortLOCAL\<rparr>"
| "read_shown (SInPort n) f = f\<lparr>FInPort := n\<rparr>"
| "read_shown (SMatch m) f = f\<lparr>Matches := Matches f @ [m]\<rparr>"
| "read_shown (SField k v) f = (case parseMatch k v of Inr (Some m) \<Rightarrow> f\<lparr>Matches := Matches f @ [m]\<rparr> | _ \<Rightarrow> f)"

fun read_behind_blank :: "shown \<Rightarrow> Flow \<Rightarrow> Flow" where
  "read_behind_blank (SProtocol p) f = f\<lparr>Protocol := '' '' @ p\<rparr>"
| "read_behind_blank SLocal f = f\<lparr>FInPort := PortLOCAL\<rparr>"
| "read_behind_blank (SInPort n) f = f\<lparr>FInPort := n\<rparr>"
| "read_behind_blank (SMatch m) f = f"
| "read_behind_blank (SField k v) f = f"

definition read_counters :: "dump_entry \<Rightarrow> Flow" where
  "read_counters e =
     \<lparr>Priority = 0, Protocol = [], FInPort = 0, Matches = [], Table = d_table e,
      IdleTimeout = (case d_idle_timeout e of None \<Rightarrow> 0 | Some n \<Rightarrow> n), Cookie = d_cookie e, Actions = [],
      Stats = \<lparr>PacketCount = d_packets e, ByteCount = d_bytes e\<rparr>\<rparr>"

definition read_match :: "dump_entry \<Rightarrow> Flow \<Rightarrow> Flow" where
  "read_match e f =
     (case (d_priority e, d_shown e) of
        (Some n, is) \<Rightarrow> fold read_shown is (f\<lparr>Priority := n\<rparr>)
      | (None, []) \<Rightarrow> f
      | (None, i # is) \<Rightarrow> fold read_shown is (read_behind_blank i f))"

definition read_entry :: "dump_entry \<Rightarrow> Flow" where
  "read_entry e = (read_match e (read_counters e))\<lparr>Actions := d_actions e\<rparr>"

text \<open>
  The entries that are shown: the numbers fit, the words have no blank, comma or equals sign in them, no other field has
  a value that \<open>parseMatch\<close> refuses, and the text of the actions is one that the parser reads as these actions.
\<close>

fun shown_ok :: "shown \<Rightarrow> bool" where
  "shown_ok (SProtocol p) \<longleftrightarrow> value_text p \<and> p \<noteq> []"
| "shown_ok SLocal \<longleftrightarrow> True"
| "shown_ok (SInPort n) \<longleftrightarrow> int_range n"
| "shown_ok (SMatch m) \<longleftrightarrow> canonical m \<and> \<not> is_in_port m"
| "shown_ok (SField k v) \<longleftrightarrow>
     value_text k \<and> k \<noteq> [] \<and> value_text v \<and> \<not> suffix ''actions'' k \<and> \<not> isl (parseMatch k v) \<and>
     k \<notin> {''priority'', ''cookie'', ''in_port'', ''idle_timeout'', ''table'', ''n_packets'', ''n_bytes'', ''duration'',
          ''hard_age'', ''idle_age''}"

definition option_ok :: "('a \<Rightarrow> bool) \<Rightarrow> 'a option \<Rightarrow> bool" where
  "option_ok p v = (case v of None \<Rightarrow> True | Some x \<Rightarrow> p x)"

definition entry_ok :: "dump_entry \<Rightarrow> bool" where
  "entry_ok e \<longleftrightarrow>
     int_range (d_table e) \<and> option_ok int_range (d_idle_timeout e) \<and> option_ok int_range (d_hard_timeout e) \<and>
     value_text (d_duration e) \<and> option_ok value_text (d_idle_age e) \<and> option_ok value_text (d_hard_age e) \<and>
     option_ok int_range (d_priority e) \<and> list_all shown_ok (d_shown e) \<and>
     list_all arg_char (d_text e) \<and> d_text e \<noteq> [] \<and> \<not> contains (d_text e) ''actions='' \<and>
     (case Parse (d_text e) of
        Inl _ \<Rightarrow> False
      | Inr (as, raw) \<Rightarrow> d_actions e = as \<and> \<not> (length raw > 1 \<and> ''drop'' \<in> set raw))"

section \<open>The elements of a line\<close>

text \<open>The elements between the commas.\<close>

definition match_elements :: "string list \<Rightarrow> string list" where
  "match_elements ps = (case ps of [] \<Rightarrow> [[]] | p # ps \<Rightarrow> (CHR '' '' # p) # ps)"

definition dump_elements :: "dump_entry \<Rightarrow> string list" where
  "dump_elements e =
     hd (dump_counters e) # map ((#) (CHR '' '')) (tl (dump_counters e)) @ match_elements (dump_match e)"

lemma join_blank: "concat (map (\<lambda>c. c @ '', '') (x # xs)) = join '','' (x # map ((#) (CHR '' '')) xs) @ '', ''"
  by (induction xs arbitrary: x) (auto simp: join_Cons)

lemma dump_line_elements: "dump_line e = CHR '' '' # join '','' (dump_elements e) @ CHR '' '' # ''actions='' @ d_text e"
proof -
  obtain c cs where c: "dump_counters e = c # cs" by (simp add: dump_counters_def)
  show ?thesis
    unfolding dump_line_def dump_elements_def c join_blank
    by (cases "dump_match e") (simp_all add: match_elements_def join_append join_Cons)
qed

lemma ParseUint_hex0: "ParseUint (hex_lit n (c :: uint64)) 0 64 = Inr (unat c)"
proof -
  have "CHR ''_'' \<notin> set (hex_pad n c)" by (auto dest!: hex_pad_chars simp: is_digit_def byte_def)
  moreover have "unat c \<le> 2 ^ 64 - 1" using unsigned_less[of c, where ?'a = nat] by simp
  moreover have "length (hex_pad n c) > 0" by simp
  ultimately show ?thesis
    by (simp add: ParseUint_def parse_uint_def hex_lit_def base_prefix_def
        to_lower_char_def byte_def uint_loop_hex_pad num_result_def Suc_le_eq)
qed

lemma ParseUint_dec0: "ParseUint (dec (w :: uint64)) 0 64 = Inr (unat w)"
proof (cases "unat w = 0")
  case True
  then show ?thesis
    by (simp add: dec_def fmt_nat.simps ParseUint_def parse_uint_def base_prefix_def num_result_def)
next
  case False
  then have "hd (dec w) \<noteq> CHR ''0''" using fmt_nat_leading_zero[of 10 "unat w"] by (auto simp: dec_def)
  moreover have "CHR ''_'' \<notin> set (dec w)" by (auto dest!: dec_chars simp: is_digit_def byte_def)
  moreover have "dec w \<noteq> []" by (simp add: dec_def)
  moreover have "uint_loop True 10 (2 ^ 64 - 1) 0 (dec w) = Inr (unat w)"
    using unsigned_less[of w, where ?'a = nat] by (simp add: dec_def uint_loop_fmt_nat)
  ultimately show ?thesis
    by (simp add: ParseUint_def parse_uint_def base_prefix_def num_result_def)
qed

lemma value_words2 [simp]: "value_text duration" "value_text nPackets" "value_text nBytes"
  by (simp_all add: value_text_def value_char_def byte_def)

lemma element_stats:
  "unmarshal_element f (nPackets @ CHR ''='' # dec n) = (f\<lparr>Stats := Stats f\<lparr>PacketCount := n\<rparr>\<rparr>, None)"
  "unmarshal_element f (nBytes @ CHR ''='' # dec n) = (f\<lparr>Stats := Stats f\<lparr>ByteCount := n\<rparr>\<rparr>, None)"
  "unmarshal_element f (cookie @ CHR ''='' # hex_lit k c) = (f\<lparr>Cookie := c\<rparr>, None)"
  "value_text d \<Longrightarrow> unmarshal_element f (duration @ CHR ''='' # d) = (f, None)"
  by (subst element_key_value; simp add: uint_case_def ParseUint_dec0 ParseUint_hex0)+

lemma element_blank_counter:
  assumes "value_text v" and "k \<in> {priority, table, idleTimeout, nPackets, nBytes, duration}"
  shows "unmarshal_element f (CHR '' '' # k @ CHR ''='' # v) = unmarshal_element f (k @ CHR ''='' # v)"
  using assms by (subst element_blank) auto

lemmas counter_elements =
  element_blank_counter [where k = priority, simplified]
  element_blank_counter [where k = table, simplified]
  element_blank_counter [where k = idleTimeout, simplified]
  element_blank_counter [where k = nPackets, simplified]
  element_blank_counter [where k = nBytes, simplified]
  element_blank_counter [where k = duration, simplified]
  element_stats [simplified] element_priority [simplified] element_table [simplified]
  element_idleTimeout [simplified]

section \<open>Reading the elements\<close>

text \<open>The counters: those behind a blank are read as the ones without.\<close>

lemma element_ages:
  assumes "value_text v"
  shows "unmarshal_element f (CHR '' '' # idleAge @ CHR ''='' # v) = (f, None)"
    and "unmarshal_element f (CHR '' '' # hardAge @ CHR ''='' # v) = (f, None)"
    and "unmarshal_element f (CHR '' '' # ''hard_timeout'' @ CHR ''='' # v) = (f, None)"
proof -
  have "value_text idleAge" "value_text hardAge" "value_text ''hard_timeout''"
    by (simp_all add: value_text_def value_char_def byte_def)
  then show "unmarshal_element f (CHR '' '' # idleAge @ CHR ''='' # v) = (f, None)"
    "unmarshal_element f (CHR '' '' # hardAge @ CHR ''='' # v) = (f, None)"
    "unmarshal_element f (CHR '' '' # ''hard_timeout'' @ CHR ''='' # v) = (f, None)"
    using assms by (simp_all add: element_blank element_key_value parseMatch_blank del: append_Cons append.simps)
qed

lemma unmarshal_counters:
  assumes "entry_ok e"
  shows "unmarshal_elements zero_flow (hd (dump_counters e) # map ((#) (CHR '' '')) (tl (dump_counters e))) =
    (read_counters e, None)"
proof -
  have "value_text (d_duration e)" "int_range (d_table e)" "option_ok int_range (d_idle_timeout e)"
    "option_ok value_text (d_idle_age e)" "option_ok value_text (d_hard_age e)"
    using assms by (simp_all add: entry_ok_def)
  then show ?thesis
    by (cases "d_idle_timeout e"; cases "d_hard_timeout e"; cases "d_idle_age e"; cases "d_hard_age e")
      (simp_all add: dump_counters_def printed_if_def option_ok_def counter_elements element_ages[simplified]
        read_counters_def zero_flow_def)
qed

text \<open>A part of the match, in its place and behind a blank.\<close>

lemma element_in_port_text:
  assumes "value_text v"
  shows "element_ok (inPort @ CHR ''='' # v)"
    and "unmarshal_element f (CHR '' '' # inPort @ CHR ''='' # v) = unmarshal_element f (inPort @ CHR ''='' # v)"
  using assms element_okI[of inPort v] element_blank[of inPort v f] by (simp_all add: suffix_to_prefix)

lemma element_in_port_value:
  "unmarshal_element f (inPort @ CHR ''='' # portLOCAL) = (f\<lparr>FInPort := PortLOCAL\<rparr>, None)"
  "int_range n \<Longrightarrow> unmarshal_element f (inPort @ CHR ''='' # itoa n) = (f\<lparr>FInPort := n\<rparr>, None)"
proof -
  have "itoa n \<noteq> portLOCAL" using itoa_chars[of "CHR ''L''" n] by (auto simp: is_digit_def byte_def)
  then show "int_range n \<Longrightarrow> unmarshal_element f (inPort @ CHR ''='' # itoa n) = (f\<lparr>FInPort := n\<rparr>, None)"
    by (subst element_key_value) (simp_all add: int_case_itoa)
qed (subst element_key_value; simp)

lemma element_protocol_blank:
  assumes "value_text p"
  shows "unmarshal_element f (CHR '' '' # p) = (f\<lparr>Protocol := CHR '' '' # p\<rparr>, None)"
  using assms value_text_no(1) by (simp add: unmarshal_element_def)

lemma shown_read:
  assumes "shown_ok i"
  shows "element_ok (shown_text i)"
    and "unmarshal_element f (shown_text i) = (read_shown i f, None)"
    and "unmarshal_element f (CHR '' '' # shown_text i) = (read_behind_blank i f, None)"
proof (atomize (full), cases i)
  case (SProtocol p)
  with assms show "element_ok (shown_text i) \<and> unmarshal_element f (shown_text i) = (read_shown i f, None) \<and>
      unmarshal_element f (CHR '' '' # shown_text i) = (read_behind_blank i f, None)"
    by (simp add: element_protocol element_protocol_blank element_ok_def)
next
  case SLocal
  then show "element_ok (shown_text i) \<and> unmarshal_element f (shown_text i) = (read_shown i f, None) \<and>
      unmarshal_element f (CHR '' '' # shown_text i) = (read_behind_blank i f, None)"
    using element_in_port_text[of portLOCAL] element_in_port_value(1)[of f] by simp
next
  case (SInPort n)
  with assms show "element_ok (shown_text i) \<and> unmarshal_element f (shown_text i) = (read_shown i f, None) \<and>
      unmarshal_element f (CHR '' '' # shown_text i) = (read_behind_blank i f, None)"
    using element_in_port_text[of "itoa n"] element_in_port_value(2)[of n f] by simp
next
  case (SMatch m)
  with assms obtain k v where kv: "match_MarshalText m = Inr (k @ CHR ''='' # v)" "k \<in> set match_keys"
    "value_text k" "value_text v"
    "\<And>f. unmarshal_element f (k @ CHR ''='' # v) = (f\<lparr>Matches := Matches f @ [m]\<rparr>, None)"
    by (auto elim: element_match)
  have "k \<noteq> inPort"
  proof
    assume "k = inPort"
    have "Matches (fst (unmarshal_element zero_flow (inPort @ CHR ''='' # v))) = Matches zero_flow"
      using kv(4) by (subst element_key_value) (auto simp: int_case_def split: sum.splits)
    with kv(5)[of zero_flow] \<open>k = inPort\<close> show False by simp
  qed
  with kv match_key_cases[OF kv(2)] match_keys_char[OF kv(2)] match_key_suffix[OF kv(2)] SMatch
  show "element_ok (shown_text i) \<and> unmarshal_element f (shown_text i) = (read_shown i f, None) \<and>
      unmarshal_element f (CHR '' '' # shown_text i) = (read_behind_blank i f, None)"
    by (simp add: element_blank parseMatch_blank element_okI)
next
  case (SField k v)
  with assms show "element_ok (shown_text i) \<and> unmarshal_element f (shown_text i) = (read_shown i f, None) \<and>
      unmarshal_element f (CHR '' '' # shown_text i) = (read_behind_blank i f, None)"
    by (cases "parseMatch k v")
      (auto simp: element_blank element_key_value parseMatch_blank element_okI split: option.splits)
qed

section \<open>Reading a line\<close>

lemma fold_shown:
  "list_all shown_ok is \<Longrightarrow> unmarshal_elements f (map shown_text is) = (fold read_shown is f, None)"
  by (induction "is" arbitrary: f) (simp_all add: shown_read(2))

lemma unmarshal_match:
  assumes "entry_ok e"
  shows "unmarshal_elements f (match_elements (dump_match e)) = (read_match e f, None)"
proof -
  have e: "list_all shown_ok (d_shown e)" "option_ok int_range (d_priority e)"
    using assms by (simp_all add: entry_ok_def)
  show ?thesis
  proof (cases "d_priority e")
    case None
    show ?thesis
    proof (cases "d_shown e")
      case Nil
      with None show ?thesis
        by (simp add: match_elements_def dump_match_def printed_if_def read_match_def unmarshal_element_def contains_def)
    next
      case (Cons i "is")
      with None e show ?thesis
        by (simp add: match_elements_def dump_match_def printed_if_def read_match_def shown_read(3) fold_shown
            del: shown_text.simps)
    qed
  next
    case (Some n)
    with e show ?thesis
      by (simp add: match_elements_def dump_match_def printed_if_def read_match_def option_ok_def counter_elements
          fold_shown)
  qed
qed

lemma unmarshal_dump_elements:
  assumes "entry_ok e"
  shows "unmarshal_elements zero_flow (dump_elements e) = (read_match e (read_counters e), None)"
  using unmarshal_elements_append[OF unmarshal_counters[OF assms]] unmarshal_match[OF assms]
  by (simp add: dump_elements_def)

text \<open>The texts between the commas are elements, with a blank before them or not.\<close>

lemma printed_if_ok:
  assumes "value_text key" and "\<not> suffix ''actions'' key" and "option_ok value_text v"
  shows "list_all element_ok (printed_if key v)"
  using assms element_okI[of key] by (auto simp: printed_if_def option_ok_def split: option.splits)

lemma dump_parts_ok:
  assumes "entry_ok e"
  shows "list_all element_ok (dump_counters e)" and "list_all element_ok (dump_match e)"
proof -
  have e: "value_text (d_duration e)" "option_ok value_text (d_idle_age e)" "option_ok value_text (d_hard_age e)"
    "list_all shown_ok (d_shown e)"
    using assms by (simp_all add: entry_ok_def)
  have keys: "value_text ''idle_timeout''" "value_text ''hard_timeout''" "value_text ''idle_age''"
    "value_text ''hard_age''" "value_text ''priority''"
    by (simp_all add: value_text_def value_char_def byte_def)
  have n: "option_ok value_text (map_option itoa n)" for n by (cases n) (simp_all add: option_ok_def)
  have "list_all element_ok (map shown_text (d_shown e))"
    using e(4) shown_read(1) by (auto simp: list_all_iff)
  then show "list_all element_ok (dump_match e)"
    using printed_if_ok[OF keys(5) _ n] by (simp add: dump_match_def suffix_to_prefix)
  have "list_all element_ok (printed_if ''idle_timeout'' (map_option itoa (d_idle_timeout e)))"
    "list_all element_ok (printed_if ''hard_timeout'' (map_option itoa (d_hard_timeout e)))"
    "list_all element_ok (printed_if ''idle_age'' (d_idle_age e))"
    "list_all element_ok (printed_if ''hard_age'' (d_hard_age e))"
    using keys e n by (intro printed_if_ok; simp add: suffix_to_prefix)+
  moreover have "list_all element_ok [''cookie='' @ hex_lit 0 (d_cookie e), ''duration='' @ d_duration e,
      ''table='' @ itoa (d_table e), ''n_packets='' @ dec (d_packets e), ''n_bytes='' @ dec (d_bytes e)]"
    using e(1) element_okI[of cookie] element_okI[of duration] element_okI[of table] element_okI[of nPackets]
      element_okI[of nBytes] by (simp add: suffix_to_prefix)
  ultimately show "list_all element_ok (dump_counters e)" unfolding dump_counters_def by simp
qed

lemma dump_element_cases:
  assumes "entry_ok e" and "t \<in> set (dump_elements e)"
  shows "t = [] \<or> element_ok t \<or> (\<exists>u. element_ok u \<and> t = CHR '' '' # u)"
proof -
  have "dump_counters e \<noteq> []" by (simp add: dump_counters_def)
  then have "t \<in> set (dump_counters e) \<or> (\<exists>u \<in> set (dump_counters e). t = CHR '' '' # u) \<or> t = [] \<or>
      t \<in> set (dump_match e) \<or> (\<exists>u \<in> set (dump_match e). t = CHR '' '' # u)"
    using assms(2) by (cases "dump_match e"; cases "dump_counters e") (auto simp: dump_elements_def match_elements_def)
  with dump_parts_ok[OF assms(1)] show ?thesis by (auto simp: list_all_iff)
qed

lemma dump_element_plain:
  assumes "entry_ok e" and "t \<in> set (dump_elements e)"
  shows "CHR '','' \<notin> set t" and "\<not> contains t ''actions=''" and "\<forall>c \<in> set t. arg_char c \<or> c = CHR '' ''"
proof -
  have nc: "\<not> contains (CHR '' '' # u) ''actions=''" if "\<not> contains u ''actions=''" for u
    using that sublist_around[of "''actions=''" "[]" "CHR '' ''" u] by (auto simp: contains_iff)
  have empty: "\<not> contains [] ''actions=''" by (simp add: contains_def)
  show "CHR '','' \<notin> set t" "\<not> contains t ''actions=''" "\<forall>c \<in> set t. arg_char c \<or> c = CHR '' ''"
    using dump_element_cases[OF assms] element_ok_char element_ok_contains nc empty by fastforce+
qed

lemma dump_elements_last:
  assumes "entry_ok e"
  shows "arg_char (last (join '','' (dump_elements e)))"
proof -
  have comma: "arg_char (CHR '','')" by (simp add: arg_char_def byte_def)
  obtain c cs where c: "dump_elements e = (c # cs) @ match_elements (dump_match e)"
    by (simp add: dump_elements_def)
  show ?thesis
  proof (cases "dump_match e")
    case Nil
    then show ?thesis using comma join_append[of "c # cs" "[[]]" "'',''"] by (simp add: c match_elements_def)
  next
    case (Cons p ps)
    note ends = element_ok_ends(1)[OF dump_parts_ok(2)[OF assms]] join_elements_chars[OF dump_parts_ok(2)[OF assms]]
    have "join '','' (dump_elements e) = join '','' (c # cs) @ '','' @ CHR '' '' # join '','' (dump_match e)"
      unfolding c Cons by (subst join_append) (simp_all add: match_elements_def join_Cons)
    with ends Cons show ?thesis by (simp add: list_all_iff del: join.simps)
  qed
qed

lemma dump_line_parts:
  assumes "entry_ok e"
  shows "\<not> contains (CHR '' '' # join '','' (dump_elements e)) ''actions=''"
    and "split '','' (join '','' (dump_elements e)) = dump_elements e"
    and "trim_space (CHR '' '' # join '','' (dump_elements e) @ '' '') = join '','' (dump_elements e)"
proof -
  note plain = dump_element_plain[OF assms]
  have "\<not> contains (join '','' (dump_elements e)) ''actions=''" using plain by (intro not_contains_join) auto
  then show "\<not> contains (CHR '' '' # join '','' (dump_elements e)) ''actions=''"
    using sublist_around[of "''actions=''" "[]" "CHR '' ''"] by (auto simp: contains_iff)
  show "split '','' (join '','' (dump_elements e)) = dump_elements e"
    by (rule split_join) (use plain in \<open>auto simp: dump_elements_def\<close>)
  have hd: "hd (join '','' (dump_elements e)) = CHR ''c''" "join '','' (dump_elements e) \<noteq> []"
    by (simp_all add: dump_elements_def dump_counters_def join_Cons)
  show "trim_space (CHR '' '' # join '','' (dump_elements e) @ '' '') = join '','' (dump_elements e)"
    using hd dump_elements_last[OF assms] arg_char_ascii by (intro trim_space_ends) (simp_all add: byte_def ascii_space_def)
qed

lemma dump_line_read:
  assumes "entry_ok e"
  shows "Flow_UnmarshalText zero_flow (dump_line e) = (read_entry e, None)"
    and "list_all (\<lambda>c. arg_char c \<or> c = CHR '' '') (dump_line e)" and "arg_char (last (dump_line e))"
proof -
  let ?P = "CHR '' '' # join '','' (dump_elements e)"
  note parts = dump_line_parts[OF assms]
  from assms obtain raw where e: "list_all arg_char (d_text e)" "d_text e \<noteq> []" "\<not> contains (d_text e) ''actions=''"
    "Parse (d_text e) = Inr (d_actions e, raw)" "\<not> (length raw > 1 \<and> ''drop'' \<in> set raw)"
    by (auto simp: entry_ok_def split: sum.splits)
  have "split ''actions='' (?P @ CHR '' '' # ''actions='' @ d_text e) = [?P @ '' '', d_text e]"
    using split_token[OF parts(1), of "CHR '' ''" "''actions='' @ d_text e"] split_no_occurrence[OF e(3)] by simp
  then have sp: "split (keyActions @ ''='') (dump_line e) = [?P @ '' '', d_text e]"
    unfolding dump_line_elements by simp
  have trimQ: "trim_space (d_text e) = d_text e" using e(1) by (rule trim_space_args)
  have z: "zero_flow\<lparr>Matches := []\<rparr> = zero_flow" by (simp add: zero_flow_def)
  show "Flow_UnmarshalText zero_flow (dump_line e) = (read_entry e, None)"
    unfolding Flow_UnmarshalText_def sp
    using e parts by (simp add: Let_def trimQ unmarshal_dump_elements[OF assms] z read_entry_def)
  have "arg_char c \<or> c = CHR '' ''" if "c \<in> set (join '','' (dump_elements e))" for c
    using that set_join_subset[of "'',''" "dump_elements e"] dump_element_plain(3)[OF assms]
    by (fastforce simp: arg_char_def byte_def)
  then show "list_all (\<lambda>c. arg_char c \<or> c = CHR '' '') (dump_line e)"
    unfolding dump_line_elements using e(1) by (auto simp: list_all_iff arg_char_def byte_def)
  show "arg_char (last (dump_line e))"
    unfolding dump_line_elements using e(1,2) by (simp add: list_all_iff)
qed

end
