(* ===== verification/FlowProps.thy ===== *)
theory FlowProps
  imports DumpFormat ActionProps MatchProps
begin

text \<open>
  The properties of \<open>ovs/flow.go\<close> and \<open>ovs/matchflow.go\<close>: the text of a flow and of a flow pattern, and
  what is read from the lines that \<open>ovs-ofctl dump-flows\<close> prints.
\<close>

section \<open>Printing a flow\<close>

text \<open>
  C1.  A flow in canonical form is printed without an error, as one line of printing characters,
  and \<open>UnmarshalText\<close> gives the flow back: priority, protocol, port, matches, table, timeout, cookie and actions.
\<close>

theorem flow_round_trip:
  assumes "canonical_flow f"
  shows "\<exists>t. Flow_MarshalText f = Inr t \<and> list_all arg_char t \<and> Flow_UnmarshalText zero_flow t = (f, None)"
  using canonical_flow_round_trip[OF assms] by blast

definition example_flow :: Flow where
  "example_flow = zero_flow
     \<lparr>Priority := 100, Protocol := ''tcp'', FInPort := PortLOCAL,
      Matches := [TransportSourcePort 80, VLANTCI 0x1000 0x1000, ICMPType 3], Table := 5, Cookie := 0x1f,
      Actions := [ModTransportDestinationPort 8080, Resubmit 0 1]\<rparr>"

lemma example_flow_canonical: "canonical_flow example_flow"
  by (simp add: example_flow_def canonical_flow_def zero_flow_def match_constructors action_constructors
      action_MarshalText_defs canonical_srcdst_def int_range_def PortLOCAL_def print_eval contains_def prefix_Cons
      value_text_def value_char_def byte_def)

lemma flow_round_trip_witness:
  "\<exists>t. Flow_MarshalText example_flow = Inr t \<and> list_all arg_char t \<and>
     Flow_UnmarshalText zero_flow t = (example_flow, None)"
  by (rule flow_round_trip) (rule example_flow_canonical)

lemma mapR_isr: "list_all (\<lambda>x. \<not> isl (f x)) xs = (\<exists>ys. mapR f xs = Inr ys)"
proof (induction xs)
  case (Cons x xs)
  then show ?case by (cases "f x"; cases "mapR f xs") auto
qed simp

lemma mapR_in_set: "mapR f xs = Inr ys \<Longrightarrow> list_all (\<lambda>x. f x \<noteq> Inr y) xs = (y \<notin> set ys)"
  by (induction xs arbitrary: ys) (auto split: sum.splits)

text \<open>
  C19.  A flow has a text exactly when it has actions, each of its actions and matches has a text, and
  \<open>drop\<close> is not among several actions.
\<close>

theorem Flow_MarshalText_ok_iff:
  "\<not> isl (Flow_MarshalText f) \<longleftrightarrow>
     Actions f \<noteq> [] \<and> list_all (\<lambda>a. \<not> isl (action_MarshalText a)) (Actions f) \<and>
     list_all (\<lambda>m. \<not> isl (match_MarshalText m)) (Matches f) \<and>
     \<not> (length (Actions f) > 1 \<and> \<not> list_all (\<lambda>a. action_MarshalText a \<noteq> Inr actionDrop) (Actions f))"
proof (cases "marshalActions (Actions f)")
  case (Inl e)
  then have "\<not> list_all (\<lambda>a. \<not> isl (action_MarshalText a)) (Actions f)"
    by (simp add: mapR_isr marshalActions_def)
  with Inl show ?thesis by (auto simp: Flow_MarshalText_def)
next
  case (Inr ss)
  then have ss: "mapR action_MarshalText (Actions f) = Inr ss" by (simp add: marshalActions_def)
  note a = mapR_in_set[OF ss] mapR_isr[of action_MarshalText "Actions f"] mapR_length[OF ss]
  show ?thesis
    using mapR_isr[of match_MarshalText "Matches f"] ss a Inr
    by (cases "marshalMatches (Matches f)") (auto simp: Flow_MarshalText_def marshalMatches_def)
qed

text \<open>
  C20.  The text of a flow pattern is the list of its elements with commas between them; a pattern that would
  match every flow, without an element, is refused with \<open>errEmptyMatchFlow\<close>.
\<close>

theorem MatchFlow_text_elements:
  assumes "list_all canonical (MMatches f)" and "value_text (MProtocol f)"
  shows "\<exists>ms. mapR match_MarshalText (MMatches f) = Inr ms \<and>
    MatchFlow_MarshalText f =
      (if MProtocol f = [] \<and> MInPort f = 0 \<and> MMatches f = [] \<and> MCookie f = 0 \<and> MCookieMask f = 0 \<and>
          MTable f = AnyTable
       then Inl (MatchFlowError [] errEmptyMatchFlow)
       else Inr (join '','' (match_flow_elements f ms)))"
proof -
  from canonical_matches_elements[OF assms(1)] obtain ms where
    ms: "mapR match_MarshalText (MMatches f) = Inr ms" "length ms = length (MMatches f)" "list_all element_ok ms"
    by blast
  have "match_flow_elements f ms = [] \<longleftrightarrow>
      MProtocol f = [] \<and> MInPort f = 0 \<and> MMatches f = [] \<and> MCookie f = 0 \<and> MCookieMask f = 0 \<and> MTable f = AnyTable"
    using ms(2) by (auto simp: match_flow_elements_def word_gt_0)
  with MatchFlow_text(1)[OF ms(1,3) assms(2)] ms(1) show ?thesis by auto
qed

lemma MatchFlow_text_elements_witness:
  "MatchFlow_MarshalText \<lparr>MProtocol = [], MInPort = 0, MMatches = [], MTable = AnyTable, MCookie = 0, MCookieMask = 0\<rparr> =
     Inl (MatchFlowError [] errEmptyMatchFlow)"
  using MatchFlow_text_elements[of "\<lparr>MProtocol = [], MInPort = 0, MMatches = [], MTable = AnyTable, MCookie = 0, MCookieMask = 0\<rparr>"]
  by simp

section \<open>Reading a flow\<close>

text \<open>
  \<open>UnmarshalText\<close> compares the key of a field without the blanks around it, but hands the untrimmed key on to
  \<open>parseMatch\<close>: a match behind a comma and a blank is dropped without an error, whatever its value.
\<close>

theorem blank_before_match_drops_it:
  assumes "k \<in> set match_keys" and "k \<noteq> inPort" and "value_text v"
  shows "unmarshal_element f ('' '' @ k @ ''='' @ v) = (f, None)"
proof -
  have "k \<notin> {priority, cookie, keyActions, inPort, idleTimeout, table, nPackets, nBytes, duration, hardAge, idleAge}"
    using match_key_cases[OF assms(1)] assms(2) by auto
  with assms match_keys_char[OF assms(1)] show ?thesis
    by (simp add: element_blank parseMatch_blank)
qed

lemma blank_before_match_drops_it_witness: "unmarshal_element zero_flow '' nw_src=10.0.0.1'' = (zero_flow, None)"
  using blank_before_match_drops_it[of nwSRC "''10.0.0.1''" zero_flow]
  by (simp add: value_text_def value_char_def byte_def)


text \<open>Two lines: one of the tests of \<open>ovs/flow.go\<close>, and one of a flow with the default priority.\<close>

definition example_entry :: dump_entry where
  "example_entry =
     \<lparr>d_cookie = 0, d_duration = ''9215.748s'', d_table = 0, d_packets = 6, d_bytes = 480, d_idle_timeout = None,
      d_hard_timeout = None, d_idle_age = Some ''9206'', d_hard_age = Some ''65535'', d_priority = Some 820,
      d_shown = [SLocal], d_text = ''mod_vlan_vid:10,output:1'', d_actions = [ModVLANVID 10, Output 1]\<rparr>"

definition default_entry :: dump_entry where
  "default_entry =
     \<lparr>d_cookie = 10, d_duration = ''13.265s'', d_table = 12, d_packets = 0, d_bytes = 0, d_idle_timeout = Some 60,
      d_hard_timeout = None, d_idle_age = Some ''13'', d_hard_age = None, d_priority = None,
      d_shown = [SMatch (ConnectionTrackingState [''+new'', ''+trk'']), SProtocol ''tcp'', SField ''tun_src'' ''10.0.0.1'', SField ''recirc_id'' ''0''],
      d_text = ''drop'', d_actions = [Drop]\<rparr>"

lemma example_entry_text:
  "dump_line example_entry =
     '' cookie=0x0, duration=9215.748s, table=0, n_packets=6, n_bytes=480, idle_age=9206, hard_age=65535, priority=820,in_port=LOCAL actions=mod_vlan_vid:10,output:1''"
  by (simp add: dump_line_def example_entry_def dump_counters_def dump_match_def printed_if_def print_eval)

lemma default_entry_text:
  "dump_line default_entry =
     '' cookie=0xa, duration=13.265s, table=12, n_packets=0, n_bytes=0, idle_timeout=60, idle_age=13, ct_state=+new+trk,tcp,tun_src=10.0.0.1,recirc_id=0 actions=drop''"
  by (simp add: dump_line_def default_entry_def dump_counters_def dump_match_def printed_if_def match_constructors
      match_MarshalText_defs print_eval)

lemma example_entry_ok: "entry_ok example_entry"
proof -
  obtain ss where "marshalActions [ModVLANVID 10, Output 1] = Inr ss" "Parse (join '','' ss) = Inr ([ModVLANVID 10, Output 1], ss)"
    by (rule canonical_actions_read_back[of "[ModVLANVID 10, Output 1]"]) (simp add: action_constructors int_range_def validVLANVID_def)
  then have "Parse ''mod_vlan_vid:10,output:1'' = Inr ([ModVLANVID 10, Output 1], [''mod_vlan_vid:10'', ''output:1''])"
    by (auto simp: marshalActions_def action_constructors action_MarshalText_defs validVLANVID_def print_eval)
  then show ?thesis
    by (simp add: entry_ok_def example_entry_def option_ok_def int_range_def value_text_def value_char_def arg_char_def
        contains_def byte_def)
qed

lemma default_entry_ok: "entry_ok default_entry"
proof -
  obtain ss where "marshalActions [Drop] = Inr ss" "Parse (join '','' ss) = Inr ([Drop], ss)"
    by (rule canonical_actions_read_back[of "[Drop]"]) (simp add: action_constructors)
  then have "Parse ''drop'' = Inr ([Drop], [''drop''])"
    by (auto simp: marshalActions_def action_constructors action_MarshalText_defs)
  then show ?thesis
    by (simp add: entry_ok_def default_entry_def option_ok_def int_range_def value_text_def value_char_def arg_char_def
        contains_def byte_def match_constructors parseMatch_def suffix_to_prefix found_def signed_flag_def flag_char_def)
qed

lemma example_entries_read:
  "read_entry example_entry = zero_flow\<lparr>Priority := 820, FInPort := PortLOCAL, Actions := [ModVLANVID 10, Output 1],
     Stats := \<lparr>PacketCount = 6, ByteCount = 480\<rparr>\<rparr>"
  "read_entry default_entry = zero_flow\<lparr>Protocol := ''tcp'', Matches := [NetworkSource ''10.0.0.1''], Table := 12,
     IdleTimeout := 60, Cookie := 10, Actions := [Drop]\<rparr>"
  by (simp_all add: read_entry_def read_match_def read_counters_def example_entry_def default_entry_def zero_flow_def
      parseMatch_def found_def)


text \<open>
  The names of the simple actions are read in any case, while the check for \<open>drop\<close> among several actions
  compares the text: \<open>DROP\<close> with another action is read without an error as a flow that
  \<open>MarshalText\<close> refuses to print.
\<close>

theorem drop_check_misses_upper_case:
  "let f = zero_flow\<lparr>Table := 1, Actions := [Drop, Normal]\<rparr> in
     Flow_UnmarshalText zero_flow ''table=1 actions=DROP,normal'' = (f, None) \<and>
     Flow_MarshalText f = Inl (FlowError [] errActionsWithDrop)"
proof -
  have "to_lower_char (CHR ''D'') = CHR ''d''" "to_lower_char (CHR ''R'') = CHR ''r''"
    "to_lower_char (CHR ''O'') = CHR ''o''" "to_lower_char (CHR ''P'') = CHR ''p''"
    unfolding byte_inject[symmetric] by (simp_all add: to_lower_char_def byte_def)
  then have "parseAction ''DROP'' = Inr Drop"
    by (simp add: parseAction_defs simple_action_def action_constructors Let_def)
  moreover have "parseAction ''normal'' = Inr Normal"
    by (simp add: parseAction_defs simple_action_def action_constructors to_lower_char_def byte_def Let_def)
  ultimately have "Parse (join '','' [''DROP'', ''normal'']) = Inr ([Drop, Normal], [''DROP'', ''normal''])"
    by (intro Parse_join_aux) (simp add: byte_def)
  then have P: "Parse ''DROP,normal'' = Inr ([Drop, Normal], [''DROP'', ''normal''])" by simp
  have sp: "split ''actions='' ''table=1 actions=DROP,normal'' = [''table=1 '', ''DROP,normal'']" by simp
  have t1: "trim_space ''table=1 '' = ''table=1''"
    using trim_space_ends[of "''table=1''"] by (simp add: byte_def ascii_space_def)
  have t2: "trim_space ''DROP,normal'' = ''DROP,normal''"
    by (rule trim_space_id) (simp add: byte_def ascii_space_def)
  have "unmarshal_element f (table @ CHR ''='' # itoa 1) = (f\<lparr>Table := 1\<rparr>, None)" for f
    by (rule element_table) (simp add: int_range_def)
  then have e: "unmarshal_element f ''table=1'' = (f\<lparr>Table := 1\<rparr>, None)" for f by (simp add: print_eval)
  have "Flow_UnmarshalText zero_flow ''table=1 actions=DROP,normal'' = (zero_flow\<lparr>Table := 1, Actions := [Drop, Normal]\<rparr>, None)"
    unfolding Flow_UnmarshalText_def using sp by (simp add: t1 t2 e P zero_flow_def)
  moreover have "Flow_MarshalText (zero_flow\<lparr>Table := 1, Actions := [Drop, Normal]\<rparr>) = Inl (FlowError [] errActionsWithDrop)"
    by (simp add: Flow_MarshalText_def zero_flow_def marshalActions_def marshalMatches_def action_constructors action_MarshalText_defs)
  ultimately show ?thesis by (simp add: Let_def)
qed

end
