(* ===== verification/Json.thy ===== *)
theory Json
  imports GoNumbers
begin

text \<open>
  What the repository uses of package \<open>encoding/json\<close>: the text of a value as \<open>Marshal\<close> and an
  \<open>Encoder\<close> write it, and the value of a text as \<open>Unmarshal\<close> and a \<open>Decoder\<close> read it.  A number
  keeps its text, for the code reads no number.  The limit of the depth of nesting (10000) is not modelled.
  The theory shows that what is written is read back.
\<close>

section \<open>Values\<close>

datatype (plugins only: code size) json =
    JNull
  | JBool bool
  | JNumber string
  | JString string
  | JArray "json list"
  | JObject "(string \<times> json) list"

section \<open>Strings\<close>

text \<open>The UTF-8 encoding of a code point; a surrogate is replaced by \<open>U+FFFD\<close>.\<close>

definition utf8 :: "nat \<Rightarrow> string" where
  "utf8 n =
     (if n < 0x80 then [char_of n]
      else if n < 0x800 then map char_of [0xC0 + n div 64, 0x80 + n mod 64]
      else if 0xD800 \<le> n \<and> n < 0xE000 then rune_error
      else if n < 0x10000 then map char_of [0xE0 + n div 4096, 0x80 + n div 64 mod 64, 0x80 + n mod 64]
      else map char_of [0xF0 + n div 262144, 0x80 + n div 4096 mod 64, 0x80 + n div 64 mod 64, 0x80 + n mod 64])"

text \<open>\<open>\uXXXX\<close>: the four digits and the rest.\<close>

definition hex4 :: "string \<Rightarrow> (nat \<times> string) option" where
  "hex4 s =
     (if length s < 4 then None
      else if list_all (\<lambda>c. case digit_val c of None \<Rightarrow> False | Some d \<Rightarrow> d < 16) (take 4 s)
           then Some (foldl (\<lambda>n c. 16 * n + the (digit_val c)) 0 (take 4 s), drop 4 s)
      else None)"

lemma hex4_shrinks: "hex4 s = Some (n, t) \<Longrightarrow> length t < length s"
  by (auto simp: hex4_def split: if_splits)

text \<open>
  A code point given by \<open>\u\<close>, with the second half of a surrogate pair where there is one behind it.
\<close>

definition unicode_escape :: "string \<Rightarrow> (string \<times> string) option" where
  "unicode_escape s =
     (case hex4 s of
        None \<Rightarrow> None
      | Some (n, t) \<Rightarrow>
          if 0xD800 \<le> n \<and> n < 0xE000 then
            (case (if has_prefix t [CHR 0x5C, CHR ''u''] then hex4 (drop 2 t) else None) of
               Some (m, u) \<Rightarrow>
                 if n < 0xDC00 \<and> 0xDC00 \<le> m \<and> m < 0xE000
                 then Some (utf8 (0x10000 + (n - 0xD800) * 0x400 + (m - 0xDC00)), u)
                 else Some (rune_error, t)
             | None \<Rightarrow> Some (rune_error, t))
          else Some (utf8 n, t))"

lemma unicode_escape_shrinks: "unicode_escape s = Some (r, t) \<Longrightarrow> length t < length s"
proof -
  assume a: "unicode_escape s = Some (r, t)"
  then obtain n u where u: "hex4 s = Some (n, u)" by (auto simp: unicode_escape_def split: option.splits)
  have "length u < length s" using hex4_shrinks[OF u] .
  moreover have "length v < length u" if "hex4 (drop 2 u) = Some (m, v)" for m v
    using hex4_shrinks[OF that] by simp
  ultimately show ?thesis
    using a u by (fastforce simp: unicode_escape_def split: option.splits if_splits)
qed

text \<open>The escape of one byte.\<close>

definition simple_escape :: "char \<Rightarrow> char option" where
  "simple_escape c =
     (if c \<in> {CHR 0x22, CHR 0x5C, CHR ''/''} then Some c
      else if c = CHR ''b'' then Some (CHR 0x08)
      else if c = CHR ''f'' then Some (CHR 0x0C)
      else if c = CHR ''n'' then Some (CHR 0x0A)
      else if c = CHR ''r'' then Some (CHR 0x0D)
      else if c = CHR ''t'' then Some (CHR 0x09)
      else None)"

text \<open>The bytes of a string behind its opening quote, and what follows its closing one.\<close>

function string_body :: "string \<Rightarrow> (string \<times> string) option" where
  "string_body s =
     (case read_rune s of
        None \<Rightarrow> None
      | Some (ch, t) \<Rightarrow>
          if ch = [CHR 0x22] then Some ([], t)
          else if ch = [CHR 0x5C] then
            (case t of
               [] \<Rightarrow> None
             | e # u \<Rightarrow>
                 if e = CHR ''u'' then
                   (case unicode_escape u of
                      None \<Rightarrow> None
                    | Some (r, v) \<Rightarrow> (case string_body v of None \<Rightarrow> None | Some (w, z) \<Rightarrow> Some (r @ w, z)))
                 else
                   (case simple_escape e of
                      None \<Rightarrow> None
                    | Some c \<Rightarrow> (case string_body u of None \<Rightarrow> None | Some (w, z) \<Rightarrow> Some (c # w, z))))
          else if length ch = 1 \<and> byte (hd ch) < 32 then None
          else (case string_body t of None \<Rightarrow> None | Some (w, z) \<Rightarrow> Some (ch @ w, z)))"
  by pat_completeness auto
termination
proof (relation "measure length", goal_cases)
  case (2 s p ch t e u q r v)
  then have rr: "read_rune s = Some (ch, t)" and ue: "unicode_escape u = Some (r, v)" by simp_all
  from read_rune_shrinks[OF rr] unicode_escape_shrinks[OF ue] 2 show ?case by simp
qed (auto dest!: read_rune_shrinks)

declare string_body.simps [simp del]

section \<open>Numbers\<close>

text \<open>The digits at the head of a text.\<close>

definition digits :: "string \<Rightarrow> string \<times> string" where
  "digits s = (takeWhile is_digit s, dropWhile is_digit s)"

definition number_int :: "string \<Rightarrow> (string \<times> string) option" where
  "number_int s =
     (case s of
        [] \<Rightarrow> None
      | c # t \<Rightarrow> if c = CHR ''0'' then Some ([c], t) else if is_digit c then Some (digits s) else None)"

definition number_frac :: "string \<Rightarrow> (string \<times> string) option" where
  "number_frac s =
     (if s \<noteq> [] \<and> hd s = CHR ''.'' then
        (case digits (tl s) of (d, t) \<Rightarrow> if d = [] then None else Some (CHR ''.'' # d, t))
      else Some ([], s))"

definition number_exp :: "string \<Rightarrow> (string \<times> string) option" where
  "number_exp s =
     (if s \<noteq> [] \<and> (hd s = CHR ''e'' \<or> hd s = CHR ''E'') then
        (let t = tl s; sgn = (if t \<noteq> [] \<and> (hd t = CHR ''+'' \<or> hd t = CHR ''-'') then [hd t] else []) in
         case digits (drop (length sgn) t) of (d, u) \<Rightarrow> if d = [] then None else Some (hd s # sgn @ d, u))
      else Some ([], s))"

definition number :: "string \<Rightarrow> (string \<times> string) option" where
  "number s =
     (let sgn = (if s \<noteq> [] \<and> hd s = CHR ''-'' then ''-'' else []) in
      case number_int (drop (length sgn) s) of
        None \<Rightarrow> None
      | Some (i, t) \<Rightarrow>
          (case number_frac t of
             None \<Rightarrow> None
           | Some (f, u) \<Rightarrow>
               (case number_exp u of
                  None \<Rightarrow> None
                | Some (e, v) \<Rightarrow> Some (sgn @ i @ f @ e, v))))"

section \<open>Reading a value\<close>

definition json_space :: "char \<Rightarrow> bool" where
  "json_space c \<longleftrightarrow> c \<in> {CHR '' '', CHR 0x09, CHR 0x0D, CHR 0x0A}"

definition skip :: "string \<Rightarrow> string" where
  "skip s = dropWhile json_space s"

text \<open>
  The value at the head of a text and the rest.  The first argument bounds the number of nested
  calls; twice the length of the text and two is enough, for every second call reads a byte.
\<close>

fun json_value :: "nat \<Rightarrow> string \<Rightarrow> (json \<times> string) option"
and json_elements :: "nat \<Rightarrow> string \<Rightarrow> (json list \<times> string) option"
and json_members :: "nat \<Rightarrow> string \<Rightarrow> ((string \<times> json) list \<times> string) option" where
  "json_value 0 s = None"
| "json_value (Suc n) s =
     (case skip s of
        [] \<Rightarrow> None
      | c # t \<Rightarrow>
          if c = CHR 0x22 then (case string_body t of None \<Rightarrow> None | Some (w, u) \<Rightarrow> Some (JString w, u))
          else if c = CHR ''['' then
            (if has_prefix (skip t) '']'' then Some (JArray [], tl (skip t))
             else (case json_elements n t of None \<Rightarrow> None | Some (vs, u) \<Rightarrow> Some (JArray vs, u)))
          else if c = CHR ''{'' then
            (if has_prefix (skip t) ''}'' then Some (JObject [], tl (skip t))
             else (case json_members n t of None \<Rightarrow> None | Some (vs, u) \<Rightarrow> Some (JObject vs, u)))
          else if has_prefix (c # t) ''true'' then Some (JBool True, drop 3 t)
          else if has_prefix (c # t) ''false'' then Some (JBool False, drop 4 t)
          else if has_prefix (c # t) ''null'' then Some (JNull, drop 3 t)
          else (case number (c # t) of None \<Rightarrow> None | Some (w, u) \<Rightarrow> Some (JNumber w, u)))"
| "json_elements 0 s = None"
| "json_elements (Suc n) s =
     (case json_value n s of
        None \<Rightarrow> None
      | Some (v, t) \<Rightarrow>
          (case skip t of
             [] \<Rightarrow> None
           | c # u \<Rightarrow>
               if c = CHR '']'' then Some ([v], u)
               else if c = CHR '','' then
                 (case json_elements n u of None \<Rightarrow> None | Some (vs, w) \<Rightarrow> Some (v # vs, w))
               else None))"
| "json_members 0 s = None"
| "json_members (Suc n) s =
     (if \<not> has_prefix (skip s) [CHR 0x22] then None
      else (case string_body (tl (skip s)) of
        None \<Rightarrow> None
      | Some (k, t) \<Rightarrow>
          if \<not> has_prefix (skip t) '':'' then None
          else (case json_value n (tl (skip t)) of
            None \<Rightarrow> None
          | Some (v, u) \<Rightarrow>
              (case skip u of
                 [] \<Rightarrow> None
               | c # w \<Rightarrow>
                   if c = CHR ''}'' then Some ([(k, v)], w)
                   else if c = CHR '','' then
                     (case json_members n w of None \<Rightarrow> None | Some (vs, z) \<Rightarrow> Some ((k, v) # vs, z))
                   else None))))"

text \<open>The value that is the whole text, with white space around it.\<close>

definition json_parse :: "string \<Rightarrow> json option" where
  "json_parse s =
     (case json_value (2 * length s + 2) s of
        None \<Rightarrow> None
      | Some (v, t) \<Rightarrow> if skip t = [] then Some v else None)"

section \<open>Values read into strings\<close>

text \<open>All the elements, or None when one of them does not fit.\<close>

fun all_some :: "'a option list \<Rightarrow> 'a list option" where
  "all_some [] = Some []"
| "all_some (None # xs) = None"
| "all_some (Some x # xs) = map_option ((#) x) (all_some xs)"

text \<open>A string that is decoded into a fresh variable: \<open>null\<close> leaves it empty.\<close>

fun decode_string :: "json \<Rightarrow> string option" where
  "decode_string (JString s) = Some s"
| "decode_string JNull = Some []"
| "decode_string _ = None"

text \<open>\<open>[]string\<close>.\<close>

fun decode_strings :: "json \<Rightarrow> string list option" where
  "decode_strings (JArray vs) = all_some (map decode_string vs)"
| "decode_strings JNull = Some []"
| "decode_strings _ = None"

section \<open>Writing a value\<close>

text \<open>
  A byte of a string below 128: the encoder escapes the quote, the backslash, what is not printed, and the
  three characters that matter in HTML.
\<close>

definition quote_char :: "char \<Rightarrow> string" where
  "quote_char c =
     (if c = CHR 0x22 \<or> c = CHR 0x5C then [CHR 0x5C, c]
      else if byte c \<ge> 32 \<and> c \<notin> {CHR ''<'', CHR ''>'', CHR ''&''} then [c]
      else if c = CHR 0x0A then [CHR 0x5C, CHR ''n'']
      else if c = CHR 0x0D then [CHR 0x5C, CHR ''r'']
      else if c = CHR 0x09 then [CHR 0x5C, CHR ''t'']
      else [CHR 0x5C, CHR ''u'', CHR ''0'', CHR ''0'', digit_char (byte c div 16), digit_char (byte c mod 16)])"

function quote_body :: "string \<Rightarrow> string" where
  "quote_body s =
     (case read_rune s of
        None \<Rightarrow> []
      | Some (ch, t) \<Rightarrow>
          (if length ch = 1 then quote_char (hd ch)
           else if rune_len s = 0 then CHR 0x5C # ''ufffd''
           else if ch = [CHR 0xE2, CHR 0x80, CHR 0xA8] then CHR 0x5C # ''u2028''
           else if ch = [CHR 0xE2, CHR 0x80, CHR 0xA9] then CHR 0x5C # ''u2029''
           else ch) @ quote_body t)"
  by pat_completeness auto
termination
  by (relation "measure length") (auto dest: read_rune_shrinks)

declare quote_body.simps [simp del]

definition quote :: "string \<Rightarrow> string" where
  "quote s = CHR 0x22 # quote_body s @ [CHR 0x22]"

fun json_text :: "json \<Rightarrow> string" where
  "json_text JNull = ''null''"
| "json_text (JBool b) = (if b then ''true'' else ''false'')"
| "json_text (JNumber w) = w"
| "json_text (JString s) = quote s"
| "json_text (JArray vs) = ''['' @ join '','' (map json_text vs) @ '']''"
| "json_text (JObject ms) = ''{'' @ join '','' (map (\<lambda>m. quote (fst m) @ '':'' @ json_text (snd m)) ms) @ ''}''"

section \<open>What is written is read\<close>

lemma quote_body_ascii: "byte c < 128 \<Longrightarrow> quote_body (c # s) = quote_char c @ quote_body s"
  by (subst quote_body.simps) simp

lemma quote_body_Nil [simp]: "quote_body [] = []"
  by (simp add: quote_body.simps)

lemma string_body_quote_char:
  assumes "byte c < 128"
  shows "string_body (quote_char c @ s) =
    (case string_body s of None \<Rightarrow> None | Some (w, z) \<Rightarrow> Some (c # w, z))"
proof -
  have bs: "read_rune (CHR 0x5C # t) = Some ([CHR 0x5C], t)" for t by (rule read_rune_ascii) (simp add: byte_def)
  have esc: "string_body (CHR 0x5C # e # s) = (case string_body s of None \<Rightarrow> None | Some (w, z) \<Rightarrow> Some (d # w, z))"
    if "e \<noteq> CHR ''u''" "simple_escape e = Some d" for e d
    using that by (subst string_body.simps) (simp add: bs)
  show ?thesis
  proof (cases "c = CHR 0x22 \<or> c = CHR 0x5C \<or> c = CHR 0x0A \<or> c = CHR 0x0D \<or> c = CHR 0x09")
    case True
    then show ?thesis
      by (elim disjE; hypsubst) (simp_all add: quote_char_def esc simple_escape_def byte_def)
  next
    case False
    show ?thesis
    proof (cases "byte c \<ge> 32 \<and> c \<notin> {CHR ''<'', CHR ''>'', CHR ''&''}")
      case True
      with False assms show ?thesis
        by (simp add: quote_char_def) (subst string_body.simps, simp split: option.split prod.split)
    next
      case hex: False
      let ?h = "[CHR ''0'', CHR ''0'', digit_char (byte c div 16), digit_char (byte c mod 16)]"
      have d: "byte c div 16 < 8" "byte c mod 16 < 16" using assms by (simp_all add: less_mult_imp_div_less)
      have "hex4 (?h @ s) = Some (byte c, s)"
        using d by (simp add: hex4_def digit_val_def[of "CHR ''0''"] byte_def[of "CHR ''0''"])
      moreover have "utf8 (byte c) = [c]" using assms by (simp add: utf8_def byte_def)
      ultimately have "unicode_escape (?h @ s) = Some ([c], s)"
        using assms by (simp add: unicode_escape_def)
      then show ?thesis
        using False hex by (auto simp: quote_char_def string_body.simps[of "CHR 0x5C # _"] bs split: option.split)
    qed
  qed
qed

lemma string_body_quote:
  assumes "ascii s" shows "string_body (quote_body s @ CHR 0x22 # rest) = Some (s, rest)"
  using assms
proof (induction s)
  case Nil
  have "read_rune (CHR 0x22 # rest) = Some ([CHR 0x22], rest)" by (rule read_rune_ascii) (simp add: byte_def)
  then show ?case by (subst string_body.simps) simp
next
  case (Cons c s)
  then show ?case using string_body_quote_char[of c] by (simp add: quote_body_ascii ascii_def)
qed

text \<open>Values whose strings are ASCII and whose numbers are natural ones.\<close>

definition clean_number :: "string \<Rightarrow> bool" where
  "clean_number w \<longleftrightarrow> w \<noteq> [] \<and> list_all is_digit w \<and> (hd w = CHR ''0'' \<longrightarrow> w = ''0'')"

fun clean :: "json \<Rightarrow> bool" where
  "clean (JNumber w) = clean_number w"
| "clean (JString s) = ascii s"
| "clean (JArray vs) = list_all clean vs"
| "clean (JObject ms) = list_all (\<lambda>m. ascii (fst m) \<and> clean (snd m)) ms"
| "clean _ = True"

text \<open>The calls that reading the text of a value takes.\<close>

fun calls_needed :: "json \<Rightarrow> nat" where
  "calls_needed (JArray vs) = Suc (sum_list (map (\<lambda>v. Suc (calls_needed v)) vs))"
| "calls_needed (JObject ms) = Suc (sum_list (map (\<lambda>m. Suc (calls_needed (snd m))) ms))"
| "calls_needed _ = 1"

definition stop :: "string \<Rightarrow> bool" where
  "stop s \<longleftrightarrow> s = [] \<or> hd s \<in> {CHR '','', CHR '']'', CHR ''}'', CHR 0x0A}"

lemma skip_token: "s \<noteq> [] \<Longrightarrow> \<not> json_space (hd s) \<Longrightarrow> skip s = s"
  by (cases s) (auto simp: skip_def)

lemma skip_Cons: "skip (c # s) = (if json_space c then skip s else c # s)"
  by (simp add: skip_def)

lemma digit_no_space: "is_digit c \<Longrightarrow> \<not> json_space c"
  by (auto simp: is_digit_def json_space_def byte_def)

lemma text_head:
  assumes "clean v"
  shows "json_text v \<noteq> [] \<and> \<not> json_space (hd (json_text v)) \<and> hd (json_text v) \<notin> {CHR '']'', CHR ''}''}"
  using assms
  by (cases v) (auto simp: json_space_def quote_def clean_number_def is_digit_def byte_def neq_Nil_conv)

lemma digits_append:
  "list_all is_digit w \<Longrightarrow> s = [] \<or> \<not> is_digit (hd s) \<Longrightarrow> digits (w @ s) = (w, s)"
  by (induction w) (cases s; simp add: digits_def)+

lemma stop_no: "stop s \<Longrightarrow> s = [] \<or> \<not> is_digit (hd s) \<and> hd s \<noteq> CHR ''.'' \<and> hd s \<noteq> CHR ''e'' \<and> hd s \<noteq> CHR ''E''"
  by (auto simp: stop_def is_digit_def byte_def)

lemma number_clean:
  assumes "clean_number w" and "stop s" shows "number (w @ s) = Some (w, s)"
proof -
  obtain c v where w: "w = c # v" "is_digit c" "list_all is_digit v"
    using assms(1) by (cases w) (auto simp: clean_number_def)
  have "c \<noteq> CHR ''-''" using w(2) by (auto simp: is_digit_def byte_def)
  moreover have "number_int (w @ s) = Some (w, s)"
  proof (cases "c = CHR ''0''")
    case True
    with assms(1) w show ?thesis by (simp add: number_int_def clean_number_def)
  next
    case False
    with w digits_append[of w s] stop_no[OF assms(2)] show ?thesis by (auto simp: number_int_def)
  qed
  moreover have "number_frac s = Some ([], s)" "number_exp s = Some ([], s)"
    using stop_no[OF assms(2)] by (auto simp: number_frac_def number_exp_def)
  ultimately show ?thesis using w(1) by (simp add: number_def)
qed

lemma read_elements:
  assumes "\<And>v n s. v \<in> set vs \<Longrightarrow> calls_needed v \<le> n \<Longrightarrow> stop s \<Longrightarrow> json_value n (json_text v @ s) = Some (v, s)"
    and "vs \<noteq> []" and "sum_list (map (\<lambda>v. Suc (calls_needed v)) vs) \<le> n"
  shows "json_elements n (join '','' (map json_text vs) @ CHR '']'' # s) = Some (vs, s)"
  using assms
proof (induction vs arbitrary: n)
  case (Cons v vs)
  then obtain m where n: "n = Suc m" and m: "calls_needed v \<le> m" "sum_list (map (\<lambda>v. Suc (calls_needed v)) vs) \<le> m"
    by (cases n) auto
  show ?case
  proof (cases "vs = []")
    case True
    with Cons.prems(1)[of v m "CHR '']'' # s"] m n show ?thesis
      by (simp add: stop_def skip_def json_space_def)
  next
    case False
    have "json_elements m (join '','' (map json_text vs) @ CHR '']'' # s) = Some (vs, s)"
      using Cons.IH[of m] Cons.prems(1) False m by simp
    with False Cons.prems(1)[of v m "CHR '','' # join '','' (map json_text vs) @ CHR '']'' # s"] m n show ?thesis
      by (simp add: stop_def skip_def json_space_def join_Cons)
  qed
qed simp

lemma string_body_quote_rest:
  "ascii k \<Longrightarrow> string_body (quote_body k @ CHR 0x22 # s) = Some (k, s)"
  by (rule string_body_quote)

lemma read_members:
  assumes "\<And>p n s. p \<in> set ms \<Longrightarrow> ascii (fst p) \<and> (calls_needed (snd p) \<le> n \<longrightarrow> stop s \<longrightarrow>
        json_value n (json_text (snd p) @ s) = Some (snd p, s))"
    and "ms \<noteq> []" and "sum_list (map (\<lambda>m. Suc (calls_needed (snd m))) ms) \<le> n"
  shows "json_members n (join '','' (map (\<lambda>m. quote (fst m) @ '':'' @ json_text (snd m)) ms) @ CHR ''}'' # s) = Some (ms, s)"
  using assms
proof (induction ms arbitrary: n)
  case (Cons p ms)
  obtain k v where p: "p = (k, v)" by (cases p)
  from Cons.prems obtain m where n: "n = Suc m"
    and m: "calls_needed v \<le> m" "sum_list (map (\<lambda>m. Suc (calls_needed (snd m))) ms) \<le> m"
    by (cases n) (auto simp: p)
  have k: "ascii k" using Cons.prems(1)[of p] by (simp add: p)
  have v: "json_value m (json_text v @ t) = Some (v, t)" if "stop t" for t
    using Cons.prems(1)[of p] m(1) that by (simp add: p)
  show ?case
  proof (cases "ms = []")
    case True
    with v[of "CHR ''}'' # s"] n string_body_quote_rest[OF k] show ?thesis
      by (simp add: p stop_def skip_def json_space_def quote_def has_prefix_def)
  next
    case False
    let ?t = "join '','' (map (\<lambda>m. quote (fst m) @ '':'' @ json_text (snd m)) ms) @ CHR ''}'' # s"
    have "json_members m ?t = Some (ms, s)"
      using Cons.IH[of m] Cons.prems(1) False m by simp
    with False v[of "CHR '','' # ?t"] n string_body_quote_rest[OF k] show ?thesis
      by (simp add: p stop_def skip_def json_space_def quote_def has_prefix_def join_Cons)
  qed
qed simp

lemma json_value_text:
  "clean v \<Longrightarrow> calls_needed v \<le> n \<Longrightarrow> stop s \<Longrightarrow> json_value n (json_text v @ s) = Some (v, s)"
proof (induction v arbitrary: n s)
  case JNull
  then show ?case by (cases n) (simp_all add: skip_def json_space_def has_prefix_def)
next
  case (JBool b)
  then show ?case by (cases n) (auto simp: skip_def json_space_def has_prefix_def)
next
  case (JNumber w)
  then obtain m where n: "n = Suc m" by (cases n) auto
  from JNumber.prems obtain c u where w: "w = c # u" "is_digit c"
    by (cases w) (auto simp: clean_number_def)
  have "c \<noteq> CHR 0x22" "c \<noteq> CHR ''[''" "c \<noteq> CHR ''{''" "c \<noteq> CHR ''t''" "c \<noteq> CHR ''f''" "c \<noteq> CHR ''n''"
    using w(2) by (auto simp: is_digit_def byte_def)
  with w n JNumber.prems number_clean[of w s] digit_no_space[OF w(2)] show ?case
    by (simp add: skip_Cons has_prefix_def)
next
  case (JString w)
  then show ?case
    using string_body_quote_rest[of w s] by (cases n) (simp_all add: quote_def skip_def json_space_def)
next
  case (JArray vs)
  then obtain m where n: "n = Suc m" and m: "sum_list (map (\<lambda>v. Suc (calls_needed v)) vs) \<le> m" by (cases n) auto
  show ?case
  proof (cases vs)
    case Nil
    with n show ?thesis by (simp add: skip_def json_space_def has_prefix_def)
  next
    case (Cons v us)
    have cl: "clean u" if "u \<in> set vs" for u using JArray.prems(1) that by (simp add: list_all_iff)
    have rd: "json_value n (json_text u @ t) = Some (u, t)" if "u \<in> set vs" "calls_needed u \<le> n" "stop t" for u n t
      using that cl[of u] by (intro JArray.IH)
    have e: "json_elements m (join '','' (map json_text vs) @ CHR '']'' # s) = Some (vs, s)"
      by (rule read_elements[OF rd _ m]) (simp_all add: Cons)
    have sk: "skip (json_text v @ t) = json_text v @ t \<and> \<not> has_prefix (json_text v @ t) '']''" for t
      using text_head[of v] cl[of v] Cons skip_token[of "json_text v @ t"]
      by (cases "json_text v") (auto simp: has_prefix_def)
    show ?thesis
      using n e sk Cons by (simp add: skip_Cons json_space_def join_Cons split: if_splits)
  qed
next
  case (JObject ms)
  then obtain m where n: "n = Suc m" and m: "sum_list (map (\<lambda>m. Suc (calls_needed (snd m))) ms) \<le> m" by (cases n) auto
  show ?case
  proof (cases ms)
    case Nil
    with n show ?thesis by (simp add: skip_def json_space_def has_prefix_def)
  next
    case (Cons p us)
    have "json_members m (join '','' (map (\<lambda>m. quote (fst m) @ '':'' @ json_text (snd m)) ms) @ CHR ''}'' # s) = Some (ms, s)"
      using m Cons JObject.prems(1) by (intro read_members) (auto simp: list_all_iff intro!: JObject.IH)
    with n Cons show ?thesis
      by (simp add: skip_Cons json_space_def join_Cons quote_def has_prefix_def split: if_splits)
  qed
qed

text \<open>The length of a text bounds the calls that reading it takes.\<close>

lemma length_join_map:
  assumes "\<And>x. x \<in> set xs \<Longrightarrow> g x \<le> 2 * length (f x)"
  shows "sum_list (map (\<lambda>x. Suc (g x)) xs) \<le> 2 * length (join '','' (map f xs)) + 1"
  using assms
proof (induction xs)
  case (Cons x xs)
  have "g x \<le> 2 * length (f x)" using Cons.prems by simp
  moreover have "sum_list (map (\<lambda>x. Suc (g x)) xs) \<le> 2 * length (join '','' (map f xs)) + 1" using Cons by simp
  ultimately show ?case by (cases "xs = []") (simp_all add: join_Cons)
qed simp

lemma calls_needed_text: "clean v \<Longrightarrow> calls_needed v \<le> 2 * length (json_text v)"
proof (induction v)
  case (JNumber w)
  then show ?case by (cases w) (auto simp: clean_number_def)
next
  case (JArray vs)
  have "sum_list (map (\<lambda>x. Suc (calls_needed x)) vs) \<le> 2 * length (join '','' (map json_text vs)) + 1"
    using JArray by (intro length_join_map) (simp add: list_all_iff)
  then show ?case by simp
next
  case (JObject ms)
  let ?f = "\<lambda>m. quote (fst m) @ '':'' @ json_text (snd m)"
  have "calls_needed (snd m) \<le> 2 * length (?f m)" if "m \<in> set ms" for m
    using JObject.IH[of m "snd m"] JObject.prems that by (auto simp: list_all_iff snds.simps)
  then have "sum_list (map (\<lambda>m. Suc (calls_needed (snd m))) ms) \<le> 2 * length (join '','' (map ?f ms)) + 1"
    by (rule length_join_map)
  then show ?case by simp
qed (auto simp: quote_def)

lemma json_parse_text: "clean v \<Longrightarrow> json_parse (json_text v) = Some v"
  using json_value_text[of v "2 * length (json_text v) + 2" "[]"] calls_needed_text[of v]
  by (simp add: json_parse_def stop_def skip_def)

end
