(* ===== verification/GoQuote.thy ===== *)
theory GoQuote
  imports GoNumbers Json
begin

text \<open>
  Quoting of package \<open>strconv\<close>, which the verb \<open>%q\<close> of package \<open>fmt\<close> uses: the Go literal of a string and of
  a character, and the reading of a string literal as the Go compiler does it.  Which characters beyond ASCII
  are printable is a table of Unicode: it is the argument \<open>isPrint\<close>, on code points.  The theory shows that
  the literal of a string denotes the string, whatever the table says.
\<close>

section \<open>Code points\<close>

text \<open>The code point of the well-formed encoding at the head of a string.\<close>

definition rune_code :: "string \<Rightarrow> nat" where
  "rune_code s =
     (let b = map byte s in
      if rune_len s = 1 then b ! 0
      else if rune_len s = 2 then (b ! 0 - 192) * 64 + (b ! 1 - 128)
      else if rune_len s = 3 then (b ! 0 - 224) * 4096 + (b ! 1 - 128) * 64 + (b ! 2 - 128)
      else (b ! 0 - 240) * 262144 + (b ! 1 - 128) * 4096 + (b ! 2 - 128) * 64 + (b ! 3 - 128))"

lemma base64: "y < (64 :: nat) \<Longrightarrow> (x * 64 + y) div 64 = x" "y < (64 :: nat) \<Longrightarrow> (x * 64 + y) mod 64 = y"
  by simp_all

lemma utf8_2:
  assumes "194 \<le> b0" "b0 \<le> 223" "cont_byte b1"
  shows "utf8 ((b0 - 192) * 64 + (b1 - 128)) = [char_of b0, char_of b1]"
proof -
  define x y where "x = b0 - 192" and "y = b1 - 128"
  then have b: "b0 = x + 192" "b1 = y + 128" "2 \<le> x" "x < 32" "y < 64" using assms by (auto simp: cont_byte_def)
  then have "128 \<le> x * 64 + y" "x * 64 + y < 2048" by linarith+
  then show ?thesis using b base64[of y x] by (simp add: utf8_def add.commute)
qed

lemma utf8_3:
  assumes "224 \<le> b0" "b0 \<le> 239" "second_byte_ok b0 b1" "cont_byte b2"
  shows "utf8 ((b0 - 224) * 4096 + (b1 - 128) * 64 + (b2 - 128)) = [char_of b0, char_of b1, char_of b2]"
proof -
  define x y z where x_y_z: "x = b0 - 224" "y = b1 - 128" "z = b2 - 128"
  then have b: "b0 = x + 224" "b1 = y + 128" "b2 = z + 128" "x < 16" "y < 64" "z < 64"
    and s: "x = 0 \<Longrightarrow> 32 \<le> y" "x = 13 \<Longrightarrow> y < 32"
    using assms by (auto simp: cont_byte_def second_byte_ok_def split: if_splits)
  define n where "n = (x * 64 + y) * 64 + z"
  have n: "(b0 - 224) * 4096 + (b1 - 128) * 64 + (b2 - 128) = n"
    by (simp add: n_def flip: x_y_z)
  have "n div 64 = x * 64 + y" "n mod 64 = z" unfolding n_def using b(6) by (rule base64)+
  moreover from this have "n div 4096 = x" using b by (simp add: div_mult2_eq[of n 64 64, simplified] base64)
  moreover have "2048 \<le> n" "n < 65536" using b s by (cases "x = 0"; auto simp: n_def)+
  moreover have "\<not> (55296 \<le> n \<and> n < 57344)"
  proof
    assume "55296 \<le> n \<and> n < 57344"
    then have "x = 13" using b by (simp add: n_def)
    with s \<open>55296 \<le> n \<and> n < 57344\<close> b show False by (simp add: n_def)
  qed
  moreover have "n div 64 mod 64 = y" using calculation(1) b base64 by simp
  ultimately show ?thesis unfolding n utf8_def using b(1-3) by (cases "55296 \<le> n") (simp_all add: add.commute)
qed

lemma utf8_4:
  assumes "240 \<le> b0" "b0 \<le> 244" "second_byte_ok b0 b1" "cont_byte b2" "cont_byte b3"
  shows "utf8 ((b0 - 240) * 262144 + (b1 - 128) * 4096 + (b2 - 128) * 64 + (b3 - 128)) =
    [char_of b0, char_of b1, char_of b2, char_of b3]"
proof -
  define w x y z where w_x_y_z: "w = b0 - 240" "x = b1 - 128" "y = b2 - 128" "z = b3 - 128"
  then have b: "b0 = w + 240" "b1 = x + 128" "b2 = y + 128" "b3 = z + 128" "w < 5" "x < 64" "y < 64" "z < 64"
    and s: "w = 0 \<Longrightarrow> 16 \<le> x"
    using assms by (auto simp: cont_byte_def second_byte_ok_def split: if_splits)
  define n where "n = ((w * 64 + x) * 64 + y) * 64 + z"
  have n: "(b0 - 240) * 262144 + (b1 - 128) * 4096 + (b2 - 128) * 64 + (b3 - 128) = n"
    by (simp add: n_def flip: w_x_y_z)
  have d: "n div 64 = (w * 64 + x) * 64 + y" "n mod 64 = z" unfolding n_def using b(8) by (rule base64)+
  then have e: "n div 4096 = w * 64 + x" using b by (simp add: div_mult2_eq[of n 64 64, simplified] base64)
  have "n div 262144 = w" using b e by (simp add: div_mult2_eq[of n 4096 64, simplified] base64)
  moreover have "65536 \<le> n" using b(5-) s by (cases "w = 0") (auto simp: n_def)
  moreover have "n div 64 mod 64 = y" "n div 4096 mod 64 = x" unfolding d e using b(6,7) by (simp_all only: base64(2))
  ultimately show ?thesis unfolding n utf8_def using b(1-4) d(2) by (simp add: add.commute)
qed

lemma rune_len_cases:
  assumes "rune_len (c # s) = n" and "128 \<le> byte c" and "n \<noteq> 0"
  obtains (two) b1 t where "n = 2" "s = b1 # t" "194 \<le> byte c" "byte c \<le> 223" "cont_byte (byte b1)"
  | (three) b1 b2 t where "n = 3" "s = b1 # b2 # t" "224 \<le> byte c" "byte c \<le> 239"
      "second_byte_ok (byte c) (byte b1)" "cont_byte (byte b2)"
  | (four) b1 b2 b3 t where "n = 4" "s = b1 # b2 # b3 # t" "240 \<le> byte c" "byte c \<le> 244"
      "second_byte_ok (byte c) (byte b1)" "cont_byte (byte b2)" "cont_byte (byte b3)"
proof -
  have r: "rune_size (byte c) = n" "\<not> length s < n - 1" "n > 1"
    "second_byte_ok (byte c) (byte (hd s))" "list_all (\<lambda>d. cont_byte (byte d)) (take (n - 2) (tl s))"
    using assms by (auto simp: Let_def rune_size_def split: if_splits)
  consider "n = 2" "194 \<le> byte c" "byte c \<le> 223" | "n = 3" "224 \<le> byte c" "byte c \<le> 239"
    | "n = 4" "240 \<le> byte c" "byte c \<le> 244"
    using r(1) assms by (auto simp: rune_size_def split: if_splits)
  then show thesis
  proof cases
    case 1
    then obtain b1 t where "s = b1 # t" using r by (cases s) auto
    with 1 r show thesis by (intro two) (auto simp: second_byte_ok_def)
  next
    case 2
    then obtain b1 b2 t where "s = b1 # b2 # t" using r by (cases s; cases "tl s") auto
    with 2 r show thesis by (intro three) auto
  next
    case 3
    then obtain b1 b2 b3 t where "s = b1 # b2 # b3 # t" using r by (cases s; cases "tl s"; cases "tl (tl s)") auto
    with 3 r show thesis by (intro four) (auto simp: numeral_eq_Suc)
  qed
qed

text \<open>The encoding of the code point of a rune is the rune.\<close>

lemma utf8_rune_code:
  assumes "rune_len s \<noteq> 0"
  shows "utf8 (rune_code s) = take (rune_len s) s"
proof (cases s)
  case (Cons c t)
  show ?thesis
  proof (cases "byte c < 128")
    case True
    then show ?thesis using Cons by (simp add: rune_code_def utf8_def rune_size_def byte_def)
  next
    case False
    have bc: "char_of (byte x) = x" for x :: char by (simp add: byte_def)
    from False have c: "128 \<le> byte c" by simp
    from Cons have "rune_len (c # t) = rune_len s" by simp
    from this c assms show ?thesis
    proof (cases rule: rune_len_cases)
      case (two b1 u)
      with Cons show ?thesis
        by (simp del: rune_len.simps add: rune_code_def utf8_2 bc numeral_2_eq_2)
    next
      case (three b1 b2 u)
      with Cons show ?thesis
        by (simp del: rune_len.simps add: rune_code_def utf8_3 bc numeral_3_eq_3)
    next
      case (four b1 b2 b3 u)
      from four(1,2) Cons show ?thesis
        using utf8_4[OF four(3-7)] by (simp del: rune_len.simps add: rune_code_def bc nth_Cons' take_Cons')
    qed
  qed
qed (use assms in simp)

section \<open>Quoting\<close>

definition backslash :: char where
  "backslash = CHR 0x5C"

definition double_quote :: char where
  "double_quote = CHR 0x22"

lemma quote_chars [simp]: "char_of (92 :: nat) = backslash" "char_of (34 :: nat) = double_quote" "byte backslash = 92" "byte double_quote = 34" "double_quote \<noteq> backslash" "backslash \<noteq> double_quote"
  by (simp_all add: backslash_def double_quote_def byte_def flip: byte_inject)

definition hex_nat :: "nat \<Rightarrow> nat \<Rightarrow> string" where
  "hex_nat k n = pad_left k (CHR ''0'') (fmt_nat 16 n)"

text \<open>The control characters with an escape of their own.\<close>

definition named_escapes :: "(nat \<times> char) list" where
  "named_escapes = [(7, CHR ''a''), (8, CHR ''b''), (9, CHR ''t''), (10, CHR ''n''), (11, CHR ''v''), (12, CHR ''f''), (13, CHR ''r'')]"

text \<open>
  \<open>appendEscapedRune\<close> for the quote \<open>q\<close>.  Older releases of Go print DEL as \<open>\u007f\<close>, which denotes the same
  character.
\<close>

definition escaped_rune :: "(nat \<Rightarrow> bool) \<Rightarrow> char \<Rightarrow> nat \<Rightarrow> string" where
  "escaped_rune isPrint q n =
     (if n = byte q \<or> n = 92 then [backslash, char_of n]
      else if (if n < 128 then 32 \<le> n \<and> n < 127 else isPrint n) then utf8 n
      else (case map_of named_escapes n of
              Some c \<Rightarrow> [backslash, c]
            | None \<Rightarrow>
                if n < 32 \<or> n = 127 then backslash # CHR ''x'' # hex_nat 2 n
                else if n < 0x10000 then backslash # CHR ''u'' # hex_nat 4 n
                else backslash # CHR ''U'' # hex_nat 8 n))"

text \<open>\<open>Quote\<close>: rune by rune, and a byte that is no part of a well-formed rune as \<open>\x\<close>.\<close>

function quoted :: "(nat \<Rightarrow> bool) \<Rightarrow> string \<Rightarrow> string" where
  "quoted isPrint s =
     (if s = [] then []
      else if rune_len s = 0 then backslash # CHR ''x'' # hex_nat 2 (byte (hd s)) @ quoted isPrint (tl s)
      else escaped_rune isPrint double_quote (rune_code s) @ quoted isPrint (drop (rune_len s) s))"
  by pat_completeness auto
termination
  by (relation "measure (length \<circ> snd)") auto

declare quoted.simps [simp del]

definition go_quote :: "(nat \<Rightarrow> bool) \<Rightarrow> string \<Rightarrow> string" where
  "go_quote isPrint s = double_quote # quoted isPrint s @ [double_quote]"

text \<open>
  The verb \<open>%q\<close> of an integer: a character literal, of \<open>U+FFFD\<close> where the integer is no Unicode character.
\<close>

definition valid_rune :: "int \<Rightarrow> bool" where
  "valid_rune i \<longleftrightarrow> 0 \<le> i \<and> i \<le> 0x10FFFF \<and> \<not> (0xD800 \<le> i \<and> i < 0xE000)"

definition quote_rune :: "(nat \<Rightarrow> bool) \<Rightarrow> int \<Rightarrow> string" where
  "quote_rune isPrint i =
     [CHR 0x27] @ escaped_rune isPrint (CHR 0x27) (if valid_rune i then nat i else 0xFFFD) @ [CHR 0x27]"

section \<open>Reading a string literal\<close>

definition hex_digit :: "char \<Rightarrow> bool" where
  "hex_digit c \<longleftrightarrow> (case digit_val c of None \<Rightarrow> False | Some d \<Rightarrow> d < 16)"

definition hex_value :: "string \<Rightarrow> nat" where
  "hex_value s = foldl (\<lambda>n c. 16 * n + the (digit_val c)) 0 s"

definition hex_escape :: "nat \<Rightarrow> string \<Rightarrow> (nat \<times> string) option" where
  "hex_escape k s =
     (if length s < k \<or> \<not> list_all hex_digit (take k s) then None
      else Some (hex_value (take k s), drop k s))"

text \<open>
  What an escape denotes, with the text after the backslash; the octal escapes, which \<open>Quote\<close> does not
  print, are left out.
\<close>

definition go_escape :: "string \<Rightarrow> (string \<times> string) option" where
  "go_escape s =
     (case s of
        [] \<Rightarrow> None
      | c # t \<Rightarrow>
          if c = backslash \<or> c = double_quote then Some ([c], t)
          else if c = CHR ''x'' then map_option (\<lambda>(n, u). ([char_of n], u)) (hex_escape 2 t)
          else if c = CHR ''u'' \<or> c = CHR ''U'' then
            (case hex_escape (if c = CHR ''u'' then 4 else 8) t of
               None \<Rightarrow> None
             | Some (n, u) \<Rightarrow> if valid_rune (int n) then Some (utf8 n, u) else None)
          else map_option (\<lambda>e. ([char_of (fst e)], t)) (find (\<lambda>e. snd e = c) named_escapes))"

lemma hex_escape_shrinks: "hex_escape k s = Some (n, t) \<Longrightarrow> length t \<le> length s"
  by (auto simp: hex_escape_def split: if_splits)

lemma go_escape_shrinks: "go_escape s = Some (r, t) \<Longrightarrow> length t < length s"
  by (auto simp: go_escape_def split: list.splits if_splits option.splits prod.splits
      dest!: hex_escape_shrinks)

text \<open>A string literal behind its opening quote: its value and the text behind it.\<close>

function string_literal :: "string \<Rightarrow> (string \<times> string) option" where
  "string_literal [] = None"
| "string_literal (c # s) =
     (if c = double_quote then Some ([], s)
      else if c = CHR 0x0A then None
      else if c = backslash then
        (case go_escape s of
           None \<Rightarrow> None
         | Some (r, t) \<Rightarrow> map_option (\<lambda>(v, u). (r @ v, u)) (string_literal t))
      else map_option (\<lambda>(v, u). (c # v, u)) (string_literal s))"
  by pat_completeness auto
termination
  by (relation "measure length") (auto dest: go_escape_shrinks)

section \<open>A literal denotes what was quoted\<close>

lemma hex_digit_fmt: "c \<in> set (fmt_nat 16 n) \<Longrightarrow> hex_digit c"
  by (auto dest: fmt_nat_digits[rotated] simp: hex_digit_def digit_val_digit_char)

lemma hex_value_append: "hex_value (s @ [c]) = 16 * hex_value s + the (digit_val c)"
  by (simp add: hex_value_def)

lemma hex_value_zeros: "hex_value (replicate k (CHR ''0'') @ s) = hex_value s"
  by (induction k) (auto simp: hex_value_def digit_val_def byte_def)

lemma hex_value_fmt: "hex_value (fmt_nat 16 n) = n"
proof (induction n rule: less_induct)
  case (less n)
  show ?case
  proof (cases "n < 16")
    case True
    then show ?thesis by (simp add: fmt_nat_small hex_value_def digit_val_digit_char)
  next
    case False
    with less.IH[of "n div 16"] show ?thesis
      by (simp add: fmt_nat_step hex_value_append digit_val_digit_char)
  qed
qed

lemma length_fmt_16: "n < 16 ^ k \<Longrightarrow> 0 < k \<Longrightarrow> length (fmt_nat 16 n) \<le> k"
proof (induction k arbitrary: n)
  case (Suc k)
  show ?case
  proof (cases "n < 16")
    case False
    then have "0 < k" using Suc.prems by (cases k) auto
    moreover have "n div 16 < 16 ^ k" using Suc.prems by (simp add: less_mult_imp_div_less mult.commute)
    ultimately show ?thesis using Suc.IH[of "n div 16"] False by (simp add: fmt_nat_step)
  qed (simp add: fmt_nat_small)
qed simp

lemma hex_escape_nat:
  assumes "n < 16 ^ k" and "0 < k"
  shows "hex_escape k (hex_nat k n @ s) = Some (n, s)"
proof -
  have "length (hex_nat k n) = k" using length_fmt_16[OF assms] by (simp add: hex_nat_def pad_left_def)
  moreover have "list_all hex_digit (hex_nat k n)"
    by (auto simp: hex_nat_def pad_left_def list_all_iff hex_digit_fmt) (simp add: hex_digit_def digit_val_def byte_def)
  ultimately show ?thesis by (simp add: hex_escape_def hex_nat_def pad_left_def hex_value_zeros hex_value_fmt)
qed

text \<open>Characters that stand for themselves.\<close>

definition verbatim_char :: "char \<Rightarrow> bool" where
  "verbatim_char c \<longleftrightarrow> c \<noteq> double_quote \<and> c \<noteq> CHR 0x0A \<and> c \<noteq> backslash"

lemma string_literal_verbatim:
  "list_all verbatim_char r \<Longrightarrow> string_literal (r @ s) = map_option (\<lambda>(v, u). (r @ v, u)) (string_literal s)"
  by (induction r; cases "string_literal s") (auto simp: verbatim_char_def)

lemma string_literal_escape:
  "go_escape s = Some (r, t) \<Longrightarrow>
   string_literal (backslash # s) = map_option (\<lambda>(v, u). (r @ v, u)) (string_literal t)"
  by (simp add: backslash_def double_quote_def)

lemma rune_code_bounds:
  assumes "rune_len s \<noteq> 0"
  shows "valid_rune (int (rune_code s)) \<and>
    (128 \<le> rune_code s \<longrightarrow> list_all (\<lambda>c. 128 \<le> byte c) (take (rune_len s) s))"
proof (cases s)
  case (Cons c t)
  show ?thesis
  proof (cases "byte c < 128")
    case True
    then show ?thesis using Cons by (simp add: rune_code_def rune_size_def valid_rune_def)
  next
    case False
    then have c: "128 \<le> byte c" by simp
    from Cons have "rune_len (c # t) = rune_len s" by simp
    from this c assms show ?thesis
    proof (cases rule: rune_len_cases)
      case (two b1 u)
      with Cons c show ?thesis
        by (simp del: rune_len.simps add: rune_code_def cont_byte_def numeral_2_eq_2 valid_rune_def)
    next
      case (three b1 b2 u)
      have "(byte c - 224) * 4096 + (byte b1 - 128) * 64 + (byte b2 - 128) < 65536" 
        "\<not> (55296 \<le> (byte c - 224) * 4096 + (byte b1 - 128) * 64 + (byte b2 - 128) \<and>
         (byte c - 224) * 4096 + (byte b1 - 128) * 64 + (byte b2 - 128) < 57344)" "128 \<le> byte b1"
        using three by (auto simp: cont_byte_def second_byte_ok_def split: if_splits)
      with three(1,2,6) Cons c show ?thesis
        by (simp del: rune_len.simps add: rune_code_def cont_byte_def numeral_3_eq_3 valid_rune_def) linarith
    next
      case (four b1 b2 b3 u)
      have "(byte c - 240) * 262144 + (byte b1 - 128) * 4096 + (byte b2 - 128) * 64 + (byte b3 - 128) \<le> 1114111"
        "65536 \<le> (byte c - 240) * 262144 + (byte b1 - 128) * 4096 + (byte b2 - 128) * 64 + (byte b3 - 128)"
        "128 \<le> byte b1"
        using four by (auto simp: cont_byte_def second_byte_ok_def split: if_splits)
      with four(1,2,6,7) Cons c show ?thesis
        by (simp del: rune_len.simps add: rune_code_def cont_byte_def nth_Cons' take_Cons' valid_rune_def) linarith
    qed
  qed
qed (use assms in simp)

lemma named_escape: "map_of named_escapes n = Some c \<Longrightarrow> go_escape (c # t) = Some (utf8 n, t)"
proof -
  assume "map_of named_escapes n = Some c"
  then have "(n, c) \<in> set named_escapes" by (rule map_of_SomeD)
  then have "n = 7 \<and> c = CHR ''a'' \<or> n = 8 \<and> c = CHR ''b'' \<or> n = 9 \<and> c = CHR ''t'' \<or> n = 10 \<and> c = CHR ''n'' \<or>
     n = 11 \<and> c = CHR ''v'' \<or> n = 12 \<and> c = CHR ''f'' \<or> n = 13 \<and> c = CHR ''r''"
    by (simp add: named_escapes_def)
  then show ?thesis
    by (elim disjE conjE) (simp_all add: go_escape_def backslash_def double_quote_def utf8_def named_escapes_def)
qed

text \<open>One rune that is quoted is read back, whatever follows.\<close>

lemma string_literal_rune:
  assumes "rune_len s \<noteq> 0"
  shows "string_literal (escaped_rune isPrint double_quote (rune_code s) @ t) =
    map_option (\<lambda>(v, u). (take (rune_len s) s @ v, u)) (string_literal t)"
proof -
  let ?n = "rune_code s"
  note b = rune_code_bounds[OF assms] and r = utf8_rune_code[OF assms, symmetric]
  from b have v: "valid_rune (int ?n)" by simp
  then have big: "?n < 16 ^ 8" by (simp add: valid_rune_def)
  have esc: "string_literal (backslash # x @ t) = map_option (\<lambda>(v, u). (utf8 ?n @ v, u)) (string_literal t)"
    if "go_escape (x @ t) = Some (utf8 ?n, t)" for x
    using string_literal_escape[OF that] by simp
  consider (self) "?n = 34 \<or> ?n = 92"
    | (print) "\<not> (?n = 34 \<or> ?n = 92)" "if ?n < 128 then 32 \<le> ?n \<and> ?n < 127 else isPrint ?n"
    | (named) c where "\<not> (?n = 34 \<or> ?n = 92)" "\<not> (if ?n < 128 then 32 \<le> ?n \<and> ?n < 127 else isPrint ?n)"
        "map_of named_escapes ?n = Some c"
    | (hex) "\<not> (?n = 34 \<or> ?n = 92)" "\<not> (if ?n < 128 then 32 \<le> ?n \<and> ?n < 127 else isPrint ?n)"
        "map_of named_escapes ?n = None"
    by (cases "map_of named_escapes ?n") auto
  then have "string_literal (escaped_rune isPrint double_quote ?n @ t) =
    map_option (\<lambda>(v, u). (utf8 ?n @ v, u)) (string_literal t)" (is ?goal)
  proof cases
    case self
    then have "go_escape ([char_of ?n] @ t) = Some (utf8 ?n, t)"
      by (auto simp: go_escape_def utf8_def)
    from esc[OF this] self show ?goal by (auto simp: escaped_rune_def)
  next
    case print
    have "list_all verbatim_char (utf8 ?n)"
    proof (cases "?n < 128")
      case True
      with print show ?thesis
        by (simp add: utf8_def verbatim_char_def flip: byte_inject) (simp add: byte_def)
    next
      case False
      then show ?thesis using b unfolding r[symmetric]
        by (auto simp: list_all_iff verbatim_char_def) (auto simp: byte_def double_quote_def backslash_def)
    qed
    with print show ?goal by (simp add: escaped_rune_def string_literal_verbatim)
  next
    case named
    from named_escape[OF this(3), of t] have "go_escape ([c] @ t) = Some (utf8 ?n, t)" by simp
    from esc[OF this] named show ?goal by (simp add: escaped_rune_def)
  next
    case hex
    consider "?n < 32 \<or> ?n = 127" | "\<not> (?n < 32 \<or> ?n = 127)" "?n < 0x10000" | "0x10000 \<le> ?n" by linarith
    then show ?goal
    proof cases
      case 1
      then have "go_escape ((CHR ''x'' # hex_nat 2 ?n) @ t) = Some (utf8 ?n, t)"
        using hex_escape_nat[of ?n 2 t] by (auto simp: go_escape_def backslash_def double_quote_def utf8_def)
      from esc[OF this] hex 1 show ?goal by (simp add: escaped_rune_def)
    next
      case 2
      then have "go_escape ((CHR ''u'' # hex_nat 4 ?n) @ t) = Some (utf8 ?n, t)"
        using hex_escape_nat[of ?n 4 t] v by (simp add: go_escape_def backslash_def double_quote_def)
      from esc[OF this] hex 2 show ?goal by (simp add: escaped_rune_def)
    next
      case 3
      then have "go_escape ((CHR ''U'' # hex_nat 8 ?n) @ t) = Some (utf8 ?n, t)"
        using hex_escape_nat[OF big, of t] v by (simp add: go_escape_def backslash_def double_quote_def)
      from esc[OF this] hex 3 show ?goal by (simp add: escaped_rune_def)
    qed
  qed
  then show ?thesis by (simp only: r)
qed

lemma string_literal_quoted:
  "string_literal (quoted isPrint s @ double_quote # t) = Some (s, t)"
proof (induction isPrint s rule: quoted.induct)
  case (1 isPrint s)
  consider "s = []" | "s \<noteq> []" "rune_len s = 0" | "s \<noteq> []" "rune_len s \<noteq> 0" by blast
  then show ?case
  proof cases
    case 1
    then show ?thesis by (simp add: quoted.simps)
  next
    case 2
    let ?r = "quoted isPrint (tl s) @ double_quote # t"
    have "go_escape (CHR ''x'' # hex_nat 2 (byte (hd s)) @ ?r) = Some ([hd s], ?r)"
      using hex_escape_nat[of "byte (hd s)" 2 ?r]
      by (simp add: go_escape_def backslash_def double_quote_def byte_def)
    from string_literal_escape[OF this] "1.IH"(1)[OF 2] 2 show ?thesis
      by (simp add: quoted.simps[of _ s])
  next
    case 3
    from string_literal_rune[OF 3(2), of isPrint "quoted isPrint (drop (rune_len s) s) @ double_quote # t"]
      "1.IH"(2)[OF 3] 3 show ?thesis
      by (simp add: quoted.simps[of _ s])
  qed
qed

end
