(* ===== verification/GoString.thy ===== *)
theory GoString
  imports GoQuote Actions
begin

text \<open>
  The methods \<open>GoString\<close> of \<open>ovs/match.go\<close> and \<open>ovs/action.go\<close> with the helpers of \<open>ovs/codegen.go\<close>: the Go
  expression that makes a match or an action.  The argument \<open>isPrint\<close> is the table of printable characters that
  the verb \<open>%q\<close> looks at (theory \<open>GoQuote\<close>).
\<close>

section \<open>Addresses\<close>

(* src: ovs/codegen.go func hwAddrGoString *)
definition hwAddrGoString :: "hwaddr \<Rightarrow> string" where
  "hwAddrGoString addr = ''net.HardwareAddr{'' @ join '', '' (map (hex_lit 2) addr) @ ''}''"

text \<open>The argument \<^const>\<open>None\<close> is the nil address, which has no four octets.\<close>

(* src: ovs/codegen.go func ipv4GoString *)
definition ipv4GoString :: "octets option \<Rightarrow> string" where
  "ipv4GoString ip =
     (case Option.bind ip To4 of
        None \<Rightarrow> ''panic('' @ [CHR 0x22] @ ''invalid IPv4 address'' @ [CHR 0x22] @ '')''
      | Some ip4 \<Rightarrow> ''net.IPv4('' @ join '', '' (map dec ip4) @ '')'')"

section \<open>Matches\<close>

(* src: ovs/match.go func dataLinkMatch.GoString *)
definition dataLinkMatch_GoString :: "(nat \<Rightarrow> bool) \<Rightarrow> string \<Rightarrow> string \<Rightarrow> string" where
  "dataLinkMatch_GoString isPrint srcdst addr =
     (if srcdst = source then ''ovs.DataLinkSource('' @ go_quote isPrint addr @ '')''
      else ''ovs.DataLinkDestination('' @ go_quote isPrint addr @ '')'')"

(* src: ovs/match.go func dataLinkTypeMatch.GoString *)
definition dataLinkTypeMatch_GoString :: "uint16 \<Rightarrow> string" where
  "dataLinkTypeMatch_GoString etherType =
     ''ovs.DataLinkType('' @ hex_lit 4 etherType @ '')''"

(* src: ovs/match.go func dataLinkVLANMatch.GoString *)
definition dataLinkVLANMatch_GoString :: "int \<Rightarrow> string" where
  "dataLinkVLANMatch_GoString vid =
     (if vid = VLANNone then ''ovs.DataLinkVLAN(ovs.VLANNone)''
      else ''ovs.DataLinkVLAN('' @ itoa vid @ '')'')"

(* src: ovs/match.go func dataLinkVLANPCPMatch.GoString *)
definition dataLinkVLANPCPMatch_GoString :: "int \<Rightarrow> string" where
  "dataLinkVLANPCPMatch_GoString pcp =
     ''ovs.DataLinkVLANPCP('' @ itoa pcp @ '')''"

(* src: ovs/match.go func networkMatch.GoString *)
definition networkMatch_GoString :: "(nat \<Rightarrow> bool) \<Rightarrow> string \<Rightarrow> string \<Rightarrow> string" where
  "networkMatch_GoString isPrint srcdst ip =
     (if srcdst = source then ''ovs.NetworkSource('' @ go_quote isPrint ip @ '')''
      else ''ovs.NetworkDestination('' @ go_quote isPrint ip @ '')'')"

(* src: ovs/match.go func networkECN.GoString *)
definition networkECN_GoString :: "int \<Rightarrow> string" where
  "networkECN_GoString ecn =
     ''ovs.NetworkECN('' @ itoa ecn @ '')''"

(* src: ovs/match.go func networkTOS.GoString *)
definition networkTOS_GoString :: "int \<Rightarrow> string" where
  "networkTOS_GoString tos =
     ''ovs.NetworkTOS('' @ itoa tos @ '')''"

(* src: ovs/match.go func tunnelGBP.GoString *)
definition tunnelGBP_GoString :: "int \<Rightarrow> string" where
  "tunnelGBP_GoString gbp =
     ''ovs.TunnelGBP('' @ itoa gbp @ '')''"

(* src: ovs/match.go func tunnelGbpFlags.GoString *)
definition tunnelGbpFlags_GoString :: "int \<Rightarrow> string" where
  "tunnelGbpFlags_GoString gbpFlags =
     ''ovs.TunnelGbpFlags('' @ itoa gbpFlags @ '')''"

(* src: ovs/match.go func tunnelFlags.GoString *)
definition tunnelFlags_GoString :: "int \<Rightarrow> string" where
  "tunnelFlags_GoString flgs =
     ''ovs.TunnelFlags('' @ itoa flgs @ '')''"

(* src: ovs/match.go func networkTTL.GoString *)
definition networkTTL_GoString :: "int \<Rightarrow> string" where
  "networkTTL_GoString ttl =
     ''ovs.NetworkTTL('' @ itoa ttl @ '')''"

(* src: ovs/match.go func tunnelTTL.GoString *)
definition tunnelTTL_GoString :: "int \<Rightarrow> string" where
  "tunnelTTL_GoString ttl =
     ''ovs.TunnelTTL('' @ itoa ttl @ '')''"

(* src: ovs/match.go func tunnelTOS.GoString *)
definition tunnelTOS_GoString :: "int \<Rightarrow> string" where
  "tunnelTOS_GoString tos =
     ''ovs.TunnelTOS('' @ itoa tos @ '')''"

(* src: ovs/match.go func conjunctionIDMatch.GoString *)
definition conjunctionIDMatch_GoString :: "uint32 \<Rightarrow> string" where
  "conjunctionIDMatch_GoString i =
     ''ovs.ConjunctionID('' @ dec i @ '')''"

(* src: ovs/match.go func networkProtocolMatch.GoString *)
definition networkProtocolMatch_GoString :: "uint8 \<Rightarrow> string" where
  "networkProtocolMatch_GoString num =
     ''ovs.NetworkProtocol('' @ dec num @ '')''"

(* src: ovs/match.go func ipv6Match.GoString *)
definition ipv6Match_GoString :: "(nat \<Rightarrow> bool) \<Rightarrow> string \<Rightarrow> string \<Rightarrow> string" where
  "ipv6Match_GoString isPrint srcdst ip =
     (if srcdst = source then ''ovs.IPv6Source('' @ go_quote isPrint ip @ '')''
      else ''ovs.IPv6Destination('' @ go_quote isPrint ip @ '')'')"

(* src: ovs/match.go func icmpTypeMatch.GoString *)
definition icmpTypeMatch_GoString :: "uint8 \<Rightarrow> string" where
  "icmpTypeMatch_GoString typ =
     ''ovs.ICMPType('' @ dec typ @ '')''"

(* src: ovs/match.go func icmpCodeMatch.GoString *)
definition icmpCodeMatch_GoString :: "uint8 \<Rightarrow> string" where
  "icmpCodeMatch_GoString code =
     ''ovs.ICMPCode('' @ dec code @ '')''"

(* src: ovs/match.go func icmp6TypeMatch.GoString *)
definition icmp6TypeMatch_GoString :: "uint8 \<Rightarrow> string" where
  "icmp6TypeMatch_GoString typ =
     ''ovs.ICMP6Type('' @ dec typ @ '')''"

(* src: ovs/match.go func icmp6CodeMatch.GoString *)
definition icmp6CodeMatch_GoString :: "uint8 \<Rightarrow> string" where
  "icmp6CodeMatch_GoString code =
     ''ovs.ICMP6Code('' @ dec code @ '')''"

(* src: ovs/match.go func inPortMatch.GoString *)
definition inPortMatch_GoString :: "int \<Rightarrow> string" where
  "inPortMatch_GoString port =
     ''ovs.InPort('' @ itoa port @ '')''"

(* src: ovs/match.go func neighborDiscoveryTargetMatch.GoString *)
definition neighborDiscoveryTargetMatch_GoString :: "(nat \<Rightarrow> bool) \<Rightarrow> string \<Rightarrow> string" where
  "neighborDiscoveryTargetMatch_GoString isPrint ip =
     ''ovs.NeighborDiscoveryTarget('' @ go_quote isPrint ip @ '')''"

(* src: ovs/match.go func neighborDiscoveryLinkLayerMatch.GoString *)
definition neighborDiscoveryLinkLayerMatch_GoString :: "string \<Rightarrow> hwaddr \<Rightarrow> string" where
  "neighborDiscoveryLinkLayerMatch_GoString srctgt addr =
     (if srctgt = source then ''ovs.NeighborDiscoverySourceLinkLayer('' @ hwAddrGoString addr @ '')''
      else ''ovs.NeighborDiscoveryTargetLinkLayer('' @ hwAddrGoString addr @ '')'')"

(* src: ovs/match.go func arpOperationMatch.GoString *)
definition arpOperationMatch_GoString :: "uint16 \<Rightarrow> string" where
  "arpOperationMatch_GoString oper =
     ''ovs.ARPOperation('' @ dec oper @ '')''"

(* src: ovs/match.go func arpHardwareAddressMatch.GoString *)
definition arpHardwareAddressMatch_GoString :: "string \<Rightarrow> hwaddr \<Rightarrow> string" where
  "arpHardwareAddressMatch_GoString srctgt addr =
     (if srctgt = source then ''ovs.ARPSourceHardwareAddress('' @ hwAddrGoString addr @ '')''
      else ''ovs.ARPTargetHardwareAddress('' @ hwAddrGoString addr @ '')'')"

(* src: ovs/match.go func arpProtocolAddressMatch.GoString *)
definition arpProtocolAddressMatch_GoString :: "(nat \<Rightarrow> bool) \<Rightarrow> string \<Rightarrow> string \<Rightarrow> string" where
  "arpProtocolAddressMatch_GoString isPrint srctgt ip =
     (if srctgt = source then ''ovs.ARPSourceProtocolAddress('' @ go_quote isPrint ip @ '')''
      else ''ovs.ARPTargetProtocolAddress('' @ go_quote isPrint ip @ '')'')"

(* src: ovs/match.go func udpPortMatch.GoString *)
definition udpPortMatch_GoString :: "string \<Rightarrow> uint16 \<Rightarrow> uint16 \<Rightarrow> string" where
  "udpPortMatch_GoString srcdst port mask' =
     (if mask' > 0 then
        (if srcdst = source then ''ovs.UdpSourceMaskedPort('' @ hex_sharp port @ '', '' @ hex_sharp mask' @ '')''
         else ''ovs.UdpDestinationMaskedPort('' @ hex_sharp port @ '', '' @ hex_sharp mask' @ '')'')
      else if srcdst = source then ''ovs.UdpSourcePort('' @ dec port @ '')''
      else ''ovs.UdpDestinationPort('' @ dec port @ '')'')"

(* src: ovs/match.go func transportPortMatch.GoString *)
definition transportPortMatch_GoString :: "string \<Rightarrow> uint16 \<Rightarrow> uint16 \<Rightarrow> string" where
  "transportPortMatch_GoString srcdst port mask' =
     (if mask' > 0 then
        (if srcdst = source then ''ovs.TransportSourceMaskedPort('' @ hex_sharp port @ '', '' @ hex_sharp mask' @ '')''
         else ''ovs.TransportDestinationMaskedPort('' @ hex_sharp port @ '', '' @ hex_sharp mask' @ '')'')
      else if srcdst = source then ''ovs.TransportSourcePort('' @ dec port @ '')''
      else ''ovs.TransportDestinationPort('' @ dec port @ '')'')"

(* src: ovs/match.go func vlanTCIMatch.GoString *)
definition vlanTCIMatch_GoString :: "uint16 \<Rightarrow> uint16 \<Rightarrow> string" where
  "vlanTCIMatch_GoString tci mask' =
     ''ovs.VLANTCI('' @ hex_lit 4 tci @ '', '' @ hex_lit 4 mask' @ '')''"

(* src: ovs/match.go func vlanTCI1Match.GoString *)
definition vlanTCI1Match_GoString :: "uint16 \<Rightarrow> uint16 \<Rightarrow> string" where
  "vlanTCI1Match_GoString tci mask' =
     ''ovs.VLANTCI1('' @ hex_lit 4 tci @ '', '' @ hex_lit 4 mask' @ '')''"

(* src: ovs/match.go func ipv6LabelMatch.GoString *)
definition ipv6LabelMatch_GoString :: "uint32 \<Rightarrow> uint32 \<Rightarrow> string" where
  "ipv6LabelMatch_GoString label mask' =
     ''ovs.IPv6Label('' @ hex_lit 4 label @ '', '' @ hex_lit 4 mask' @ '')''"

(* src: ovs/match.go func arpOpMatch.GoString *)
definition arpOpMatch_GoString :: "uint16 \<Rightarrow> string" where
  "arpOpMatch_GoString op =
     ''ovs.ArpOp('' @ dec op @ '')''"

(* src: ovs/match.go func connectionTrackingMarkMatch.GoString *)
definition connectionTrackingMarkMatch_GoString :: "uint32 \<Rightarrow> uint32 \<Rightarrow> string" where
  "connectionTrackingMarkMatch_GoString mark mask' =
     ''ovs.ConnectionTrackingMark('' @ hex_lit 8 mark @ '', '' @ hex_lit 8 mask' @ '')''"

(* src: ovs/match.go func connectionTrackingZoneMatch.GoString *)
definition connectionTrackingZoneMatch_GoString :: "uint16 \<Rightarrow> string" where
  "connectionTrackingZoneMatch_GoString zone =
     ''ovs.ConnectionTrackingZone('' @ dec zone @ '')''"

(* src: ovs/match.go func connectionTrackingMatch.GoString *)
definition connectionTrackingMatch_GoString :: "(nat \<Rightarrow> bool) \<Rightarrow> string list \<Rightarrow> string" where
  "connectionTrackingMatch_GoString isPrint state =
     ''ovs.ConnectionTrackingState('' @ join '', '' (map (go_quote isPrint) state) @ '')''"

(* src: ovs/match.go func metadataMatch.GoString *)
definition metadataMatch_GoString :: "uint64 \<Rightarrow> uint64 \<Rightarrow> string" where
  "metadataMatch_GoString data mask' =
     (if mask' > 0 then ''ovs.MetadataWithMask('' @ hex_sharp data @ '', '' @ hex_sharp mask' @ '')''
      else ''ovs.Metadata('' @ hex_sharp data @ '')'')"

(* src: ovs/match.go func tcpFlagsMatch.GoString *)
definition tcpFlagsMatch_GoString :: "(nat \<Rightarrow> bool) \<Rightarrow> string list \<Rightarrow> string" where
  "tcpFlagsMatch_GoString isPrint flgs =
     ''ovs.TCPFlags('' @ join '', '' (map (go_quote isPrint) flgs) @ '')''"

(* src: ovs/match.go func tunnelIDMatch.GoString *)
definition tunnelIDMatch_GoString :: "uint64 \<Rightarrow> uint64 \<Rightarrow> string" where
  "tunnelIDMatch_GoString i mask' =
     (if mask' > 0 then ''ovs.TunnelIDWithMask('' @ hex_sharp i @ '', '' @ hex_sharp mask' @ '')''
      else ''ovs.TunnelID('' @ hex_sharp i @ '')'')"

(* src: ovs/match.go func tunnelMatch.GoString *)
definition tunnelMatch_GoString :: "(nat \<Rightarrow> bool) \<Rightarrow> string \<Rightarrow> string \<Rightarrow> string" where
  "tunnelMatch_GoString isPrint srcdst ip =
     (if srcdst = source then ''ovs.TunnelSrc('' @ go_quote isPrint ip @ '')''
      else ''ovs.TunnelDst('' @ go_quote isPrint ip @ '')'')"

(* src: ovs/match.go func ipFragMatch.GoString *)
definition ipFragMatch_GoString :: "string \<Rightarrow> string" where
  "ipFragMatch_GoString flag =
     ''ovs.IpFrag('' @ flag @ '')''"

(* src: ovs/match.go func fieldMatch.GoString *)
definition fieldMatch_GoString :: "string \<Rightarrow> string \<Rightarrow> string" where
  "fieldMatch_GoString field srcOrValue =
     ''ovs.FieldMatch('' @ field @ '','' @ srcOrValue @ '')''"

text \<open>The method call through the interface.\<close>

fun match_GoString :: "(nat \<Rightarrow> bool) \<Rightarrow> match \<Rightarrow> string" where
  "match_GoString isPrint (dataLinkMatch srcdst addr) = dataLinkMatch_GoString isPrint srcdst addr"
| "match_GoString isPrint (dataLinkTypeMatch etherType) = dataLinkTypeMatch_GoString etherType"
| "match_GoString isPrint (dataLinkVLANMatch vid) = dataLinkVLANMatch_GoString vid"
| "match_GoString isPrint (dataLinkVLANPCPMatch pcp) = dataLinkVLANPCPMatch_GoString pcp"
| "match_GoString isPrint (networkMatch srcdst ip) = networkMatch_GoString isPrint srcdst ip"
| "match_GoString isPrint (networkECN ecn) = networkECN_GoString ecn"
| "match_GoString isPrint (networkTOS tos) = networkTOS_GoString tos"
| "match_GoString isPrint (tunnelGBP gbp) = tunnelGBP_GoString gbp"
| "match_GoString isPrint (tunnelGbpFlags gbpFlags) = tunnelGbpFlags_GoString gbpFlags"
| "match_GoString isPrint (tunnelFlags flgs) = tunnelFlags_GoString flgs"
| "match_GoString isPrint (networkTTL ttl) = networkTTL_GoString ttl"
| "match_GoString isPrint (tunnelTTL ttl) = tunnelTTL_GoString ttl"
| "match_GoString isPrint (tunnelTOS tos) = tunnelTOS_GoString tos"
| "match_GoString isPrint (conjunctionIDMatch i) = conjunctionIDMatch_GoString i"
| "match_GoString isPrint (networkProtocolMatch num) = networkProtocolMatch_GoString num"
| "match_GoString isPrint (ipv6Match srcdst ip) = ipv6Match_GoString isPrint srcdst ip"
| "match_GoString isPrint (icmpTypeMatch typ) = icmpTypeMatch_GoString typ"
| "match_GoString isPrint (icmpCodeMatch code) = icmpCodeMatch_GoString code"
| "match_GoString isPrint (icmp6TypeMatch typ) = icmp6TypeMatch_GoString typ"
| "match_GoString isPrint (icmp6CodeMatch code) = icmp6CodeMatch_GoString code"
| "match_GoString isPrint (inPortMatch port) = inPortMatch_GoString port"
| "match_GoString isPrint (neighborDiscoveryTargetMatch ip) = neighborDiscoveryTargetMatch_GoString isPrint ip"
| "match_GoString isPrint (neighborDiscoveryLinkLayerMatch srctgt addr) = neighborDiscoveryLinkLayerMatch_GoString srctgt addr"
| "match_GoString isPrint (arpOperationMatch oper) = arpOperationMatch_GoString oper"
| "match_GoString isPrint (arpHardwareAddressMatch srctgt addr) = arpHardwareAddressMatch_GoString srctgt addr"
| "match_GoString isPrint (arpProtocolAddressMatch srctgt ip) = arpProtocolAddressMatch_GoString isPrint srctgt ip"
| "match_GoString isPrint (udpPortMatch srcdst port mask') = udpPortMatch_GoString srcdst port mask'"
| "match_GoString isPrint (transportPortMatch srcdst port mask') = transportPortMatch_GoString srcdst port mask'"
| "match_GoString isPrint (vlanTCIMatch tci mask') = vlanTCIMatch_GoString tci mask'"
| "match_GoString isPrint (vlanTCI1Match tci mask') = vlanTCI1Match_GoString tci mask'"
| "match_GoString isPrint (ipv6LabelMatch label mask') = ipv6LabelMatch_GoString label mask'"
| "match_GoString isPrint (arpOpMatch op) = arpOpMatch_GoString op"
| "match_GoString isPrint (connectionTrackingMarkMatch mark mask') = connectionTrackingMarkMatch_GoString mark mask'"
| "match_GoString isPrint (connectionTrackingZoneMatch zone) = connectionTrackingZoneMatch_GoString zone"
| "match_GoString isPrint (connectionTrackingMatch state) = connectionTrackingMatch_GoString isPrint state"
| "match_GoString isPrint (metadataMatch data mask') = metadataMatch_GoString data mask'"
| "match_GoString isPrint (tcpFlagsMatch flgs) = tcpFlagsMatch_GoString isPrint flgs"
| "match_GoString isPrint (tunnelIDMatch i mask') = tunnelIDMatch_GoString i mask'"
| "match_GoString isPrint (tunnelMatch srcdst ip) = tunnelMatch_GoString isPrint srcdst ip"
| "match_GoString isPrint (ipFragMatch flag) = ipFragMatch_GoString flag"
| "match_GoString isPrint (fieldMatch field srcOrValue) = fieldMatch_GoString field srcOrValue"

lemmas match_GoString_defs =
  dataLinkMatch_GoString_def
  dataLinkTypeMatch_GoString_def
  dataLinkVLANMatch_GoString_def
  dataLinkVLANPCPMatch_GoString_def
  networkMatch_GoString_def
  networkECN_GoString_def
  networkTOS_GoString_def
  tunnelGBP_GoString_def
  tunnelGbpFlags_GoString_def
  tunnelFlags_GoString_def
  networkTTL_GoString_def
  tunnelTTL_GoString_def
  tunnelTOS_GoString_def
  conjunctionIDMatch_GoString_def
  networkProtocolMatch_GoString_def
  ipv6Match_GoString_def
  icmpTypeMatch_GoString_def
  icmpCodeMatch_GoString_def
  icmp6TypeMatch_GoString_def
  icmp6CodeMatch_GoString_def
  inPortMatch_GoString_def
  neighborDiscoveryTargetMatch_GoString_def
  neighborDiscoveryLinkLayerMatch_GoString_def
  arpOperationMatch_GoString_def
  arpHardwareAddressMatch_GoString_def
  arpProtocolAddressMatch_GoString_def
  udpPortMatch_GoString_def
  transportPortMatch_GoString_def
  vlanTCIMatch_GoString_def
  vlanTCI1Match_GoString_def
  ipv6LabelMatch_GoString_def
  arpOpMatch_GoString_def
  connectionTrackingMarkMatch_GoString_def
  connectionTrackingZoneMatch_GoString_def
  connectionTrackingMatch_GoString_def
  metadataMatch_GoString_def
  tcpFlagsMatch_GoString_def
  tunnelIDMatch_GoString_def
  tunnelMatch_GoString_def
  ipFragMatch_GoString_def
  fieldMatch_GoString_def

section \<open>Actions\<close>

(* src: ovs/action.go func textAction.GoString *)
definition textAction_GoString :: "(nat \<Rightarrow> bool) \<Rightarrow> string \<Rightarrow> string" where
  "textAction_GoString isPrint a =
     (if a = actionAll then ''ovs.All()''
      else if a = actionDrop then ''ovs.Drop()''
      else if a = actionFlood then ''ovs.Flood()''
      else if a = actionInPort then ''ovs.InPort()''
      else if a = actionLocal then ''ovs.Local()''
      else if a = actionNormal then ''ovs.Normal()''
      else if a = actionStripVLAN then ''ovs.StripVLAN()''
      else ''// BUG(mdlayher): unimplemented OVS text action: '' @ go_quote isPrint a)"

(* src: ovs/action.go func ctAction.GoString *)
definition ctAction_GoString :: "(nat \<Rightarrow> bool) \<Rightarrow> string \<Rightarrow> string" where
  "ctAction_GoString isPrint args =
     ''ovs.ConnectionTracking('' @ go_quote isPrint args @ '')''"

(* src: ovs/action.go func modDataLinkAction.GoString *)
definition modDataLinkAction_GoString :: "string \<Rightarrow> hwaddr \<Rightarrow> string" where
  "modDataLinkAction_GoString srcdst addr =
     (if srcdst = source then ''ovs.ModDataLinkSource('' @ hwAddrGoString addr @ '')''
      else ''ovs.ModDataLinkDestination('' @ hwAddrGoString addr @ '')'')"

(* src: ovs/action.go func modNetworkAction.GoString *)
definition modNetworkAction_GoString :: "string \<Rightarrow> octets option \<Rightarrow> string" where
  "modNetworkAction_GoString srcdst ip =
     (if srcdst = source then ''ovs.ModNetworkSource('' @ ipv4GoString ip @ '')''
      else ''ovs.ModNetworkDestination('' @ ipv4GoString ip @ '')'')"

(* src: ovs/action.go func modTransportPortAction.GoString *)
definition modTransportPortAction_GoString :: "string \<Rightarrow> uint16 \<Rightarrow> string" where
  "modTransportPortAction_GoString srcdst port =
     (if srcdst = source then ''ovs.ModTransportSourcePort('' @ dec port @ '')''
      else ''ovs.ModTransportDestinationPort('' @ dec port @ '')'')"

(* src: ovs/action.go func modVLANVIDAction.GoString *)
definition modVLANVIDAction_GoString :: "int \<Rightarrow> string" where
  "modVLANVIDAction_GoString vid =
     ''ovs.ModVLANVID('' @ itoa vid @ '')''"

(* src: ovs/action.go func outputAction.GoString *)
definition outputAction_GoString :: "int \<Rightarrow> string" where
  "outputAction_GoString port =
     ''ovs.Output('' @ itoa port @ '')''"

(* src: ovs/action.go func outputFieldAction.GoString *)
definition outputFieldAction_GoString :: "(nat \<Rightarrow> bool) \<Rightarrow> string \<Rightarrow> string" where
  "outputFieldAction_GoString isPrint field =
     ''ovs.OutputField('' @ go_quote isPrint field @ '')''"

(* src: ovs/action.go func multipathAction.GoString *)
definition multipathAction_GoString :: "(nat \<Rightarrow> bool) \<Rightarrow> string \<Rightarrow> int \<Rightarrow> string \<Rightarrow> int \<Rightarrow> int \<Rightarrow> string \<Rightarrow> string" where
  "multipathAction_GoString isPrint flds basis algorithm nlinks arg dst =
     ''ovs.Multipath('' @ go_quote isPrint flds @ '', '' @ quote_rune isPrint basis @ '', '' @ go_quote isPrint algorithm @ '', '' @
      quote_rune isPrint nlinks @ '', '' @ quote_rune isPrint arg @ '', '' @ go_quote isPrint dst @ '')''"

(* src: ovs/action.go func conjunctionAction.GoString *)
definition conjunctionAction_GoString :: "int \<Rightarrow> int \<Rightarrow> int \<Rightarrow> string" where
  "conjunctionAction_GoString i dimensionNumber dimensionSize =
     ''ovs.Conjunction('' @ itoa i @ '', '' @ itoa dimensionNumber @ '', '' @ itoa dimensionSize @ '')''"

(* src: ovs/action.go func resubmitAction.GoString *)
definition resubmitAction_GoString :: "int \<Rightarrow> int \<Rightarrow> string" where
  "resubmitAction_GoString port table =
     ''ovs.Resubmit('' @ itoa port @ '', '' @ itoa table @ '')''"

(* src: ovs/action.go func resubmitPortAction.GoString *)
definition resubmitPortAction_GoString :: "int \<Rightarrow> string" where
  "resubmitPortAction_GoString port =
     ''ovs.ResubmitPort('' @ itoa port @ '')''"

(* src: ovs/action.go func loadSetFieldAction.GoString *)
definition loadSetFieldAction_GoString :: "(nat \<Rightarrow> bool) \<Rightarrow> string \<Rightarrow> string \<Rightarrow> int \<Rightarrow> string" where
  "loadSetFieldAction_GoString isPrint value field typ =
     (if typ = actionLoad then ''ovs.Load('' @ go_quote isPrint value @ '', '' @ go_quote isPrint field @ '')''
      else ''ovs.SetField('' @ go_quote isPrint value @ '', '' @ go_quote isPrint field @ '')'')"

(* src: ovs/action.go func setTunnelAction.GoString *)
definition setTunnelAction_GoString :: "uint64 \<Rightarrow> string" where
  "setTunnelAction_GoString tunnelID =
     ''ovs.SetTunnel('' @ hex_sharp tunnelID @ '')''"

(* src: ovs/action.go func moveAction.GoString *)
definition moveAction_GoString :: "(nat \<Rightarrow> bool) \<Rightarrow> string \<Rightarrow> string \<Rightarrow> string" where
  "moveAction_GoString isPrint src dst =
     ''ovs.Move('' @ go_quote isPrint src @ '', '' @ go_quote isPrint dst @ '')''"

text \<open>
  The verb \<open>%#v\<close> of package \<open>fmt\<close> for a pointer to a \<open>LearnedFlow\<close>: the fields with their names in the order of
  the struct, and the method \<open>GoString\<close> for the elements of a slice.  A slice without elements is the nil slice here.
\<close>

definition bool_syntax :: "bool \<Rightarrow> string" where
  "bool_syntax b = (if b then ''true'' else ''false'')"

definition slice_syntax :: "string \<Rightarrow> string list \<Rightarrow> string" where
  "slice_syntax typ elems = (if elems = [] then typ @ ''(nil)'' else typ @ ''{'' @ join '', '' elems @ ''}'')"

definition learned_syntax :: "learned_flow \<Rightarrow> string list \<Rightarrow> string list \<Rightarrow> string" where
  "learned_syntax l matches actions =
     ''&ovs.LearnedFlow{'' @
     join '', ''
       [''Priority:'' @ itoa (LPriority l),
        ''InPort:'' @ itoa (LInPort l),
        ''Matches:'' @ slice_syntax ''[]ovs.Match'' matches,
        ''Table:'' @ itoa (LTable l),
        ''IdleTimeout:'' @ itoa (LIdleTimeout l),
        ''Cookie:'' @ hex_sharp (LCookie l),
        ''Actions:'' @ slice_syntax ''[]ovs.Action'' actions,
        ''DeleteLearned:'' @ bool_syntax (DeleteLearned l),
        ''FinHardTimeout:'' @ itoa (FinHardTimeout l),
        ''HardTimeout:'' @ itoa (HardTimeout l),
        ''Limit:'' @ itoa (Limit l)] @
     ''}''"

text \<open>The method call through the interface, and \<open>learnAction.GoString\<close> with it.\<close>

(* src: ovs/action.go func learnAction.GoString *)
function (sequential) action_GoString :: "(nat \<Rightarrow> bool) \<Rightarrow> action \<Rightarrow> string" where
  "action_GoString isPrint (learnAction learned) =
     ''ovs.Learn('' @
     (case learned of
        None \<Rightarrow> ''(*ovs.LearnedFlow)(nil)''
      | Some l \<Rightarrow> learned_syntax l (map (match_GoString isPrint) (LMatches l)) (map (action_GoString isPrint) (LActions l))) @
     '')''"
| "action_GoString isPrint (textAction a) = textAction_GoString isPrint a"
| "action_GoString isPrint (ctAction args) = ctAction_GoString isPrint args"
| "action_GoString isPrint (modDataLinkAction srcdst addr) = modDataLinkAction_GoString srcdst addr"
| "action_GoString isPrint (modNetworkAction srcdst ip) = modNetworkAction_GoString srcdst ip"
| "action_GoString isPrint (modTransportPortAction srcdst port) = modTransportPortAction_GoString srcdst port"
| "action_GoString isPrint (modVLANVIDAction vid) = modVLANVIDAction_GoString vid"
| "action_GoString isPrint (outputAction port) = outputAction_GoString port"
| "action_GoString isPrint (outputFieldAction field) = outputFieldAction_GoString isPrint field"
| "action_GoString isPrint (multipathAction flds basis algorithm nlinks arg dst) = multipathAction_GoString isPrint flds basis algorithm nlinks arg dst"
| "action_GoString isPrint (conjunctionAction i dimensionNumber dimensionSize) = conjunctionAction_GoString i dimensionNumber dimensionSize"
| "action_GoString isPrint (resubmitAction port table) = resubmitAction_GoString port table"
| "action_GoString isPrint (resubmitPortAction port) = resubmitPortAction_GoString port"
| "action_GoString isPrint (loadSetFieldAction value field typ) = loadSetFieldAction_GoString isPrint value field typ"
| "action_GoString isPrint (setTunnelAction tunnelID) = setTunnelAction_GoString tunnelID"
| "action_GoString isPrint (moveAction src dst) = moveAction_GoString isPrint src dst"
  by pat_completeness auto
termination
  by (relation "measure (size \<circ> snd)") (auto simp: learned_size less_SucI)

lemmas action_GoString_defs =
  textAction_GoString_def
  ctAction_GoString_def
  modDataLinkAction_GoString_def
  modNetworkAction_GoString_def
  modTransportPortAction_GoString_def
  modVLANVIDAction_GoString_def
  outputAction_GoString_def
  outputFieldAction_GoString_def
  multipathAction_GoString_def
  conjunctionAction_GoString_def
  resubmitAction_GoString_def
  resubmitPortAction_GoString_def
  loadSetFieldAction_GoString_def
  setTunnelAction_GoString_def
  moveAction_GoString_def

end
