(* ===== verification/GoExpr.thy ===== *)
theory GoExpr
  imports GoString MatchParser
begin

text \<open>
  What the Go compiler makes of the expressions that the methods \<open>GoString\<close> print: calls of the functions of
  package \<open>ovs\<close> on literals, as far as these are needed.  The reader has fuel for the nesting; the length of
  the text is enough.
\<close>

section \<open>Reading an expression\<close>

datatype (plugins only: code size) expr =
    EInt int
  | EString string
  | EName string
  | ECall string "expr list"
  | EComposite string "expr list"

definition name_char :: "char \<Rightarrow> bool" where
  "name_char c \<longleftrightarrow> is_digit c \<or> 65 \<le> byte c \<and> byte c \<le> 90 \<or> 97 \<le> byte c \<and> byte c \<le> 122 \<or> c = CHR ''.'' \<or> c = CHR ''_''"

definition number_char :: "char \<Rightarrow> bool" where
  "number_char c \<longleftrightarrow> is_digit c \<or> 97 \<le> byte c \<and> byte c \<le> 102 \<or> c = CHR ''x'' \<or> c = CHR ''-''"

text \<open>An integer literal: hexadecimal, or decimal with a sign and no leading zero.\<close>

definition number_literal :: "string \<Rightarrow> int option" where
  "number_literal s =
     (if has_prefix s ''0x'' then
        (case ParseUint (drop 2 s) 16 64 of Inl _ \<Rightarrow> None | Inr n \<Rightarrow> Some (int n))
      else if has_prefix s ''0'' \<and> length s > 1 then None
      else (case Atoi s of Inl _ \<Rightarrow> None | Inr i \<Rightarrow> Some i))"

text \<open>\<open>read_list n q s\<close> reads expressions separated by commas up to the closing \<open>q\<close>, one at least.\<close>

fun read_expr :: "nat \<Rightarrow> string \<Rightarrow> (expr \<times> string) option"
  and read_list :: "nat \<Rightarrow> char \<Rightarrow> string \<Rightarrow> (expr list \<times> string) option" where
  "read_expr 0 s = None"
| "read_expr (Suc n) s =
     (case s of
        [] \<Rightarrow> None
      | c # t \<Rightarrow>
          if c = double_quote then map_option (\<lambda>(v, u). (EString v, u)) (string_literal t)
          else if is_digit c \<or> c = CHR ''-'' then
            map_option (\<lambda>i. (EInt i, dropWhile number_char s)) (number_literal (takeWhile number_char s))
          else if \<not> name_char c then None
          else
            (let name = takeWhile name_char s; u = dropWhile name_char s in
             if has_prefix u ''('' then
               if has_prefix u ''()'' then Some (ECall name [], drop 2 u)
               else map_option (\<lambda>(es, v). (ECall name es, v)) (read_list n (CHR '')'') (tl u))
             else if has_prefix u ''{'' then
               if has_prefix u ''{}'' then Some (EComposite name [], drop 2 u)
               else map_option (\<lambda>(es, v). (EComposite name es, v)) (read_list n (CHR ''}'') (tl u))
             else Some (EName name, u)))"
| "read_list 0 q s = None"
| "read_list (Suc n) q s =
     (case read_expr n s of
        None \<Rightarrow> None
      | Some (e, t) \<Rightarrow>
          if has_prefix t [q] then Some ([e], tl t)
          else if has_prefix t '', '' then map_option (\<lambda>(es, u). (e # es, u)) (read_list n q (drop 2 t))
          else None)"

definition read_source :: "string \<Rightarrow> expr option" where
  "read_source s =
     (case read_expr (Suc (length s)) s of Some (e, []) \<Rightarrow> Some e | _ \<Rightarrow> None)"

section \<open>Evaluating an expression\<close>

text \<open>Arguments: a constant has to be in the range of the type of the parameter.\<close>

definition arg_string :: "expr \<Rightarrow> string option" where
  "arg_string e = (case e of EString s \<Rightarrow> Some s | _ \<Rightarrow> None)"

definition arg_int :: "expr \<Rightarrow> int option" where
  "arg_int e =
     (case e of
        EInt i \<Rightarrow> if int_range i then Some i else None
      | EName n \<Rightarrow> if n = ''ovs.VLANNone'' then Some VLANNone else None
      | _ \<Rightarrow> None)"

definition arg_word :: "expr \<Rightarrow> 'a::len word option" where
  "arg_word e =
     (case e of
        EInt i \<Rightarrow> if 0 \<le> i \<and> i < 2 ^ LENGTH('a) then Some (word_of_int i) else None
      | _ \<Rightarrow> None)"

definition arg_list :: "(expr \<Rightarrow> 'a option) \<Rightarrow> expr list \<Rightarrow> 'a list option" where
  "arg_list arg es = those (map arg es)"

definition arg_hwaddr :: "expr \<Rightarrow> hwaddr option" where
  "arg_hwaddr e =
     (case e of
        EComposite n es \<Rightarrow> if n = ''net.HardwareAddr'' then arg_list arg_word es else None
      | _ \<Rightarrow> None)"

text \<open>\<open>net.IPv4\<close> makes the 16-octet form of the address.\<close>

definition arg_ip :: "expr \<Rightarrow> octets option" where
  "arg_ip e =
     (case e of
        ECall n es \<Rightarrow>
          if n = ''net.IPv4'' \<and> length es = 4 then map_option (\<lambda>p. v4_in_v6_prefix @ p) (arg_list arg_word es)
          else None
      | _ \<Rightarrow> None)"

text \<open>Functions with no, one, two and three parameters, and a variadic one.\<close>

definition fn0 :: "'r \<Rightarrow> expr list \<Rightarrow> 'r option" where
  "fn0 r es = (if es = [] then Some r else None)"

definition fn1 :: "(expr \<Rightarrow> 'a option) \<Rightarrow> ('a \<Rightarrow> 'r) \<Rightarrow> expr list \<Rightarrow> 'r option" where
  "fn1 arg f es = (case es of [e] \<Rightarrow> map_option f (arg e) | _ \<Rightarrow> None)"

definition fn2 :: "(expr \<Rightarrow> 'a option) \<Rightarrow> ('a \<Rightarrow> 'a \<Rightarrow> 'r) \<Rightarrow> expr list \<Rightarrow> 'r option" where
  "fn2 arg f es =
     (case es of
        [d, e] \<Rightarrow> (case (arg d, arg e) of (Some x, Some y) \<Rightarrow> Some (f x y) | _ \<Rightarrow> None)
      | _ \<Rightarrow> None)"

definition fn3 :: "(expr \<Rightarrow> 'a option) \<Rightarrow> ('a \<Rightarrow> 'a \<Rightarrow> 'a \<Rightarrow> 'r) \<Rightarrow> expr list \<Rightarrow> 'r option" where
  "fn3 arg f es =
     (case es of
        [c, d, e] \<Rightarrow>
          (case (arg c, arg d, arg e) of (Some x, Some y, Some z) \<Rightarrow> Some (f x y z) | _ \<Rightarrow> None)
      | _ \<Rightarrow> None)"

definition fns :: "(expr \<Rightarrow> 'a option) \<Rightarrow> ('a list \<Rightarrow> 'r) \<Rightarrow> expr list \<Rightarrow> 'r option" where
  "fns arg f es = map_option f (arg_list arg es)"

text \<open>The exported functions of package \<open>ovs\<close> that return a match.\<close>

definition match_functions :: "(string \<times> (expr list \<Rightarrow> match option)) list" where
  "match_functions =
     [(''ovs.DataLinkSource'', fn1 arg_string DataLinkSource),
      (''ovs.DataLinkDestination'', fn1 arg_string DataLinkDestination),
      (''ovs.DataLinkType'', fn1 arg_word DataLinkType),
      (''ovs.DataLinkVLAN'', fn1 arg_int DataLinkVLAN),
      (''ovs.DataLinkVLANPCP'', fn1 arg_int DataLinkVLANPCP),
      (''ovs.NetworkSource'', fn1 arg_string NetworkSource),
      (''ovs.NetworkDestination'', fn1 arg_string NetworkDestination),
      (''ovs.NetworkECN'', fn1 arg_int NetworkECN),
      (''ovs.NetworkTOS'', fn1 arg_int NetworkTOS),
      (''ovs.TunnelGBP'', fn1 arg_int TunnelGBP),
      (''ovs.TunnelGbpFlags'', fn1 arg_int TunnelGbpFlags),
      (''ovs.TunnelFlags'', fn1 arg_int TunnelFlags),
      (''ovs.NetworkTTL'', fn1 arg_int NetworkTTL),
      (''ovs.TunnelTTL'', fn1 arg_int TunnelTTL),
      (''ovs.ConjunctionID'', fn1 arg_word ConjunctionID),
      (''ovs.TunnelTOS'', fn1 arg_int TunnelTOS),
      (''ovs.NetworkProtocol'', fn1 arg_word NetworkProtocol),
      (''ovs.IPv6Source'', fn1 arg_string IPv6Source),
      (''ovs.IPv6Destination'', fn1 arg_string IPv6Destination),
      (''ovs.ICMPType'', fn1 arg_word ICMPType),
      (''ovs.ICMPCode'', fn1 arg_word ICMPCode),
      (''ovs.ICMP6Type'', fn1 arg_word ICMP6Type),
      (''ovs.ICMP6Code'', fn1 arg_word ICMP6Code),
      (''ovs.InPortMatch'', fn1 arg_int InPortMatch),
      (''ovs.NeighborDiscoveryTarget'', fn1 arg_string NeighborDiscoveryTarget),
      (''ovs.NeighborDiscoverySourceLinkLayer'', fn1 arg_hwaddr NeighborDiscoverySourceLinkLayer),
      (''ovs.NeighborDiscoveryTargetLinkLayer'', fn1 arg_hwaddr NeighborDiscoveryTargetLinkLayer),
      (''ovs.ARPOperation'', fn1 arg_word ARPOperation),
      (''ovs.ARPSourceHardwareAddress'', fn1 arg_hwaddr ARPSourceHardwareAddress),
      (''ovs.ARPTargetHardwareAddress'', fn1 arg_hwaddr ARPTargetHardwareAddress),
      (''ovs.ARPSourceProtocolAddress'', fn1 arg_string ARPSourceProtocolAddress),
      (''ovs.ARPTargetProtocolAddress'', fn1 arg_string ARPTargetProtocolAddress),
      (''ovs.TransportSourcePort'', fn1 arg_word TransportSourcePort),
      (''ovs.TransportDestinationPort'', fn1 arg_word TransportDestinationPort),
      (''ovs.TransportSourceMaskedPort'', fn2 arg_word TransportSourceMaskedPort),
      (''ovs.TransportDestinationMaskedPort'', fn2 arg_word TransportDestinationMaskedPort),
      (''ovs.UDPSourcePort'', fn1 arg_word UDPSourcePort),
      (''ovs.UDPDestinationPort'', fn1 arg_word UDPDestinationPort),
      (''ovs.UDPSourceMaskedPort'', fn2 arg_word UDPSourceMaskedPort),
      (''ovs.UDPDestinationMaskedPort'', fn2 arg_word UDPDestinationMaskedPort),
      (''ovs.VLANTCI'', fn2 arg_word VLANTCI),
      (''ovs.VLANTCI1'', fn2 arg_word VLANTCI1),
      (''ovs.IPv6Label'', fn2 arg_word IPv6Label),
      (''ovs.ArpOp'', fn1 arg_word ArpOp),
      (''ovs.ConnectionTrackingMark'', fn2 arg_word ConnectionTrackingMark),
      (''ovs.ConnectionTrackingZone'', fn1 arg_word ConnectionTrackingZone),
      (''ovs.ConnectionTrackingState'', fns arg_string ConnectionTrackingState),
      (''ovs.Metadata'', fn1 arg_word Metadata),
      (''ovs.MetadataWithMask'', fn2 arg_word MetadataWithMask),
      (''ovs.TCPFlags'', fns arg_string TCPFlags),
      (''ovs.TunnelID'', fn1 arg_word TunnelID),
      (''ovs.TunnelIDWithMask'', fn2 arg_word TunnelIDWithMask),
      (''ovs.TunnelSrc'', fn1 arg_string TunnelSrc),
      (''ovs.TunnelDst'', fn1 arg_string TunnelDst),
      (''ovs.IPFrag'', fn1 arg_string IPFrag),
      (''ovs.FieldMatch'', fn2 arg_string FieldMatch)]"

text \<open>Those that return an action and take no \<open>LearnedFlow\<close>; \<open>Multipath\<close> mixes the types of its parameters.\<close>

definition action_functions :: "(string \<times> (expr list \<Rightarrow> action option)) list" where
  "action_functions =
     [(''ovs.All'', fn0 All),
      (''ovs.Drop'', fn0 Drop),
      (''ovs.Flood'', fn0 Flood),
      (''ovs.InPort'', fn0 InPort),
      (''ovs.Local'', fn0 Local),
      (''ovs.Normal'', fn0 Normal),
      (''ovs.StripVLAN'', fn0 StripVLAN),
      (''ovs.ConnectionTracking'', fn1 arg_string ConnectionTracking),
      (''ovs.ModDataLinkDestination'', fn1 arg_hwaddr ModDataLinkDestination),
      (''ovs.ModDataLinkSource'', fn1 arg_hwaddr ModDataLinkSource),
      (''ovs.ModNetworkDestination'', fn1 arg_ip ModNetworkDestination),
      (''ovs.ModNetworkSource'', fn1 arg_ip ModNetworkSource),
      (''ovs.ModTransportDestinationPort'', fn1 arg_word ModTransportDestinationPort),
      (''ovs.ModTransportSourcePort'', fn1 arg_word ModTransportSourcePort),
      (''ovs.ModVLANVID'', fn1 arg_int ModVLANVID),
      (''ovs.Output'', fn1 arg_int Output),
      (''ovs.OutputField'', fn1 arg_string OutputField),
      (''ovs.Conjunction'', fn3 arg_int Conjunction),
      (''ovs.Resubmit'', fn2 arg_int Resubmit),
      (''ovs.ResubmitPort'', fn1 arg_int ResubmitPort),
      (''ovs.SetField'', fn2 arg_string SetField),
      (''ovs.Load'', fn2 arg_string Load),
      (''ovs.SetTunnel'', fn1 arg_word SetTunnel),
      (''ovs.Move'', fn2 arg_string Move)]"

definition eval_call :: "(string \<times> (expr list \<Rightarrow> 'r option)) list \<Rightarrow> expr \<Rightarrow> 'r option" where
  "eval_call fs e =
     (case e of
        ECall f es \<Rightarrow> (case map_of fs f of None \<Rightarrow> None | Some g \<Rightarrow> g es)
      | _ \<Rightarrow> None)"

text \<open>The match, or the action, that the text of an expression makes.\<close>

definition match_of_source :: "string \<Rightarrow> match option" where
  "match_of_source s = Option.bind (read_source s) (eval_call match_functions)"

definition action_of_source :: "string \<Rightarrow> action option" where
  "action_of_source s = Option.bind (read_source s) (eval_call action_functions)"

section \<open>Texts that are read\<close>

text \<open>The text \<open>s\<close> is read as \<open>e\<close> in front of a separator, a closing bracket or the end.\<close>

definition stops :: "string \<Rightarrow> bool" where
  "stops s \<longleftrightarrow> s = [] \<or> hd s \<in> {CHR '','', CHR '')'', CHR ''}''}"

definition reads :: "string \<Rightarrow> expr \<Rightarrow> bool" where
  "reads s e \<longleftrightarrow> s \<noteq> [] \<and> hd s \<notin> {CHR '')'', CHR ''}''} \<and> (\<forall>n r. length s < n \<longrightarrow> stops r \<longrightarrow> read_expr n (s @ r) = Some (e, r))"

lemma readsD: "reads s e \<Longrightarrow> length s < n \<Longrightarrow> stops r \<Longrightarrow> read_expr n (s @ r) = Some (e, r)"
  by (simp add: reads_def)

lemma read_source_reads: "reads s e \<Longrightarrow> read_source s = Some e"
  using readsD[of s e "Suc (length s)" "[]"] by (simp add: read_source_def stops_def)

lemma stops_char: "stops r \<Longrightarrow> r = [] \<or> \<not> number_char (hd r) \<and> \<not> name_char (hd r) \<and> hd r \<noteq> CHR ''('' \<and> hd r \<noteq> CHR ''{''"
  by (auto simp: stops_def number_char_def name_char_def is_digit_def byte_def)

lemma takeWhile_stops:
  assumes "list_all p s" and "r = [] \<or> \<not> p (hd r)"
  shows "takeWhile p (s @ r) = s" and "dropWhile p (s @ r) = r"
  using assms by (induction s) (auto simp: neq_Nil_conv takeWhile_eq_Nil_iff dropWhile_eq_self_iff)

lemma reads_string [simp]: "reads (go_quote isPrint s) (EString s)"
  unfolding reads_def
proof (intro conjI allI impI)
  fix n r assume "length (go_quote isPrint s) < n"
  then obtain k where "n = Suc k" by (cases n) auto
  then show "read_expr n (go_quote isPrint s @ r) = Some (EString s, r)"
    by (simp add: go_quote_def string_literal_quoted)
qed (simp_all add: go_quote_def double_quote_def)

lemma reads_number:
  assumes "s \<noteq> []" and "list_all number_char s" and "is_digit (hd s) \<or> hd s = CHR ''-''" and "number_literal s = Some i"
  shows "reads s (EInt i)"
  unfolding reads_def
proof (intro conjI allI impI)
  fix n r assume n: "length s < n" and r: "stops r"
  from n obtain k where k: "n = Suc k" by (cases n) auto
  obtain c t where s: "s = c # t" using assms(1) by (cases s) auto
  have "c \<noteq> double_quote" using assms(3) s by (auto simp: is_digit_def double_quote_def byte_def)
  moreover have "takeWhile number_char (s @ r) = s" "dropWhile number_char (s @ r) = r"
    using takeWhile_stops[OF assms(2), of r] stops_char[OF r] by blast+
  ultimately show "read_expr n (s @ r) = Some (EInt i, r)" using s k assms by simp
qed (use assms in \<open>auto simp: is_digit_def byte_def\<close>)

lemma digit_number_char: "is_digit c \<Longrightarrow> number_char c"
  by (simp add: number_char_def)

lemma reads_itoa [simp]:
  assumes "int_range i"
  shows "reads (itoa i) (EInt i)"
proof (rule reads_number)
  show "list_all number_char (itoa i)"
    by (auto simp: list_all_iff number_char_def dest: itoa_chars)
  show "is_digit (hd (itoa i)) \<or> hd (itoa i) = CHR ''-''"
    using itoa_chars[of "hd (itoa i)" i] by simp
  have "\<not> has_prefix (itoa i) ''0x''"
  proof
    assume "has_prefix (itoa i) ''0x''"
    then have "CHR ''x'' \<in> set (itoa i)" by (cases "itoa i"; cases "tl (itoa i)") (auto simp: has_prefix_def)
    then show False by (auto dest: itoa_chars simp: is_digit_def byte_def)
  qed
  moreover have "\<not> (has_prefix (itoa i) ''0'' \<and> length (itoa i) > 1)"
  proof (cases "i < 0")
    case False
    then show ?thesis using no_leading_zero[of "nat i"]
      by (cases "fmt_nat 10 (nat i)") (auto simp: itoa_def has_prefix_def)
  qed (simp add: itoa_def has_prefix_def)
  ultimately show "number_literal (itoa i) = Some i"
    using Atoi_itoa[OF assms] by (simp add: number_literal_def)
qed simp

lemma reads_dec [simp]:
  assumes "LENGTH('a) \<le> 63"
  shows "reads (dec (w :: 'a::len word)) (EInt (uint w))"
proof -
  have "int_range (uint w)"
    using Atoi_dec[OF assms, of w] by (rule Atoi_range)
  from reads_itoa[OF this] show ?thesis by (simp add: itoa_def dec_def)
qed

lemma reads_hex_lit [simp]:
  assumes "LENGTH('a) \<le> 64"
  shows "reads (hex_lit k (w :: 'a::len word)) (EInt (uint w))"
proof (rule reads_number)
  show "list_all number_char (hex_lit k w)"
    by (auto simp: list_all_iff number_char_def dest: hex_lit_chars)
  show "is_digit (hd (hex_lit k w)) \<or> hd (hex_lit k w) = CHR ''-''"
    by (simp add: hex_lit_def is_digit_def byte_def)
  show "number_literal (hex_lit k w) = Some (uint w)"
    using ParseUint_hex[OF assms, of k w] by (simp add: number_literal_def hex_lit_def has_prefix_def)
qed (simp add: hex_lit_def)

lemma reads_hex_sharp [simp]:
  "LENGTH('a) \<le> 64 \<Longrightarrow> reads (hex_sharp (w :: 'a::len word)) (EInt (uint w))"
  by (simp add: hex_sharp_lit)

section \<open>Texts of calls\<close>

lemma read_list_join:
  assumes "list_all2 reads ss es" and "ss \<noteq> []" and "q = CHR '')'' \<or> q = CHR ''}''"
    and "length (join '', '' ss) + 1 < n"
  shows "read_list n q (join '', '' ss @ q # r) = Some (es, r)"
  using assms
proof (induction ss es arbitrary: n rule: list_all2_induct)
  case (Cons s ss e es)
  from Cons.prems(3) obtain k where k: "n = Suc k" by (cases n) auto
  show ?case
  proof (cases ss)
    case Nil
    have "read_expr k (s @ q # r) = Some (e, q # r)"
      using Cons Nil k by (intro readsD) (auto simp: stops_def)
    with Nil k Cons.hyps show ?thesis by (simp add: has_prefix_def)
  next
    case (Cons a as)
    have l: "length s + 2 + length (join '', '' ss) + 1 < n"
      using Cons.prems(3) \<open>ss = a # as\<close> by (simp add: join_Cons)
    have "read_expr k (s @ '', '' @ join '', '' ss @ q # r) = Some (e, '', '' @ join '', '' ss @ q # r)"
      using Cons.hyps l k by (intro readsD) (auto simp: stops_def)
    moreover have "read_list k q (join '', '' ss @ q # r) = Some (es, r)"
      using Cons.IH Cons.prems \<open>ss = a # as\<close> l k by simp
    ultimately show ?thesis
      using k \<open>ss = a # as\<close> Cons.prems(2) by (auto simp: join_Cons has_prefix_def)
  qed
qed simp

text \<open>The text of a name.\<close>

definition name_text :: "string \<Rightarrow> bool" where
  "name_text s \<longleftrightarrow> s \<noteq> [] \<and> list_all name_char s \<and> \<not> is_digit (hd s)"

lemma name_text_hd: "name_text s \<Longrightarrow> hd s \<notin> {CHR '')'', CHR ''}'', CHR ''-'', double_quote}"
  by (cases s) (auto simp: name_text_def name_char_def is_digit_def double_quote_def byte_def)

lemma read_expr_named:
  assumes "name_text f" and "u = [] \<or> \<not> name_char (hd u)"
  shows "read_expr (Suc n) (f @ u) =
    (if has_prefix u ''('' then
       if has_prefix u ''()'' then Some (ECall f [], drop 2 u)
       else map_option (\<lambda>(es, v). (ECall f es, v)) (read_list n (CHR '')'') (tl u))
     else if has_prefix u ''{'' then
       if has_prefix u ''{}'' then Some (EComposite f [], drop 2 u)
       else map_option (\<lambda>(es, v). (EComposite f es, v)) (read_list n (CHR ''}'') (tl u))
     else Some (EName f, u))"
proof -
  obtain c t where s: "f = c # t" using assms by (cases f) (auto simp: name_text_def)
  have "c \<noteq> double_quote" "c \<noteq> CHR ''-''" "name_char c" "\<not> is_digit c"
    using assms name_text_hd[of f] s by (auto simp: name_text_def)
  then have "read_expr (Suc n) (c # t @ u) =
    (let name = takeWhile name_char (c # t @ u); u = dropWhile name_char (c # t @ u) in
     if has_prefix u ''('' then
       if has_prefix u ''()'' then Some (ECall name [], drop 2 u)
       else map_option (\<lambda>(es, v). (ECall name es, v)) (read_list n (CHR '')'') (tl u))
     else if has_prefix u ''{'' then
       if has_prefix u ''{}'' then Some (EComposite name [], drop 2 u)
       else map_option (\<lambda>(es, v). (EComposite name es, v)) (read_list n (CHR ''}'') (tl u))
     else Some (EName name, u))"
    by simp
  moreover have "takeWhile name_char (f @ u) = f" "dropWhile name_char (f @ u) = u"
    using takeWhile_stops[of name_char f u] assms by (auto simp: name_text_def)
  ultimately show ?thesis unfolding s append_Cons Let_def by (simp only:)
qed

lemma reads_name:
  assumes "name_text f"
  shows "reads f (EName f)"
  unfolding reads_def
proof (intro conjI allI impI)
  fix n r assume n: "length f < n" and r: "stops r"
  from n obtain k where k: "n = Suc k" by (cases n) auto
  have "\<not> has_prefix r ''(''" "\<not> has_prefix r ''{''"
    using stops_char[OF r] by (auto simp: has_prefix_def prefix_def)
  moreover have "r = [] \<or> \<not> name_char (hd r)" using stops_char[OF r] by blast
  ultimately show "read_expr n (f @ r) = Some (EName f, r)"
    by (simp only: k read_expr_named[OF assms] if_False)
qed (use name_text_hd[OF assms] assms in \<open>auto simp: name_text_def\<close>)

lemma read_bracket:
  assumes "name_text f" and "(b, q, con) \<in> {(CHR ''('', CHR '')'', ECall), (CHR ''{'', CHR ''}'', EComposite)}"
  shows "read_expr (Suc n) (f @ b # s) =
    (if has_prefix s [q] then Some (con f [], tl s)
     else map_option (\<lambda>(es, v). (con f es, v)) (read_list n q s))"
proof -
  have "\<not> name_char b" using assms by (auto simp: name_char_def is_digit_def byte_def)
  then show ?thesis
    using read_expr_named[OF assms(1), of "b # s" n] assms(2)
    by (cases s) (auto simp del: read_expr.simps simp: has_prefix_def)
qed

lemma reads_bracket:
  assumes "name_text f" and "list_all2 reads ss es"
    and "(b, q, con) \<in> {(CHR ''('', CHR '')'', ECall), (CHR ''{'', CHR ''}'', EComposite)}"
  shows "reads (f @ b # join '', '' ss @ [q]) (con f es)"
  unfolding reads_def
proof (intro conjI allI impI)
  fix n r assume n: "length (f @ b # join '', '' ss @ [q]) < n"
  then obtain k where k: "n = Suc k" by (cases n) auto
  show "read_expr n ((f @ b # join '', '' ss @ [q]) @ r) = Some (con f es, r)"
  proof (cases "ss = []")
    case True
    then show ?thesis using assms(2) by (auto simp: k read_bracket[OF assms(1,3)] has_prefix_def simp del: read_expr.simps)
  next
    case False
    then obtain s ss' where ss: "ss = s # ss'" by (cases ss) auto
    then have "s \<noteq> []" using assms(2) by (auto simp: list_all2_Cons1 reads_def)
    have "read_list k q (join '', '' ss @ q # r) = Some (es, r)"
      using assms False n k by (intro read_list_join) auto
    moreover have "\<not> has_prefix (join '', '' ss @ q # r) [q]"
      using assms(2,3) ss by (auto simp: list_all2_Cons1 reads_def has_prefix_def join_Cons neq_Nil_conv)
    ultimately show ?thesis by (simp add: k read_bracket[OF assms(1,3)] del: read_expr.simps)
  qed
qed (use name_text_hd[OF assms(1)] assms in \<open>auto simp: name_text_def\<close>)

text \<open>The text of a function up to its opening parenthesis.\<close>

definition call_text :: "string \<Rightarrow> bool" where
  "call_text f \<longleftrightarrow> f \<noteq> [] \<and> last f = CHR ''('' \<and> name_text (butlast f)"

lemma source_calls:
  assumes "list_all2 reads ss es" and "call_text f"
  shows "read_source (f @ join '', '' ss @ '')'') = Some (ECall (butlast f) es)"
proof -
  have f: "f = butlast f @ ''(''" using assms(2) append_butlast_last_id[of f] by (simp add: call_text_def)
  have "reads (butlast f @ CHR ''('' # join '', '' ss @ '')'') (ECall (butlast f) es)"
    using assms by (intro reads_bracket) (auto simp: call_text_def)
  then have "reads ((butlast f @ ''('') @ join '', '' ss @ '')'') (ECall (butlast f) es)" by simp
  then show ?thesis unfolding f[symmetric] by (rule read_source_reads)
qed

text \<open>
  The contract between a printer of values, the reader of expressions and the conversion of an argument: what is
  printed of the value \<open>x\<close> is read as the literal \<open>lit x\<close>, and that denotes \<open>x\<close>.  A call on such literals is then
  read as the call, and the function gets the values.
\<close>

locale literal =
  fixes ok :: "'a \<Rightarrow> bool" and display :: "'a \<Rightarrow> string" and lit :: "'a \<Rightarrow> expr" and arg :: "expr \<Rightarrow> 'a option"
  assumes reads_display: "ok x \<Longrightarrow> reads (display x) (lit x)"
    and arg_lit: "ok x \<Longrightarrow> arg (lit x) = Some x"
begin

lemma call1:
  assumes "ok x" and "call_text f"
  shows "read_source (f @ display x @ '')'') = Some (ECall (butlast f) [lit x])"
  using source_calls[of "[display x]" "[lit x]" f] assms by (simp add: reads_display)

lemma call2:
  assumes "ok x" and "ok y" and "call_text f"
  shows "read_source (f @ display x @ '', '' @ display y @ '')'') = Some (ECall (butlast f) [lit x, lit y])"
  using source_calls[of "[display x, display y]" "[lit x, lit y]" f] assms by (simp add: reads_display join_Cons)

lemma call3:
  assumes "ok x" and "ok y" and "ok z" and "call_text f"
  shows "read_source (f @ display x @ '', '' @ display y @ '', '' @ display z @ '')'') =
    Some (ECall (butlast f) [lit x, lit y, lit z])"
  using source_calls[of "[display x, display y, display z]" "[lit x, lit y, lit z]" f] assms
  by (simp add: reads_display join_Cons)

lemma calls:
  assumes "list_all ok xs" and "call_text f"
  shows "read_source (f @ join '', '' (map display xs) @ '')'') = Some (ECall (butlast f) (map lit xs))"
  using assms by (intro source_calls) (auto simp: list_all2_conv_all_nth list_all_length reads_display)

lemma arg_list_lits: "list_all ok xs \<Longrightarrow> arg_list arg (map lit xs) = Some xs"
  by (induction xs) (auto simp: arg_list_def arg_lit)

lemma bracket:
  assumes "list_all ok xs" and "name_text f"
    and "(b, q, con) \<in> {(CHR ''('', CHR '')'', ECall), (CHR ''{'', CHR ''}'', EComposite)}"
  shows "reads (f @ b # join '', '' (map display xs) @ [q]) (con f (map lit xs))"
  using assms by (intro reads_bracket) (auto simp: list_all2_conv_all_nth list_all_length reads_display)

end

text \<open>The literals that \<open>GoString\<close> prints.\<close>

lemma list_all_True [simp]: "list_all (\<lambda>_. True) xs"
  by (simp add: list_all_iff)

lemma arg_word_uint [simp]: "arg_word (EInt (uint w)) = Some w"
  by (simp add: arg_word_def)

interpretation quoted: literal "\<lambda>_. True" "go_quote isPrint" EString arg_string for isPrint
  by unfold_locales (simp_all add: arg_string_def)

interpretation int_dec: literal int_range itoa EInt arg_int
  by unfold_locales (simp_all add: arg_int_def)

interpretation dec8: literal "\<lambda>_. True" "dec :: uint8 \<Rightarrow> string" "\<lambda>w. EInt (uint w)" arg_word
  by unfold_locales simp_all

interpretation dec16: literal "\<lambda>_. True" "dec :: uint16 \<Rightarrow> string" "\<lambda>w. EInt (uint w)" arg_word
  by unfold_locales simp_all

interpretation dec32: literal "\<lambda>_. True" "dec :: uint32 \<Rightarrow> string" "\<lambda>w. EInt (uint w)" arg_word
  by unfold_locales simp_all

interpretation hex8: literal "\<lambda>_. True" "hex_lit k :: uint8 \<Rightarrow> string" "\<lambda>w. EInt (uint w)" arg_word for k
  by unfold_locales simp_all

interpretation hex16_lit: literal "\<lambda>_. True" "hex_lit k :: uint16 \<Rightarrow> string" "\<lambda>w. EInt (uint w)" arg_word for k
  by unfold_locales simp_all

interpretation hex32_lit: literal "\<lambda>_. True" "hex_lit k :: uint32 \<Rightarrow> string" "\<lambda>w. EInt (uint w)" arg_word for k
  by unfold_locales simp_all

interpretation sharp16: literal "\<lambda>_. True" "hex_sharp :: uint16 \<Rightarrow> string" "\<lambda>w. EInt (uint w)" arg_word
  by unfold_locales simp_all

interpretation sharp64: literal "\<lambda>_. True" "hex_sharp :: uint64 \<Rightarrow> string" "\<lambda>w. EInt (uint w)" arg_word
  by unfold_locales simp_all

definition hwaddr_literal :: "hwaddr \<Rightarrow> expr" where
  "hwaddr_literal addr = EComposite ''net.HardwareAddr'' (map (\<lambda>w. EInt (uint w)) addr)"

interpretation hwaddr_lit: literal "\<lambda>_. True" hwAddrGoString hwaddr_literal arg_hwaddr
proof
  fix addr
  show "reads (hwAddrGoString addr) (hwaddr_literal addr)"
    using hex8.bracket[of addr "''net.HardwareAddr''" "CHR ''{''" "CHR ''}''" EComposite 2]
    by (simp add: hwAddrGoString_def hwaddr_literal_def name_text_def name_char_def is_digit_def byte_def)
  show "arg_hwaddr (hwaddr_literal addr) = Some addr"
    using hex8.arg_list_lits[of addr] by (simp add: arg_hwaddr_def hwaddr_literal_def)
qed

text \<open>The address of a \<open>net.IP\<close>, given by its four octets: \<open>net.IPv4\<close> makes the long form of it.\<close>

definition ip_literal :: "octets \<Rightarrow> expr" where
  "ip_literal p = ECall ''net.IPv4'' (map (\<lambda>w. EInt (uint w)) p)"

definition arg_ip4 :: "expr \<Rightarrow> octets option" where
  "arg_ip4 e = Option.bind (arg_ip e) To4"

lemma arg_ip_literal: "length p = 4 \<Longrightarrow> arg_ip (ip_literal p) = Some (v4_in_v6_prefix @ p)"
  using dec8.arg_list_lits[of p] by (simp add: arg_ip_def ip_literal_def)

lemma To4_mapped: "length p = 4 \<Longrightarrow> To4 (v4_in_v6_prefix @ p) = Some p"
  by (simp add: To4_def v4_in_v6_prefix_def)

interpretation ip_lit: literal "\<lambda>p. length p = 4" "\<lambda>p. ipv4GoString (Some p)" ip_literal arg_ip4
proof
  fix p :: octets
  assume p: "length p = 4"
  show "reads (ipv4GoString (Some p)) (ip_literal p)"
    using dec8.bracket[of p "''net.IPv4''" "CHR ''(''" "CHR '')''" ECall] p
    by (simp add: ipv4GoString_def ip_literal_def To4_def name_text_def name_char_def is_digit_def byte_def)
  show "arg_ip4 (ip_literal p) = Some p"
    using p by (simp add: arg_ip4_def arg_ip_literal To4_mapped)
qed

lemmas literal_calls =
  quoted.call1[OF TrueI] quoted.call2[OF TrueI TrueI] quoted.calls int_dec.call1 int_dec.call2 int_dec.call3
  dec8.call1[OF TrueI] dec16.call1[OF TrueI] dec32.call1[OF TrueI]
  hex16_lit.call1[OF TrueI] hex16_lit.call2[OF TrueI TrueI] hex32_lit.call2[OF TrueI TrueI]
  sharp16.call2[OF TrueI TrueI] sharp64.call1[OF TrueI] sharp64.call2[OF TrueI TrueI]
  hwaddr_lit.call1[OF TrueI] ip_lit.call1

lemmas literal_args [simp] =
  quoted.arg_lit quoted.arg_list_lits int_dec.arg_lit hwaddr_lit.arg_lit[OF TrueI]

lemma call_text_code:
  "call_text f \<longleftrightarrow> f \<noteq> [] \<and> last f = CHR ''('' \<and> butlast f \<noteq> [] \<and> list_all name_char (butlast f) \<and> \<not> is_digit (hd f)"
  by (cases f; cases "tl f") (auto simp: call_text_def name_text_def)

lemmas call_text_eval = call_text_code name_char_def is_digit_def byte_def

end
