(* ===== verification/GoSource.thy ===== *)
theory GoSource
  imports GoExpr MatchRoundtrip ActionRoundtrip
begin

text \<open>
  What the expressions that \<open>GoString\<close> prints make: the match or the action itself, but for the functions whose
  names the code gets wrong.
\<close>

section \<open>The functions\<close>

text \<open>Looking a function up.\<close>

lemma match_lookups1:
  "map_of match_functions ''ovs.DataLinkSource'' = Some (fn1 arg_string DataLinkSource)"
  "map_of match_functions ''ovs.DataLinkDestination'' = Some (fn1 arg_string DataLinkDestination)"
  "map_of match_functions ''ovs.DataLinkType'' = Some (fn1 arg_word DataLinkType)"
  "map_of match_functions ''ovs.DataLinkVLAN'' = Some (fn1 arg_int DataLinkVLAN)"
  "map_of match_functions ''ovs.DataLinkVLANPCP'' = Some (fn1 arg_int DataLinkVLANPCP)"
  "map_of match_functions ''ovs.NetworkSource'' = Some (fn1 arg_string NetworkSource)"
  "map_of match_functions ''ovs.NetworkDestination'' = Some (fn1 arg_string NetworkDestination)"
  "map_of match_functions ''ovs.NetworkECN'' = Some (fn1 arg_int NetworkECN)"
  "map_of match_functions ''ovs.NetworkTOS'' = Some (fn1 arg_int NetworkTOS)"
  "map_of match_functions ''ovs.TunnelGBP'' = Some (fn1 arg_int TunnelGBP)"
  "map_of match_functions ''ovs.TunnelGbpFlags'' = Some (fn1 arg_int TunnelGbpFlags)"
  "map_of match_functions ''ovs.TunnelFlags'' = Some (fn1 arg_int TunnelFlags)"
  "map_of match_functions ''ovs.NetworkTTL'' = Some (fn1 arg_int NetworkTTL)"
  "map_of match_functions ''ovs.TunnelTTL'' = Some (fn1 arg_int TunnelTTL)"
  by (simp_all add: match_functions_def)

lemma match_lookups2:
  "map_of match_functions ''ovs.ConjunctionID'' = Some (fn1 arg_word ConjunctionID)"
  "map_of match_functions ''ovs.TunnelTOS'' = Some (fn1 arg_int TunnelTOS)"
  "map_of match_functions ''ovs.NetworkProtocol'' = Some (fn1 arg_word NetworkProtocol)"
  "map_of match_functions ''ovs.IPv6Source'' = Some (fn1 arg_string IPv6Source)"
  "map_of match_functions ''ovs.IPv6Destination'' = Some (fn1 arg_string IPv6Destination)"
  "map_of match_functions ''ovs.ICMPType'' = Some (fn1 arg_word ICMPType)"
  "map_of match_functions ''ovs.ICMPCode'' = Some (fn1 arg_word ICMPCode)"
  "map_of match_functions ''ovs.ICMP6Type'' = Some (fn1 arg_word ICMP6Type)"
  "map_of match_functions ''ovs.ICMP6Code'' = Some (fn1 arg_word ICMP6Code)"
  "map_of match_functions ''ovs.InPortMatch'' = Some (fn1 arg_int InPortMatch)"
  "map_of match_functions ''ovs.NeighborDiscoveryTarget'' = Some (fn1 arg_string NeighborDiscoveryTarget)"
  "map_of match_functions ''ovs.NeighborDiscoverySourceLinkLayer'' = Some (fn1 arg_hwaddr NeighborDiscoverySourceLinkLayer)"
  "map_of match_functions ''ovs.NeighborDiscoveryTargetLinkLayer'' = Some (fn1 arg_hwaddr NeighborDiscoveryTargetLinkLayer)"
  "map_of match_functions ''ovs.ARPOperation'' = Some (fn1 arg_word ARPOperation)"
  by (simp_all add: match_functions_def)

lemma match_lookups3:
  "map_of match_functions ''ovs.ARPSourceHardwareAddress'' = Some (fn1 arg_hwaddr ARPSourceHardwareAddress)"
  "map_of match_functions ''ovs.ARPTargetHardwareAddress'' = Some (fn1 arg_hwaddr ARPTargetHardwareAddress)"
  "map_of match_functions ''ovs.ARPSourceProtocolAddress'' = Some (fn1 arg_string ARPSourceProtocolAddress)"
  "map_of match_functions ''ovs.ARPTargetProtocolAddress'' = Some (fn1 arg_string ARPTargetProtocolAddress)"
  "map_of match_functions ''ovs.TransportSourcePort'' = Some (fn1 arg_word TransportSourcePort)"
  "map_of match_functions ''ovs.TransportDestinationPort'' = Some (fn1 arg_word TransportDestinationPort)"
  "map_of match_functions ''ovs.TransportSourceMaskedPort'' = Some (fn2 arg_word TransportSourceMaskedPort)"
  "map_of match_functions ''ovs.TransportDestinationMaskedPort'' = Some (fn2 arg_word TransportDestinationMaskedPort)"
  "map_of match_functions ''ovs.UDPSourcePort'' = Some (fn1 arg_word UDPSourcePort)"
  "map_of match_functions ''ovs.UDPDestinationPort'' = Some (fn1 arg_word UDPDestinationPort)"
  "map_of match_functions ''ovs.UDPSourceMaskedPort'' = Some (fn2 arg_word UDPSourceMaskedPort)"
  "map_of match_functions ''ovs.UDPDestinationMaskedPort'' = Some (fn2 arg_word UDPDestinationMaskedPort)"
  "map_of match_functions ''ovs.VLANTCI'' = Some (fn2 arg_word VLANTCI)"
  "map_of match_functions ''ovs.VLANTCI1'' = Some (fn2 arg_word VLANTCI1)"
  by (simp_all add: match_functions_def)

lemma match_lookups4:
  "map_of match_functions ''ovs.IPv6Label'' = Some (fn2 arg_word IPv6Label)"
  "map_of match_functions ''ovs.ArpOp'' = Some (fn1 arg_word ArpOp)"
  "map_of match_functions ''ovs.ConnectionTrackingMark'' = Some (fn2 arg_word ConnectionTrackingMark)"
  "map_of match_functions ''ovs.ConnectionTrackingZone'' = Some (fn1 arg_word ConnectionTrackingZone)"
  "map_of match_functions ''ovs.ConnectionTrackingState'' = Some (fns arg_string ConnectionTrackingState)"
  "map_of match_functions ''ovs.Metadata'' = Some (fn1 arg_word Metadata)"
  "map_of match_functions ''ovs.MetadataWithMask'' = Some (fn2 arg_word MetadataWithMask)"
  "map_of match_functions ''ovs.TCPFlags'' = Some (fns arg_string TCPFlags)"
  "map_of match_functions ''ovs.TunnelID'' = Some (fn1 arg_word TunnelID)"
  "map_of match_functions ''ovs.TunnelIDWithMask'' = Some (fn2 arg_word TunnelIDWithMask)"
  "map_of match_functions ''ovs.TunnelSrc'' = Some (fn1 arg_string TunnelSrc)"
  "map_of match_functions ''ovs.TunnelDst'' = Some (fn1 arg_string TunnelDst)"
  "map_of match_functions ''ovs.IPFrag'' = Some (fn1 arg_string IPFrag)"
  "map_of match_functions ''ovs.FieldMatch'' = Some (fn2 arg_string FieldMatch)"
  by (simp_all add: match_functions_def)

lemma match_lookups_none:
  "map_of match_functions ''ovs.InPort'' = None"
  "map_of match_functions ''ovs.UdpSourcePort'' = None"
  "map_of match_functions ''ovs.UdpDestinationPort'' = None"
  "map_of match_functions ''ovs.UdpSourceMaskedPort'' = None"
  "map_of match_functions ''ovs.UdpDestinationMaskedPort'' = None"
  "map_of match_functions ''ovs.IpFrag'' = None"
  by (simp_all add: match_functions_def)

lemmas match_lookups = match_lookups1 match_lookups2 match_lookups3 match_lookups4

lemma action_lookups:
  "map_of action_functions ''ovs.All'' = Some (fn0 All)"
  "map_of action_functions ''ovs.Drop'' = Some (fn0 Drop)"
  "map_of action_functions ''ovs.Flood'' = Some (fn0 Flood)"
  "map_of action_functions ''ovs.InPort'' = Some (fn0 InPort)"
  "map_of action_functions ''ovs.Local'' = Some (fn0 Local)"
  "map_of action_functions ''ovs.Normal'' = Some (fn0 Normal)"
  "map_of action_functions ''ovs.StripVLAN'' = Some (fn0 StripVLAN)"
  "map_of action_functions ''ovs.ConnectionTracking'' = Some (fn1 arg_string ConnectionTracking)"
  "map_of action_functions ''ovs.ModDataLinkDestination'' = Some (fn1 arg_hwaddr ModDataLinkDestination)"
  "map_of action_functions ''ovs.ModDataLinkSource'' = Some (fn1 arg_hwaddr ModDataLinkSource)"
  "map_of action_functions ''ovs.ModNetworkDestination'' = Some (fn1 arg_ip ModNetworkDestination)"
  "map_of action_functions ''ovs.ModNetworkSource'' = Some (fn1 arg_ip ModNetworkSource)"
  "map_of action_functions ''ovs.ModTransportDestinationPort'' = Some (fn1 arg_word ModTransportDestinationPort)"
  "map_of action_functions ''ovs.ModTransportSourcePort'' = Some (fn1 arg_word ModTransportSourcePort)"
  "map_of action_functions ''ovs.ModVLANVID'' = Some (fn1 arg_int ModVLANVID)"
  "map_of action_functions ''ovs.Output'' = Some (fn1 arg_int Output)"
  "map_of action_functions ''ovs.OutputField'' = Some (fn1 arg_string OutputField)"
  "map_of action_functions ''ovs.Conjunction'' = Some (fn3 arg_int Conjunction)"
  "map_of action_functions ''ovs.Resubmit'' = Some (fn2 arg_int Resubmit)"
  "map_of action_functions ''ovs.ResubmitPort'' = Some (fn1 arg_int ResubmitPort)"
  "map_of action_functions ''ovs.SetField'' = Some (fn2 arg_string SetField)"
  "map_of action_functions ''ovs.Load'' = Some (fn2 arg_string Load)"
  "map_of action_functions ''ovs.SetTunnel'' = Some (fn1 arg_word SetTunnel)"
  "map_of action_functions ''ovs.Move'' = Some (fn2 arg_string Move)"
  by (simp_all add: action_functions_def)

lemmas eval_calls = eval_call_def match_lookups action_lookups fn0_def fn1_def fn2_def fn3_def fns_def

section \<open>Matches\<close>

text \<open>
  The matches that the exported functions make, but for those of \<open>FieldMatch\<close>, whose strings \<open>GoString\<close> does not
  quote; an \<open>int\<close> has 64 bits.  The misnamed ones are those whose function \<open>GoString\<close> does not name.
\<close>

definition src_or_dst :: "string \<Rightarrow> bool" where
  "src_or_dst d \<longleftrightarrow> d = source \<or> d = destination"

fun misnamed :: "match \<Rightarrow> bool" where
  "misnamed (inPortMatch _) = True"
| "misnamed (udpPortMatch _ _ _) = True"
| "misnamed (ipFragMatch _) = True"
| "misnamed _ = False"

fun well_formed_match :: "match \<Rightarrow> bool" where
  "well_formed_match (dataLinkMatch d _) = src_or_dst d"
| "well_formed_match (dataLinkVLANMatch i) = int_range i"
| "well_formed_match (dataLinkVLANPCPMatch i) = int_range i"
| "well_formed_match (networkMatch d _) = src_or_dst d"
| "well_formed_match (networkECN i) = int_range i"
| "well_formed_match (networkTOS i) = int_range i"
| "well_formed_match (tunnelGBP i) = int_range i"
| "well_formed_match (tunnelGbpFlags i) = int_range i"
| "well_formed_match (tunnelFlags i) = int_range i"
| "well_formed_match (networkTTL i) = int_range i"
| "well_formed_match (tunnelTTL i) = int_range i"
| "well_formed_match (tunnelTOS i) = int_range i"
| "well_formed_match (ipv6Match d _) = src_or_dst d"
| "well_formed_match (inPortMatch i) = int_range i"
| "well_formed_match (neighborDiscoveryLinkLayerMatch d _) = src_or_dst d"
| "well_formed_match (arpHardwareAddressMatch d _) = src_or_dst d"
| "well_formed_match (arpProtocolAddressMatch d _) = src_or_dst d"
| "well_formed_match (udpPortMatch d _ _) = src_or_dst d"
| "well_formed_match (transportPortMatch d _ _) = src_or_dst d"
| "well_formed_match (tunnelMatch d _) = src_or_dst d"
| "well_formed_match (fieldMatch _ _) = False"
| "well_formed_match _ = True"

text \<open>Whatever stands between the parentheses, the function is unknown.\<close>

lemma unknown_function:
  assumes "name_text f" and "map_of match_functions f = None"
  shows "match_of_source (f @ CHR ''('' # s) = None"
proof -
  note r = read_bracket[OF assms(1), of "CHR ''(''" "CHR '')''" ECall]
  have "\<exists>es. e = ECall f es" if "read_expr n (f @ CHR ''('' # s) = Some (e, u)" for n e u
    using that r[of "n - 1" s] by (cases n) (auto simp del: read_expr.simps(2) dest!: sym[of "Some _"] split: if_splits)
  then show ?thesis
    using assms(2) by (fastforce simp: match_of_source_def read_source_def eval_call_def simp del: read_expr.simps
      split: option.splits prod.splits list.splits)
qed

lemma misnamed_source:
  assumes "misnamed m" and "well_formed_match m"
  shows "match_of_source (match_GoString isPrint m) = None"
proof (cases "\<exists>flag. m = ipFragMatch flag")
  case True
  have "match_of_source (''ovs.IpFrag'' @ CHR ''('' # s) = None" for s
    by (rule unknown_function) (simp_all add: name_text_def name_char_def is_digit_def byte_def match_lookups_none)
  with True show ?thesis by (auto simp: match_GoString_defs)
next
  case False
  with assms show ?thesis
    by (cases m)
      (simp_all add: match_GoString_defs match_of_source_def literal_calls call_text_eval eval_calls match_lookups_none
        del: append_Cons append.simps)
qed

lemma src_or_dst_other: "src_or_dst d \<Longrightarrow> d \<noteq> source \<Longrightarrow> destination = d"
  by (auto simp: src_or_dst_def)

text \<open>The one argument that is a name.\<close>

lemma read_vlan_none:
  "read_source ''ovs.DataLinkVLAN(ovs.VLANNone)'' = Some (ECall ''ovs.DataLinkVLAN'' [EName ''ovs.VLANNone''])"
  using source_calls[of "[''ovs.VLANNone'']" "[EName ''ovs.VLANNone'']" "''ovs.DataLinkVLAN(''"] reads_name[of "''ovs.VLANNone''"]
  by (simp add: call_text_eval name_text_def)

lemma named_source:
  assumes "\<not> misnamed m" and "well_formed_match m"
  shows "match_of_source (match_GoString isPrint m) = Some m"
  using assms
  by (cases m)
    (simp_all add: src_or_dst_other match_GoString_defs match_of_source_def literal_calls read_vlan_none call_text_eval
      eval_calls arg_int_def match_constructors word_gt_0 del: append_Cons append.simps)

text \<open>
  \<open>FieldMatch\<close>: the strings are printed without quotes.  The name of a field, with or without a range of its bits, is
  then an identifier or an index of one, never a string.
\<close>

definition field_name :: "string \<Rightarrow> bool" where
  "field_name f \<longleftrightarrow> list_all (\<lambda>c. name_char c \<or> c = CHR ''['' \<or> c = CHR '']'') f"

lemma no_string_read:
  assumes "field_name f" and "read_expr n (f @ CHR '','' # s) = Some (e, u)"
  shows "arg_string e = None"
proof -
  obtain k where k: "n = Suc k" using assms(2) by (cases n) auto
  show ?thesis
  proof (cases f)
    case Nil
    then show ?thesis using assms(2)
      by (simp add: k double_quote_def is_digit_def name_char_def byte_def)
  next
    case (Cons c t)
    have q: "c \<noteq> double_quote"
      using assms(1) Cons by (auto simp: field_name_def name_char_def is_digit_def double_quote_def byte_def)
    let ?u = "dropWhile name_char (f @ CHR '','' # s)"
    have "?u \<noteq> [] \<and> hd ?u \<noteq> CHR ''('' \<and> hd ?u \<noteq> CHR ''{''"
      using assms(1)
      by (induction f) (auto simp: field_name_def name_char_def is_digit_def byte_def)
    then have "\<not> has_prefix ?u ''(''" "\<not> has_prefix ?u ''{''"
      by (auto simp: has_prefix_def prefix_def)
    with q show ?thesis using assms(2) Cons
      by (auto simp: k arg_string_def Let_def split: if_splits option.splits)
  qed
qed

lemma read_list_first:
  "read_list n q s = Some (es, u) \<Longrightarrow> \<exists>k e t. read_expr k s = Some (e, t) \<and> es \<noteq> [] \<and> hd es = e"
  by (cases n) (auto split: option.splits prod.splits if_splits; blast)+

lemma unquoted_source:
  assumes "field_name f"
  shows "match_of_source (fieldMatch_GoString f v) = None"
proof -
  let ?s = "f @ CHR '','' # v @ '')''"
  have n: "name_text ''ovs.FieldMatch''" by (simp add: name_text_def name_char_def is_digit_def byte_def)
  have p: "\<not> has_prefix ?s '')''"
    using assms by (cases f) (auto simp: field_name_def has_prefix_def name_char_def is_digit_def byte_def)
  have "\<exists>es. e = ECall ''ovs.FieldMatch'' es \<and> arg_string (hd es) = None"
    if "read_expr m (''ovs.FieldMatch'' @ CHR ''('' # ?s) = Some (e, u)" for m e u
  proof -
    from that obtain k where m: "m = Suc k" by (cases m) auto
    from that obtain es where "e = ECall ''ovs.FieldMatch'' es" "read_list k (CHR '')'') ?s = Some (es, u)"
      using p read_bracket[OF n, of "CHR ''(''" "CHR '')''" ECall k ?s]
      unfolding m by (auto simp del: read_expr.simps append_Cons append.simps)
    with no_string_read[OF assms] read_list_first show ?thesis by metis
  qed
  then show ?thesis
    by (fastforce simp: match_of_source_def read_source_def eval_call_def fieldMatch_GoString_def match_lookups fn2_def
      simp del: read_expr.simps split: option.splits prod.splits list.splits)
qed

section \<open>Actions\<close>

text \<open>
  The actions that the exported functions make, without \<open>Learn\<close>, whose text is a composite literal with the
  names of the fields, and \<open>Multipath\<close>, which prints its numbers as characters.
\<close>

fun well_formed_action :: "action \<Rightarrow> bool" where
  "well_formed_action (textAction a) =
     (a \<in> {actionAll, actionDrop, actionFlood, actionInPort, actionLocal, actionNormal, actionStripVLAN})"
| "well_formed_action (modDataLinkAction d _) = src_or_dst d"
| "well_formed_action (modNetworkAction d ip) = (src_or_dst d \<and> (\<exists>p. ip = Some p \<and> length p = 4))"
| "well_formed_action (modTransportPortAction d _) = src_or_dst d"
| "well_formed_action (modVLANVIDAction i) = int_range i"
| "well_formed_action (outputAction i) = int_range i"
| "well_formed_action (multipathAction _ _ _ _ _ _) = False"
| "well_formed_action (conjunctionAction i n k) = (int_range i \<and> int_range n \<and> int_range k)"
| "well_formed_action (resubmitAction p t) = (int_range p \<and> int_range t)"
| "well_formed_action (resubmitPortAction p) = int_range p"
| "well_formed_action (loadSetFieldAction _ _ t) = (t = actionLoad \<or> t = actionSetField)"
| "well_formed_action (learnAction _) = False"
| "well_formed_action _ = True"

lemma fn1_ip:
  "length p = 4 \<Longrightarrow> fn1 arg_ip f [ip_literal p] = Some (f (v4_in_v6_prefix @ p))"
  by (simp add: fn1_def arg_ip_literal)

lemma load_or_set: "t = actionLoad \<or> t = actionSetField \<Longrightarrow> t \<noteq> actionLoad \<Longrightarrow> actionSetField = t"
  by auto

lemma read_call0: "call_text f \<Longrightarrow> read_source (f @ '')'') = Some (ECall (butlast f) [])"
  using source_calls[of "[]" "[]" f] by simp

lemma read_text_actions:
  "read_source (''ovs.All('' @ '')'') = Some (ECall ''ovs.All'' [])"
  "read_source (''ovs.Drop('' @ '')'') = Some (ECall ''ovs.Drop'' [])"
  "read_source (''ovs.Flood('' @ '')'') = Some (ECall ''ovs.Flood'' [])"
  "read_source (''ovs.InPort('' @ '')'') = Some (ECall ''ovs.InPort'' [])"
  "read_source (''ovs.Local('' @ '')'') = Some (ECall ''ovs.Local'' [])"
  "read_source (''ovs.Normal('' @ '')'') = Some (ECall ''ovs.Normal'' [])"
  "read_source (''ovs.StripVLAN('' @ '')'') = Some (ECall ''ovs.StripVLAN'' [])"
  by (simp_all add: read_call0 call_text_eval del: append_Cons append.simps)

lemma text_action_source:
  assumes "well_formed_action (textAction a)"
  shows "action_of_source (textAction_GoString isPrint a) = Some (textAction a)"
  using assms
  by (elim well_formed_action.elims)
    (auto simp: textAction_GoString_def action_of_source_def eval_calls action_constructors
      read_text_actions[simplified append_Cons append_Nil])

lemma network_action_source:
  assumes "src_or_dst d" and "length p = 4"
  shows "action_of_source (modNetworkAction_GoString d (Some p)) = Some (modNetworkAction d (Some p))"
  using assms
  by (simp add: src_or_dst_other modNetworkAction_GoString_def action_of_source_def ip_lit.call1 call_text_eval
      eval_call_def action_lookups fn1_ip To4_mapped action_constructors del: append_Cons append.simps)

lemma other_action_source:
  assumes "well_formed_action a" and "\<nexists>t. a = textAction t" and "\<nexists>d p. a = modNetworkAction d p"
  shows "action_of_source (action_GoString isPrint a) = Some a"
  using assms
  by (cases a)
    (simp_all add: src_or_dst_other load_or_set action_GoString_defs action_of_source_def literal_calls call_text_eval
      eval_calls action_constructors del: append_Cons append.simps)

lemma well_formed_action_source:
  assumes "well_formed_action a"
  shows "action_of_source (action_GoString isPrint a) = Some a"
proof -
  consider t where "a = textAction t" | d p where "a = modNetworkAction d p"
    | "\<nexists>t. a = textAction t" "\<nexists>d p. a = modNetworkAction d p" by blast
  then show ?thesis
    by cases (use assms in \<open>auto simp: text_action_source network_action_source other_action_source\<close>)
qed

end
