(* ===== verification/FlowTypes.thy ===== *)
theory FlowTypes
  imports GoSource Flows
begin

text \<open>
  The types of what is read: the parsers of \<open>ovs/matchparser.go\<close>, \<open>ovs/actionparser.go\<close> and \<open>ovs/flow.go\<close> only make
  matches and actions that the exported functions of the package make, with numbers in the range of an \<open>int\<close>.
\<close>

section \<open>Matches\<close>

definition well_formed_result :: "match result \<Rightarrow> bool" where
  "well_formed_result r \<longleftrightarrow> (case r of Inl _ \<Rightarrow> True | Inr m \<Rightarrow> well_formed_match m)"

lemma well_formed_result_simps [simp]:
  "well_formed_result (Inl e)" "well_formed_result (Inr m) \<longleftrightarrow> well_formed_match m"
  by (simp_all add: well_formed_result_def)

text \<open>Through the branches of a parser.\<close>

lemma well_formed_branches:
  "\<lbrakk>c \<Longrightarrow> well_formed_result x; \<not> c \<Longrightarrow> well_formed_result y\<rbrakk> \<Longrightarrow> well_formed_result (if c then x else y)"
  "(\<And>v. r = Inr v \<Longrightarrow> well_formed_result (g v)) \<Longrightarrow> well_formed_result (case r of Inl e \<Rightarrow> Inl e | Inr v \<Rightarrow> g v)"
  by (auto split: sum.split)

lemma parseClampInt_range: "parseClampInt s mx = Inr i \<Longrightarrow> int_range i"
  by (auto simp: parseClampInt_def dest: Atoi_range split: sum.splits if_splits)

lemma uint16_range [simp]: "int_range (uint (w :: uint16))"
  using unsigned_less[of w, where ?'a = int] by (auto simp: int_range_def intro: order_trans[of _ 0])

named_theorems well_formed_parsers \<open>a parser of a value makes a well-formed match\<close>

lemma parseIntMatch_well_formed [well_formed_parsers]: "well_formed_result (parseIntMatch key value mx)"
  unfolding parseIntMatch_def
  by (intro well_formed_branches; simp add: match_constructors parseClampInt_range)

lemma parsePort_well_formed [well_formed_parsers]: "well_formed_result (parsePort key value mx)"
  unfolding parsePort_def Let_def
  by (intro well_formed_branches; simp add: match_constructors src_or_dst_def)

lemma parseMACMatch_well_formed [well_formed_parsers]: "well_formed_result (parseMACMatch key value)"
  unfolding parseMACMatch_def
  by (intro well_formed_branches; simp add: match_constructors src_or_dst_def)

lemma parse_flags_well_formed [well_formed_parsers]:
  "well_formed_result (parseCTState value)"
  "well_formed_result (parseTCPFlags value)"
  by (auto simp: parseCTState_def parseTCPFlags_def match_constructors Let_def split: sum.split)

lemma parse_vlan_well_formed [well_formed_parsers]:
  "well_formed_result (parseDataLinkVLAN value)"
  "well_formed_result (parseDataLinkVLANPCP value)"
  unfolding parseDataLinkVLAN_def parseDataLinkVLANPCP_def
  by (intro well_formed_branches; simp add: match_constructors Atoi_range)+

lemma parse_masked_well_formed [well_formed_parsers]:
  "well_formed_result (parseArpOp value)"
  "well_formed_result (parseVLANTCI value)"
  "well_formed_result (parseVLANTCI1 value)"
  "well_formed_result (parseIPv6Label value)"
  "well_formed_result (parseCTMark value)"
  "well_formed_result (parseMetadata value)"
  "well_formed_result (parseTunID value)"
  unfolding parseArpOp_def parseVLANTCI_def parseVLANTCI1_def parseIPv6Label_def parseCTMark_def parseMetadata_def
    parseTunID_def
  by (intro well_formed_branches; simp add: match_constructors)+

text \<open>The first result of \<^const>\<open>parseMatch\<close>.\<close>

definition well_formed_found :: "match option result \<Rightarrow> bool" where
  "well_formed_found r \<longleftrightarrow> (case r of Inr (Some m) \<Rightarrow> well_formed_match m | _ \<Rightarrow> True)"

lemma well_formed_found_branches:
  "\<lbrakk>well_formed_found x; well_formed_found y\<rbrakk> \<Longrightarrow> well_formed_found (if c then x else y)"
  "well_formed_result r \<Longrightarrow> well_formed_found (found r)"
  "well_formed_match m \<Longrightarrow> well_formed_found (Inr (Some m))"
  "well_formed_found (Inr None)"
  "well_formed_found (Inl e)"
  by (auto simp: well_formed_found_def found_def split: sum.splits)

lemma parseMatch_well_formed:
  assumes "parseMatch key value = Inr (Some m)"
  shows "well_formed_match m"
proof -
  have "well_formed_found (parseMatch key value)"
    unfolding parseMatch_def
    by (intro well_formed_found_branches well_formed_parsers)
      (simp_all add: match_constructors src_or_dst_def well_formed_found_branches(3,5) split: sum.split)
  with assms show ?thesis by (simp add: well_formed_found_def)
qed

section \<open>Actions\<close>

lemma scan_lit_int_range: "scan_lit_int 64 l s = Inr (i, t) \<Longrightarrow> int_range i"
  by (auto simp: scan_lit_int_def scan_int_def int_range_def Let_def split: sum.splits prod.splits if_splits)

lemma To4_length: "To4 ip = Some p \<Longrightarrow> length p = 4"
  by (auto simp: To4_def split: if_splits)

lemma To4_four: "length p = 4 \<Longrightarrow> To4 p = Some p"
  by (simp add: To4_def)

lemma resubmit_operand_range: "resubmit_operand s = Inr i \<Longrightarrow> int_range i"
  by (auto simp: resubmit_operand_def int_range_def dest: Atoi_range split: if_splits)

lemma simple_action_well_formed: "simple_action s = Some a \<Longrightarrow> well_formed_action a"
  by (auto simp: simple_action_def action_constructors Let_def split: if_splits)

lemma parse_ip4_well_formed:
  "parse_ip4 ModNetworkSource ip = Inr a \<Longrightarrow> well_formed_action a"
  "parse_ip4 ModNetworkDestination ip = Inr a \<Longrightarrow> well_formed_action a"
  by (auto simp: parse_ip4_def action_constructors src_or_dst_def To4_four dest!: To4_length
      split: option.splits Option.bind_splits)

lemma parseAction_well_formed:
  assumes "parseAction s = Inr a"
  shows "well_formed_action a"
  using assms unfolding parseAction_defs
  by (auto simp: action_constructors src_or_dst_def arrow_args_def
      dest: scan_lit_int_range Atoi_range resubmit_operand_range simple_action_well_formed parse_ip4_well_formed
      split: if_splits sum.splits option.splits prod.splits)

lemma Parse_well_formed: "Parse inp = Inr (as, raw) \<Longrightarrow> list_all well_formed_action as"
proof (induction inp arbitrary: as raw rule: Parse.induct)
  case (1 inp)
  show ?case
  proof (cases "actionParser_parseAction inp")
    case (Inl err)
    with "1.prems" show ?thesis by (subst (asm) Parse.simps) (simp split: if_splits)
  next
    case (Inr p)
    obtain a r rest where p: "p = (a, r, rest)" by (cases p)
    have "well_formed_action a"
      using Inr p by (auto simp: actionParser_parseAction_def dest: parseAction_well_formed split: sum.splits)
    moreover from "1.prems" obtain as' raw' where "Parse rest = Inr (as', raw')" and "as = a # as'"
      using Inr p by (subst (asm) Parse.simps) (auto split: sum.splits)
    ultimately show ?thesis using "1.IH"[OF Inr p[symmetric] refl] by simp
  qed
qed

section \<open>Flows\<close>

definition well_formed_flow :: "Flow \<Rightarrow> bool" where
  "well_formed_flow f \<longleftrightarrow>
     int_range (Priority f) \<and> int_range (FInPort f) \<and> int_range (Table f) \<and> int_range (IdleTimeout f) \<and>
     list_all well_formed_match (Matches f) \<and> list_all well_formed_action (Actions f)"

lemma unmarshal_element_well_formed:
  assumes "well_formed_flow f"
  shows "well_formed_flow (fst (unmarshal_element f s))"
  using assms
  by (auto simp: unmarshal_element_def int_case_def uint_case_def well_formed_flow_def Let_def PortLOCAL_def int_range_def[of "-1"]
      dest: Atoi_range parseMatch_well_formed split: sum.split option.split)

lemma unmarshal_elements_well_formed:
  "well_formed_flow f \<Longrightarrow> well_formed_flow (fst (unmarshal_elements f ss))"
proof (induction f ss rule: unmarshal_elements.induct)
  case (2 f s ss)
  with unmarshal_element_well_formed[OF "2.prems", of s] show ?case
    by (auto split: prod.split option.split)
qed simp

lemma Flow_UnmarshalText_well_formed:
  assumes "well_formed_flow f"
  shows "well_formed_flow (fst (Flow_UnmarshalText f b))"
proof -
  have "well_formed_flow (f\<lparr>Matches := []\<rparr>)" using assms by (simp add: well_formed_flow_def)
  note f1 = unmarshal_elements_well_formed[OF this]
  have parsed: "well_formed_flow (fst (case r of
      Inl (GoPanic m) \<Rightarrow> (f1, Some (GoPanic m))
    | Inl err \<Rightarrow> (f1, Some (e err))
    | Inr (out, raw) \<Rightarrow> (f1\<lparr>Actions := out\<rparr>, w raw)))"
    if "well_formed_flow f1" and "\<And>out raw. r = Inr (out, raw) \<Longrightarrow> list_all well_formed_action out" for f1 r e w
  proof (cases r)
    case (Inl err)
    then show ?thesis using that by (cases err) simp_all
  next
    case (Inr p)
    then show ?thesis using that by (cases p) (simp add: well_formed_flow_def)
  qed
  show ?thesis
    using assms f1[of "split '','' (trim_space (split (keyActions @ ''='') b ! 0))"]
    by (auto simp: Flow_UnmarshalText_def Let_def intro!: parsed dest: Parse_well_formed split: prod.splits option.splits)
qed

end
