(* ===== verification/GoStringProps.thy ===== *)
theory GoStringProps
  imports FlowTypes
begin

text \<open>
  The properties of \<open>GoString\<close> in \<open>ovs/match.go\<close> and \<open>ovs/action.go\<close>, and of the types of what \<open>ovs/flow.go\<close> reads.
\<close>

section \<open>Go expressions\<close>

text \<open>The matches of the exported functions, and those whose text does not make them again.\<close>

fun exported_match :: "match \<Rightarrow> bool" where
  "exported_match (fieldMatch f _) = field_name f"
| "exported_match m = well_formed_match m"

fun source_lost :: "match \<Rightarrow> bool" where
  "source_lost (fieldMatch _ _) = True"
| "source_lost m = misnamed m"

lemma exported_cases:
  assumes "exported_match m"
  obtains f v where "m = fieldMatch f v" "field_name f"
  | "well_formed_match m" "source_lost m = misnamed m"
  using assms by (cases m) auto

text \<open>
  C11.  The Go expression that \<open>GoString\<close> prints for a match makes that match, whatever the strings in it are; but the
  ones for \<open>InPortMatch\<close>, the matches of UDP ports and \<open>IPFrag\<close> call a function that the package does not have, and
  the one for \<open>FieldMatch\<close> has its strings without quotes: with any name of a field it makes no match at all.
\<close>

theorem match_source_denotes:
  assumes "exported_match m"
  shows "match_of_source (match_GoString isPrint m) = (if source_lost m then None else Some m)"
  using assms
  by (cases rule: exported_cases) (auto simp: unquoted_source misnamed_source named_source)

lemma match_source_denotes_witness:
  "match_of_source (match_GoString (\<lambda>_. True) (tcpFlagsMatch [[CHR 0x22, CHR 0x0A], ''+syn''])) =
     Some (tcpFlagsMatch [[CHR 0x22, CHR 0x0A], ''+syn'']) \<and>
   match_of_source (match_GoString (\<lambda>_. True) (udpPortMatch source 80 0)) = None \<and>
   match_of_source (match_GoString (\<lambda>_. True) (fieldMatch ''arp_tpa'' ''NXM_OF_ARP_SPA[]'')) = None"
  using match_source_denotes[of "tcpFlagsMatch [[CHR 0x22, CHR 0x0A], ''+syn'']"]
    match_source_denotes[of "udpPortMatch source 80 0"] match_source_denotes[of "fieldMatch ''arp_tpa'' ''NXM_OF_ARP_SPA[]''"]
  by (simp add: src_or_dst_def field_name_def name_char_def is_digit_def byte_def)



text \<open>
  The numbers of a \<open>Multipath\<close> that are no Unicode characters are printed alike: the expression does not say
  which they were.
\<close>

theorem multipath_numbers_lost:
  assumes "\<not> valid_rune i" and "\<not> valid_rune j"
  shows "action_GoString isPrint (multipathAction f i a n g d) = action_GoString isPrint (multipathAction f j a n g d)"
  using assms by (simp add: multipathAction_GoString_def quote_rune_def)

lemma multipath_numbers_lost_witness:
  "action_GoString (\<lambda>_. True) (multipathAction ''symmetric_l4'' (-1) ''modulo_n'' 2 0 ''NXM_NX_REG0'') =
   action_GoString (\<lambda>_. True) (multipathAction ''symmetric_l4'' 0x110000 ''modulo_n'' 2 0 ''NXM_NX_REG0'')"
  by (rule multipath_numbers_lost) (simp_all add: valid_rune_def)

section \<open>Types\<close>

text \<open>
  C14.  \<open>Flow.UnmarshalText\<close> preserves the types of a flow, also where it returns an error: whatever the text is, the
  numbers stay in the range of an \<open>int\<close>, each match is one that an exported function makes, and so is each action.
\<close>

theorem unmarshalled_flow_typed:
  assumes "well_formed_flow f"
  shows "well_formed_flow (fst (Flow_UnmarshalText f b))"
  using assms by (rule Flow_UnmarshalText_well_formed)

lemma unmarshalled_flow_typed_witness:
  "well_formed_flow (fst (Flow_UnmarshalText zero_flow ''table=x,actions=drop''))"
  by (rule unmarshalled_flow_typed) (simp add: zero_flow_def well_formed_flow_def int_range_def)

end
