(* ===== verification/Client.thy ===== *)
theory Client
  imports GoNumbers
begin

text \<open>
  \<open>ovs/client.go\<close>: the client and the way it runs the Open vSwitch programs.  What a program does is
  outside the repository: the \<open>execFunc\<close> and the \<open>pipeFunc\<close> of a client are functions on a state
  \<open>'w\<close> of the world, which they get and return updated, with the output and the error.  The
  standard input of a pipe is the string that is read from it.  The debug log is in theory
  \<open>ClientShell\<close>.
\<close>

section \<open>The client\<close>

type_synonym 'w ExecFunc = "string \<Rightarrow> string list \<Rightarrow> 'w \<Rightarrow> (string \<times> go_error option) \<times> 'w"
type_synonym 'w PipeFunc = "string \<Rightarrow> string \<Rightarrow> string list \<Rightarrow> 'w \<Rightarrow> (string \<times> go_error option) \<times> 'w"

text \<open>A call with an effect: from the world to a result and the world.\<close>

type_synonym ('w, 'a) io = "'w \<Rightarrow> 'a \<times> 'w"

(* src: ovs/client.go type Client *)
record 'w Client =
  flags :: "string list"
  ofctlFlags :: "string list"
  debug :: bool
  sudo :: bool
  execFunc :: "'w ExecFunc"
  pipeFunc :: "'w PipeFunc"

text \<open>The program and the arguments that are run: the flags of the client come first, \<open>sudo\<close> before all.\<close>

(* src: ovs/client.go 78-85 Client.exec: the command line *)
definition command_line :: "'w Client \<Rightarrow> string \<Rightarrow> string list \<Rightarrow> string \<times> string list" where
  "command_line c cmd args =
     (if sudo c then (''sudo'', cmd # flags c @ args) else (cmd, flags c @ args))"

(* src: ovs/client.go func Client.exec *)
definition Client_exec :: "'w Client \<Rightarrow> string \<Rightarrow> string list \<Rightarrow> ('w, string result) io" where
  "Client_exec c cmd args w =
     (let (cmd', args') = command_line c cmd args;
          ((out, err), w') = execFunc c cmd' args' w
      in case err of
           Some e \<Rightarrow> (Inl (ErrExec (trim_space out) e), w')
         | None \<Rightarrow> (Inr (trim_space out), w'))"

(* src: ovs/client.go func Client.pipe *)
definition Client_pipe :: "'w Client \<Rightarrow> string \<Rightarrow> string \<Rightarrow> string list \<Rightarrow> ('w, go_error option) io" where
  "Client_pipe c stdin cmd args w =
     (let (cmd', args') = command_line c cmd args;
          ((out, err), w') = pipeFunc c stdin cmd' args' w
      in case err of
           Some e \<Rightarrow> (Some (ErrPipe out e), w')
         | None \<Rightarrow> (None, w'))"

section \<open>Options\<close>

type_synonym 'w OptionFunc = "'w Client \<Rightarrow> 'w Client"

(* src: ovs/client.go func Timeout *)
definition Timeout :: "int \<Rightarrow> 'w OptionFunc" where
  "Timeout seconds c = c\<lparr>flags := flags c @ [''--timeout='' @ itoa seconds]\<rparr>"

(* src: ovs/client.go func Debug *)
definition Debug :: "bool \<Rightarrow> 'w OptionFunc" where
  "Debug enable c = c\<lparr>debug := enable\<rparr>"

(* src: ovs/client.go func Exec *)
definition Exec :: "'w ExecFunc \<Rightarrow> 'w OptionFunc" where
  "Exec fn c = c\<lparr>execFunc := fn\<rparr>"

(* src: ovs/client.go func Pipe *)
definition Pipe :: "'w PipeFunc \<Rightarrow> 'w OptionFunc" where
  "Pipe fn c = c\<lparr>pipeFunc := fn\<rparr>"

(* src: ovs/client.go func FlowFormat *)
definition FlowFormat :: "string \<Rightarrow> 'w OptionFunc" where
  "FlowFormat format c = c\<lparr>ofctlFlags := ofctlFlags c @ [''--flow-format='' @ format]\<rparr>"

(* src: ovs/client.go func Protocols *)
definition Protocols :: "string list \<Rightarrow> 'w OptionFunc" where
  "Protocols versions c = c\<lparr>ofctlFlags := ofctlFlags c @ [''--protocols='' @ join '','' versions]\<rparr>"

(* src: ovs/client.go func SetSSLParam *)
definition SetSSLParam :: "string \<Rightarrow> string \<Rightarrow> string \<Rightarrow> 'w OptionFunc" where
  "SetSSLParam pkey cert cacert c =
     c\<lparr>ofctlFlags := ofctlFlags c @
         [''--private-key='' @ pkey, ''--certificate='' @ cert, ''--ca-cert='' @ cacert]\<rparr>"

(* src: ovs/client.go func SetTCPParam *)
definition SetTCPParam :: "string \<Rightarrow> 'w OptionFunc" where
  "SetTCPParam addr c = c\<lparr>flags := flags c @ [''--db=tcp:'' @ addr]\<rparr>"

(* src: ovs/client.go func Sudo *)
definition Sudo :: "'w OptionFunc" where
  "Sudo c = c\<lparr>sudo := True\<rparr>"

text \<open>
  \<open>New\<close>: the functions that run a shell are parameters.  The services of the client hold
  nothing but the client, so a service is the client in the functions of the other theories.
\<close>

(* src: ovs/client.go func New *)
definition New :: "'w ExecFunc \<Rightarrow> 'w PipeFunc \<Rightarrow> 'w OptionFunc list \<Rightarrow> 'w Client" where
  "New shellExec shellPipe options =
     fold (\<lambda>opt c. opt c) options
       \<lparr>flags = [], ofctlFlags = [], debug = False, sudo = False, execFunc = shellExec, pipeFunc = shellPipe\<rparr>"

section \<open>One command\<close>

text \<open>
  An implementation of the interface of the services: it runs a program, and the client's
  lemmas need of it only that the program gets the flags of the client and that its output
  comes back without the white space around it.
\<close>

lemma Client_exec_ok:
  "execFunc c (fst (command_line c cmd args)) (snd (command_line c cmd args)) w = ((out, None), w') \<Longrightarrow>
     Client_exec c cmd args w = (Inr (trim_space out), w')"
  by (simp add: Client_exec_def case_prod_beta)

lemma Client_exec_error:
  "execFunc c (fst (command_line c cmd args)) (snd (command_line c cmd args)) w = ((out, Some e), w') \<Longrightarrow>
     Client_exec c cmd args w = (Inl (ErrExec (trim_space out) e), w')"
  by (simp add: Client_exec_def case_prod_beta)

text \<open>A world that logs the commands: what the services run can be read off it.\<close>

type_synonym command = "string option \<times> string \<times> string list"

definition log_exec :: "(string \<Rightarrow> string list \<Rightarrow> string \<times> go_error option) \<Rightarrow> command list ExecFunc" where
  "log_exec answer cmd args w = (answer cmd args, w @ [(None, cmd, args)])"

definition log_pipe :: "(string \<Rightarrow> string \<Rightarrow> string list \<Rightarrow> string \<times> go_error option) \<Rightarrow> command list PipeFunc" where
  "log_pipe answer stdin cmd args w = (answer stdin cmd args, w @ [(Some stdin, cmd, args)])"

end
