(* ===== verification/GoErrors.thy ===== *)
theory GoErrors
  imports GoQuote
begin

text \<open>
  The texts of the errors of package \<open>ovs\<close>: what their methods \<open>Error\<close> return.  The texts of the errors of
  other packages are the argument \<open>std\<close>, and \<open>isPrint\<close> is the table of printable characters that the verb
  \<open>%q\<close> looks at (theory \<open>GoQuote\<close>).  The theory shows what the text of an error says about the string that
  caused it, and where the text of a wrapped error is kept as it is.
\<close>

section \<open>The errors that are variables\<close>

(* src: ovs/action.go 24-73 errCTNoArguments *)
definition action_errors :: "(go_error \<times> string) list" where
  "action_errors =
     [(errCTNoArguments, ''no arguments for connection tracking''),
      (errInvalidIPv6Label, ''IPv6 label must only use 20 bits''),
      (errInvalidARPOP, ''ARP OP must in the range 1-4''),
      (errInvalidVLANVID, ''VLAN VID must be between 0 and 4095''),
      (errInvalidVLANPCP, ''VLAN PCP must be between 0 and 7''),
      (errOutputNegativePort, ''output port number must not be negative''),
      (errResubmitPortTableZero, ''both port and table are zero for action resubmit''),
      (errLoadSetFieldZero, ''value and/or field for action load or set_field are empty''),
      (errResubmitPortInvalid, ''resubmit port must be between 0 and 65279 inclusive''),
      (errDimensionTooLarge, ''dimension number exceeds total number of dimensions''),
      (errMoveEmpty, ''src and/or dst field for action move are empty''),
      (errOutputFieldEmpty, ''field for action output (output:field syntax) is empty''),
      (errLearnedNil, ''learned flow for action learn is nil'')]"

(* src: ovs/flow.go 30-38 errActionsWithDrop *)
definition flow_errors :: "(go_error \<times> string) list" where
  "flow_errors =
     [(errActionsWithDrop, ''Flow actions include drop, but multiple actions specified''),
      (errInvalidActions, ''invalid actions for Flow''),
      (errNoActions, ''no actions defined for Flow''),
      (errNotEnoughElements, ''not enough elements for valid Flow''),
      (errInvalidLearnedActions, ''invalid actions for LearnedFlow'')]"

(* src: ovs/datapath.go 24-31 errMissingMandatoryDataPathName *)
definition datapath_errors :: "(go_error \<times> string) list" where
  "datapath_errors =
     [(errMissingMandatoryDataPathName, ''datapath name argument is mandatory''),
      (errUninitializedClient, ''client unitialized''),
      (errMissingMandatoryZone, ''at least 1 zone is mandatory''),
      (errWrongArgumentNumber, ''missing or too many arguments to setup ct limits''),
      (errWrongDefaultArgument, ''wrong argument while setting default ct limits''),
      (errWrongZoneArgument, ''wrong argument while setting zone ct limits'')]"

(* src: ovs/openflow.go 26-34 errMultipleValues *)
definition openflow_errors :: "(go_error \<times> string) list" where
  "openflow_errors =
     [(errMultipleValues, ''multiple values returned''),
      (errNotCommitted, ''flow bundle not committed, discarding flows'')]"

text \<open>The other variables are alone in their file; the last two errors have no variable.\<close>

definition single_errors :: "(go_error \<times> string) list" where
  "single_errors =
     [(errEmptyMatchFlow, ''match flow is empty''),
      (ErrInvalidPortRange, ''invalid port range''),
      (ErrInvalidFlowStats, ''invalid flow statistics''),
      (ErrInvalidPortStats, ''invalid port statistics''),
      (ErrInvalidTable, ''invalid openflow table''),
      (ErrInvalidModNetwork, ''invalid IPv4 address for ModNetwork action''),
      (ErrTCPFlagsLength, ''tcp_flags length must be divisible by 4'')]"

section \<open>The errors that are built\<close>

text \<open>The methods get the text of the error that is inside.\<close>

(* src: ovs/flow.go func FlowError.Error *)
definition FlowError_Error :: "(nat \<Rightarrow> bool) \<Rightarrow> string \<Rightarrow> string \<Rightarrow> string" where
  "FlowError_Error isPrint str err =
     (if str = '''' then err
      else ''flow error due to string '' @ go_quote isPrint str @ '': '' @ err)"

(* src: ovs/matchflow.go func MatchFlowError.Error *)
definition MatchFlowError_Error :: "(nat \<Rightarrow> bool) \<Rightarrow> string \<Rightarrow> string \<Rightarrow> string" where
  "MatchFlowError_Error isPrint str err =
     (if str = '''' then err
      else ''flow error due to string '' @ go_quote isPrint str @ '': '' @ err)"

(* src: ovs/ovs.go func Error.Error *)
definition Error_Error :: "string \<Rightarrow> string \<Rightarrow> string" where
  "Error_Error out err = err @ '': '' @ out"

(* src: ovs/client.go func pipeError.Error *)
definition pipeError_Error :: "(nat \<Rightarrow> bool) \<Rightarrow> string \<Rightarrow> string \<Rightarrow> string" where
  "pipeError_Error isPrint out err = ''pipe error: '' @ err @ '': '' @ go_quote isPrint out"

text \<open>The errors that \<open>fmt.Errorf\<close> makes, where the code returns them.\<close>

definition built_error :: "(nat \<Rightarrow> bool) \<Rightarrow> go_error \<Rightarrow> string option" where
  "built_error isPrint e =
     (let q = go_quote isPrint in
      case e of
        ErrHardwareAddressLength n \<Rightarrow> Some (''hardware address must be 6 octets, but got '' @ fmt_nat 10 n)
      | ErrWildcardMaskLength n \<Rightarrow> Some (''wildcard mask must be 6 octets, but got '' @ fmt_nat 10 n)
      | ErrInvalidIPv4 s \<Rightarrow> Some (q s @ '' is not a valid IPv4 address or IPv4 CIDR block'')
      | ErrInvalidIPv6 s \<Rightarrow> Some (q s @ '' is not a valid IPv6 address or IPv6 CIDR block'')
      | ErrInvalidIPv4Address s \<Rightarrow> Some (''invalid IPv4 address: '' @ s)
      | ErrIntegerTooLarge i m \<Rightarrow>
          Some (''integer '' @ itoa i @ '' too large; '' @ itoa i @ '' > '' @ itoa m)
      | ErrNoActionMatchedFor k v \<Rightarrow> Some (''no action matched for '' @ k @ ''='' @ v)
      | ErrInvalidValueFor k v \<Rightarrow> Some (''invalid value, no action matched for '' @ k @ ''='' @ v)
      | ErrInvalidVLANTCI v \<Rightarrow> Some (''invalid vlan_tci match: '' @ q v)
      | ErrInvalidVLANTCI1 v \<Rightarrow> Some (''invalid vlan_tci1 match: '' @ q v)
      | ErrInvalidIPv6LabelMatch v \<Rightarrow> Some (''invalid ipv6_label match: '' @ q v)
      | ErrInvalidCTMark v \<Rightarrow> Some (''invalid ct_mark match: '' @ q v)
      | ErrInvalidMetadata v \<Rightarrow> Some (''invalid metadata match: '' @ q v)
      | ErrInvalidTunID v \<Rightarrow> Some (''invalid tun_id match: '' @ q v)
      | ErrInvalidAction s \<Rightarrow> Some (''invalid action: '' @ q s)
      | ErrNoActionMatched s \<Rightarrow> Some (''no action matched for '' @ q s)
      | ErrMatchFormat m \<Rightarrow> Some (''unexpected match format for match '' @ q m)
      | _ \<Rightarrow> None)"

section \<open>The text of an error\<close>

definition plain_error :: "(nat \<Rightarrow> bool) \<Rightarrow> (go_error \<Rightarrow> string) \<Rightarrow> go_error \<Rightarrow> string" where
  "plain_error isPrint std e =
     (case map_of (action_errors @ flow_errors @ datapath_errors @ openflow_errors @ single_errors) e of
        Some s \<Rightarrow> s
      | None \<Rightarrow> (case built_error isPrint e of Some s \<Rightarrow> s | None \<Rightarrow> std e))"

fun error_text :: "(nat \<Rightarrow> bool) \<Rightarrow> (go_error \<Rightarrow> string) \<Rightarrow> go_error \<Rightarrow> string" where
  "error_text isPrint std (FlowError str e) = FlowError_Error isPrint str (error_text isPrint std e)"
| "error_text isPrint std (MatchFlowError str e) = MatchFlowError_Error isPrint str (error_text isPrint std e)"
| "error_text isPrint std (ErrDiscarding e) = ''discarding add flow transaction: '' @ error_text isPrint std e"
| "error_text isPrint std (ErrExec out e) = Error_Error out (error_text isPrint std e)"
| "error_text isPrint std (ErrPipe out e) = pipeError_Error isPrint out (error_text isPrint std e)"
| "error_text isPrint std (ErrExternal s) = s"
| "error_text isPrint std e = plain_error isPrint std e"

text \<open>
  The error of a flow that was not understood names the string that caused it as a Go literal, which denotes
  just that string, and ends in the text of the error that is inside.
\<close>

lemma FlowError_names_cause:
  assumes "str \<noteq> []"
  shows "\<exists>t. error_text isPrint std (FlowError str e) = ''flow error due to string '' @ double_quote # t \<and>
     string_literal t = Some (str, '': '' @ error_text isPrint std e)"
  using assms string_literal_quoted[of isPrint str "'': '' @ error_text isPrint std e"]
  by (simp add: FlowError_Error_def go_quote_def)

lemma FlowError_keeps_text:
  "error_text isPrint std (FlowError '''' e) = error_text isPrint std e"
  "error_text isPrint std (MatchFlowError '''' e) = error_text isPrint std e"
  by (simp_all add: FlowError_Error_def MatchFlowError_Error_def)

text \<open>What a program printed can be read from the text of an error of the client.\<close>

lemma pipeError_shows_output:
  "\<exists>t. error_text isPrint std (ErrPipe out e) =
       ''pipe error: '' @ error_text isPrint std e @ '': '' @ double_quote # t \<and>
     string_literal t = Some (out, [])"
  using string_literal_quoted[of isPrint out "[]"]
  by (simp add: pipeError_Error_def go_quote_def)

end
