(* ===== verification/ClientShell.thy ===== *)
theory ClientShell
  imports Client GoErrors
begin

text \<open>
  The rest of \<open>ovs/client.go\<close>: the functions \<open>shellExec\<close> and \<open>shellPipe\<close> that run a program, and the debug
  log of the client.  Package \<open>os/exec\<close> is outside the repository: a command is a record of the calls that the
  code makes on it.  The theory shows what is left undone when one of these calls fails, and that the debug log
  changes nothing else.
\<close>

section \<open>Running a program\<close>

text \<open>
  The calls on an \<open>exec.Cmd\<close> and on its pipes: \<open>CopyStdin\<close> is \<open>io.Copy\<close> to the pipe of the standard input, the
  two reads are those of everything the program prints, with the error that ended them.
\<close>

record 'w Cmd =
  CombinedOutput :: "'w \<Rightarrow> (string \<times> go_error option) \<times> 'w"
  StdoutPipe :: "'w \<Rightarrow> go_error option \<times> 'w"
  StderrPipe :: "'w \<Rightarrow> go_error option \<times> 'w"
  StdinPipe :: "'w \<Rightarrow> go_error option \<times> 'w"
  Start :: "'w \<Rightarrow> go_error option \<times> 'w"
  CopyStdin :: "string \<Rightarrow> 'w \<Rightarrow> go_error option \<times> 'w"
  CloseStdin :: "'w \<Rightarrow> go_error option \<times> 'w"
  ReadStdout :: "'w \<Rightarrow> (string \<times> go_error option) \<times> 'w"
  ReadStderr :: "'w \<Rightarrow> (string \<times> go_error option) \<times> 'w"
  Wait :: "'w \<Rightarrow> go_error option \<times> 'w"

(* src: ovs/client.go func shellExec *)
definition shellExec :: "(string \<Rightarrow> string list \<Rightarrow> 'w Cmd) \<Rightarrow> 'w ExecFunc" where
  "shellExec Command cmd args w = CombinedOutput (Command cmd args) w"

text \<open>A call whose error is returned at once, with no output.\<close>

definition checked ::
    "('w \<Rightarrow> go_error option \<times> 'w) \<Rightarrow> ('w, string \<times> go_error option) io \<Rightarrow> ('w, string \<times> go_error option) io" where
  "checked call rest w = (case call w of (Some e, w') \<Rightarrow> (([], Some e), w') | (None, w') \<Rightarrow> rest w')"

text \<open>\<open>ioutil.ReadAll\<close> of an \<open>io.MultiReader\<close> of two readers.\<close>

definition read_both :: "('w, string \<times> go_error option) io \<Rightarrow> ('w, string \<times> go_error option) io \<Rightarrow>
    ('w, string \<times> go_error option) io" where
  "read_both r1 r2 w =
     (case r1 w of
        ((b1, Some e), w') \<Rightarrow> ((b1, Some e), w')
      | ((b1, None), w') \<Rightarrow> (case r2 w' of ((b2, e), w'') \<Rightarrow> ((b1 @ b2, e), w'')))"

(* src: ovs/client.go func shellPipe *)
definition shellPipe :: "(string \<Rightarrow> string list \<Rightarrow> 'w Cmd) \<Rightarrow> 'w PipeFunc" where
  "shellPipe Command stdin cmd args =
     (let command = Command cmd args in
      checked (StdoutPipe command) (
      checked (StderrPipe command) (
      checked (StdinPipe command) (
      checked (Start command) (
      checked (CopyStdin command stdin) (
      checked (CloseStdin command) (\<lambda>w.
        case read_both (ReadStdout command) (ReadStderr command) w of
          ((b, Some e), w') \<Rightarrow> (([], Some e), w')
        | ((b, None), w') \<Rightarrow> (case Wait command w' of (e, w'') \<Rightarrow> ((b, e), w'')))))))))"

text \<open>A command that keeps the calls that are made on it and answers each as it is told.\<close>

datatype (plugins only: code size) shell_call =
    OpenStdout | OpenStderr | OpenStdin | StartProgram | WriteStdin string | EndStdin | GetStdout | GetStderr | AwaitExit

definition told :: "(shell_call \<Rightarrow> go_error option) \<Rightarrow> shell_call \<Rightarrow> shell_call list \<Rightarrow> go_error option \<times> shell_call list" where
  "told answer call w = (answer call, w @ [call])"

definition scripted :: "(shell_call \<Rightarrow> go_error option) \<Rightarrow> string \<Rightarrow> string \<Rightarrow> shell_call list Cmd" where
  "scripted answer out err =
     \<lparr>CombinedOutput = \<lambda>w. ((out @ err, answer AwaitExit), w @ [StartProgram, AwaitExit]),
      StdoutPipe = told answer OpenStdout, StderrPipe = told answer OpenStderr, StdinPipe = told answer OpenStdin,
      Start = told answer StartProgram, CopyStdin = (\<lambda>s. told answer (WriteStdin s)), CloseStdin = told answer EndStdin,
      ReadStdout = (\<lambda>w. case told answer GetStdout w of (e, w') \<Rightarrow> ((out, e), w')),
      ReadStderr = (\<lambda>w. case told answer GetStderr w of (e, w') \<Rightarrow> ((err, e), w')),
      Wait = told answer AwaitExit\<rparr>"

text \<open>The calls of a list up to the first one that fails, and its error.\<close>

fun until_error :: "(shell_call \<Rightarrow> go_error option) \<Rightarrow> shell_call list \<Rightarrow> shell_call list \<times> go_error option" where
  "until_error answer [] = ([], None)"
| "until_error answer (c # cs) =
     (case answer c of
        Some e \<Rightarrow> ([c], Some e)
      | None \<Rightarrow> (case until_error answer cs of (ds, e) \<Rightarrow> (c # ds, e)))"

definition shell_calls :: "string \<Rightarrow> shell_call list" where
  "shell_calls stdin =
     [OpenStdout, OpenStderr, OpenStdin, StartProgram, WriteStdin stdin, EndStdin, GetStdout, GetStderr, AwaitExit]"

lemma shellPipe_calls:
  "shellPipe (\<lambda>_ _. scripted answer out err) stdin cmd args w =
     (case until_error answer (shell_calls stdin) of
        (calls, e) \<Rightarrow> ((if AwaitExit \<in> set calls then out @ err else [], e), w @ calls))"
  by (simp add: shellPipe_def checked_def read_both_def scripted_def told_def shell_calls_def split: option.splits)

text \<open>
  C33.  A program that was started is left behind, with nothing waiting for its end, exactly when the pipe to its
  standard input breaks or its output cannot be read; and then none of what it printed is returned.
\<close>

theorem shellPipe_abandons_program:
  "case shellPipe (\<lambda>_ _. scripted answer out err) stdin cmd args [] of
     ((text', e), calls) \<Rightarrow>
       text' = (if AwaitExit \<in> set calls then out @ err else []) \<and>
       (StartProgram \<in> set calls \<and> answer StartProgram = None \<and> AwaitExit \<notin> set calls \<longleftrightarrow>
          list_all (\<lambda>c. answer c = None) [OpenStdout, OpenStderr, OpenStdin, StartProgram] \<and>
          list_ex (\<lambda>c. answer c \<noteq> None) [WriteStdin stdin, EndStdin, GetStdout, GetStderr])"
  by (auto simp: shellPipe_calls shell_calls_def split: option.splits)

text \<open>
  So when the program ends before it has read its input, what it printed about the reason is not in the error of
  the client.
\<close>

lemma broken_stdin_loses_output:
  assumes "list_all (\<lambda>c. answer c = None) [OpenStdout, OpenStderr, OpenStdin, StartProgram]"
    and "answer (WriteStdin stdin) = Some e" and "pipeFunc c = shellPipe (\<lambda>_ _. scripted answer out err)"
  shows "\<exists>calls. Client_pipe c stdin cmd args [] = (Some (ErrPipe [] e), calls) \<and> AwaitExit \<notin> set calls"
  using assms by (simp add: Client_pipe_def case_prod_beta shellPipe_calls shell_calls_def)

section \<open>The debug log\<close>

text \<open>
  The log is the list of the messages that \<open>log.Printf\<close> was given.  The verb \<open>%v\<close> prints a list of strings in
  brackets with blanks between.
\<close>

type_synonym 'w logged = "'w \<times> string list"

(* src: ovs/client.go func Client.debugf *)
definition debugf :: "'w Client \<Rightarrow> string \<Rightarrow> string list \<Rightarrow> string list" where
  "debugf c msg log = (if \<not> debug c then log else log @ [''ovs: '' @ msg])"

definition args_text :: "string list \<Rightarrow> string" where
  "args_text args = ''['' @ join '' '' args @ '']''"

text \<open>
  \<open>exec\<close> and \<open>pipe\<close> with their messages.  An output without bytes is taken for \<open>nil\<close>, which is what \<open>shellExec\<close>
  returns then.  The argument \<open>reads\<close> says in which pieces the pipe function reads its input, each of which is a
  message.
\<close>

(* src: ovs/client.go func Client.exec *)
definition exec_logged :: "(nat \<Rightarrow> bool) \<Rightarrow> 'w Client \<Rightarrow> string \<Rightarrow> string list \<Rightarrow> ('w logged, string result) io" where
  "exec_logged isPrint c cmd args = (\<lambda>(w, log).
     (let (cmd', args') = command_line c cmd args;
          log = debugf c (''exec: '' @ cmd' @ '' '' @ args_text args') log;
          ((out, err), w') = execFunc c cmd' args' w;
          log = (if out \<noteq> [] then debugf c (''exec: '' @ go_quote isPrint (trim_space out)) log else log)
      in case err of
           Some e \<Rightarrow> (Inl (ErrExec (trim_space out) e), w', log)
         | None \<Rightarrow> (Inr (trim_space out), w', log)))"

(* src: ovs/client.go func Client.pipe *)
definition pipe_logged ::
    "(nat \<Rightarrow> bool) \<Rightarrow> (go_error \<Rightarrow> string) \<Rightarrow> (string \<Rightarrow> string list) \<Rightarrow> 'w Client \<Rightarrow> string \<Rightarrow> string \<Rightarrow> string list \<Rightarrow>
       ('w logged, go_error option) io" where
  "pipe_logged isPrint std reads c stdin cmd args = (\<lambda>(w, log).
     (let (cmd', args') = command_line c cmd args;
          log = debugf c (''pipe: '' @ cmd' @ '' '' @ args_text args') log;
          log = debugf c ''bundle:'' log;
          log = fold (debugf c) (reads stdin) log;
          ((out, err), w') = pipeFunc c stdin cmd' args' w
      in case err of
           Some e \<Rightarrow> (Some (ErrPipe out e), w',
             debugf c (''pipe error: '' @ error_text isPrint std e @ '': '' @ go_quote isPrint out) log)
         | None \<Rightarrow> (None, w', log)))"

lemma fold_debugf: "fold (debugf c) msgs log = log @ (if debug c then map (\<lambda>m. ''ovs: '' @ m) msgs else [])"
  by (induction msgs arbitrary: log) (simp_all add: debugf_def)

definition forget_log :: "'a \<times> 'w logged \<Rightarrow> 'a \<times> 'w" where
  "forget_log r = (fst r, fst (snd r))"

theorem debug_log_transparent:
  "forget_log (exec_logged isPrint c cmd args (w, log)) = Client_exec c cmd args w"
  "forget_log (pipe_logged isPrint std reads c stdin cmd args (w, log)) = Client_pipe c stdin cmd args w"
  by (simp_all add: forget_log_def exec_logged_def pipe_logged_def Client_exec_def Client_pipe_def case_prod_beta Let_def
      split: option.split)

text \<open>The log of a pipe ends in the input, and after it the text of the error if there is one.\<close>

lemma pipe_log:
  assumes "debug c"
    and "pipeFunc c stdin (fst (command_line c cmd args)) (snd (command_line c cmd args)) w = ((out, err), w')"
  shows "snd (snd (pipe_logged isPrint std reads c stdin cmd args (w, log))) =
     log @ map (\<lambda>m. ''ovs: '' @ m)
       ([''pipe: '' @ fst (command_line c cmd args) @ '' '' @ args_text (snd (command_line c cmd args)), ''bundle:''] @
        reads stdin @ (case err of None \<Rightarrow> [] | Some e \<Rightarrow> [error_text isPrint std (ErrPipe out e)]))"
  using assms
  by (simp add: pipe_logged_def case_prod_beta fold_debugf debugf_def pipeError_Error_def split: option.split)

lemma quiet_without_debug:
  assumes "\<not> debug c"
  shows "snd (snd (exec_logged isPrint c cmd args (w, log))) = log"
    and "snd (snd (pipe_logged isPrint std reads c stdin cmd args (w, log))) = log"
  using assms
  by (simp_all add: exec_logged_def pipe_logged_def case_prod_beta Let_def fold_debugf debugf_def split: option.split)

end
