(* ===== verification/OpenFlow.thy ===== *)
theory OpenFlow
  imports Client Flows
begin

text \<open>
  \<open>ovs/openflow.go\<close>: the service that runs \<open>ovs-ofctl\<close>.  The service holds the client, which is
  the first argument of its methods here.  A callback that appends to a variable of its caller is a
  function on that variable.  A method that returns a slice and an error at once returns a pair.
\<close>

section \<open>Transactions\<close>

(* src: ovs/openflow.go type flowDirective *)
record flowDirective =
  directive :: string
  flow :: string

(* src: ovs/openflow.go type FlowTransaction *)
record FlowTransaction =
  flows :: "flowDirective list"
  committed :: bool
  err :: "go_error option"

(* src: ovs/openflow.go const dirAdd *)
abbreviation dirAdd :: string where "dirAdd \<equiv> ''add''"
(* src: ovs/openflow.go const dirDelete *)
abbreviation dirDelete :: string where "dirDelete \<equiv> ''delete''"

text \<open>
  A flow is pushed through the interface \<open>TextMarshaler\<close>: all that is used of it is what its
  \<open>MarshalText\<close> returns.
\<close>

(* src: ovs/openflow.go func FlowTransaction.push *)
fun push :: "string \<Rightarrow> string result list \<Rightarrow> FlowTransaction \<Rightarrow> FlowTransaction" where
  "push dir [] tx = tx"
| "push dir (f # fs) tx =
     (case f of
        Inl e \<Rightarrow> tx\<lparr>err := Some e\<rparr>
      | Inr fb \<Rightarrow> push dir fs (tx\<lparr>flows := flows tx @ [\<lparr>directive = dir, flow = fb\<rparr>]\<rparr>))"

(* src: ovs/openflow.go func FlowTransaction.Add *)
definition Add :: "Flow list \<Rightarrow> FlowTransaction \<Rightarrow> FlowTransaction" where
  "Add fs tx = (if err tx \<noteq> None then tx else push dirAdd (map Flow_MarshalText fs) tx)"

(* src: ovs/openflow.go func FlowTransaction.Delete *)
definition Delete :: "MatchFlow list \<Rightarrow> FlowTransaction \<Rightarrow> FlowTransaction" where
  "Delete fs tx = (if err tx \<noteq> None then tx else push dirDelete (map MatchFlow_MarshalText fs) tx)"

(* src: ovs/openflow.go func FlowTransaction.Commit *)
definition Commit :: "FlowTransaction \<Rightarrow> go_error option \<times> FlowTransaction" where
  "Commit tx = (case err tx of Some e \<Rightarrow> (Some e, tx) | None \<Rightarrow> (None, tx\<lparr>committed := True\<rparr>))"

(* src: ovs/openflow.go func FlowTransaction.Discard *)
definition Discard :: "go_error \<Rightarrow> FlowTransaction \<Rightarrow> go_error \<times> FlowTransaction" where
  "Discard e tx = (ErrDiscarding e, tx\<lparr>flows := []\<rparr>)"

definition new_transaction :: FlowTransaction where
  "new_transaction = \<lparr>flows = [], committed = False, err = None\<rparr>"

section \<open>Commands\<close>

(* src: ovs/openflow.go func OpenFlowService.exec *)
definition ofctl_exec :: "'w Client \<Rightarrow> string list \<Rightarrow> ('w, string result) io" where
  "ofctl_exec c args = Client_exec c ''ovs-ofctl'' args"

(* src: ovs/openflow.go func OpenFlowService.pipe *)
definition ofctl_pipe :: "'w Client \<Rightarrow> string \<Rightarrow> string list \<Rightarrow> ('w, go_error option) io" where
  "ofctl_pipe c stdin args = Client_pipe c stdin ''ovs-ofctl'' args"

text \<open>A command whose output is not used.\<close>

definition error_of :: "'a result \<Rightarrow> go_error option" where
  "error_of r = (case r of Inl e \<Rightarrow> Some e | Inr _ \<Rightarrow> None)"

(* src: ovs/openflow.go func OpenFlowService.AddFlow *)
definition AddFlow :: "'w Client \<Rightarrow> string \<Rightarrow> Flow \<Rightarrow> ('w, go_error option) io" where
  "AddFlow c bridge f w =
     (case Flow_MarshalText f of
        Inl e \<Rightarrow> (Some e, w)
      | Inr fb \<Rightarrow>
          (let (r, w') = ofctl_exec c ([''add-flow''] @ ofctlFlags c @ [bridge, fb]) w in (error_of r, w')))"

text \<open>The lines of a bundle.\<close>

(* src: ovs/openflow.go 168-175 OpenFlowService.AddFlowBundle: the loop that fills the buffer *)
definition directive_line :: "flowDirective \<Rightarrow> string" where
  "directive_line d = directive d @ '' '' @ flow d @ [CHR 0x0A]"

(* src: ovs/openflow.go func OpenFlowService.AddFlowBundle *)
definition AddFlowBundle ::
    "'w Client \<Rightarrow> string \<Rightarrow> (FlowTransaction \<Rightarrow> go_error option \<times> FlowTransaction) \<Rightarrow>
     ('w, go_error option) io" where
  "AddFlowBundle c bridge fn w =
     (case fn new_transaction of
        (Some e, tx) \<Rightarrow> (Some e, w)
      | (None, tx) \<Rightarrow>
          if \<not> committed tx then (Some errNotCommitted, w)
          else ofctl_pipe c (concat (map directive_line (flows tx)))
                 ([''--bundle'', ''add-flow''] @ ofctlFlags c @ [bridge, ''-'']) w)"

(* src: ovs/openflow.go func OpenFlowService.DelFlows *)
definition DelFlows :: "'w Client \<Rightarrow> string \<Rightarrow> MatchFlow option \<Rightarrow> ('w, go_error option) io" where
  "DelFlows c bridge f w =
     (let args = [''del-flows''] @ ofctlFlags c @ [bridge] in
      case f of
        None \<Rightarrow> (let (r, w') = ofctl_exec c args w in (error_of r, w'))
      | Some m \<Rightarrow>
          (case MatchFlow_MarshalText m of
             Inl e \<Rightarrow> (Some e, w)
           | Inr fb \<Rightarrow> (let (r, w') = ofctl_exec c (args @ [fb]) w in (error_of r, w'))))"

(* src: ovs/openflow.go func OpenFlowService.ModPort *)
definition ModPort :: "'w Client \<Rightarrow> string \<Rightarrow> string \<Rightarrow> string \<Rightarrow> ('w, go_error option) io" where
  "ModPort c bridge port action w =
     (let (r, w') = ofctl_exec c ([''mod-port''] @ ofctlFlags c @ [bridge, port, action]) w
      in (error_of r, w'))"

section \<open>Reading the output\<close>

text \<open>
  \<open>bufio.Scanner\<close> with \<open>bufio.ScanLines\<close>: the lines without their line feed and a carriage
  return before it.  A line of 64 KiB or more stops the scanner with \<open>bufio.ErrTooLong\<close>.
\<close>

definition drop_cr :: "string \<Rightarrow> string" where
  "drop_cr l = trim_suffix l [CHR 0x0D]"

definition raw_lines :: "string \<Rightarrow> string list" where
  "raw_lines s =
     (let ls = split [CHR 0x0A] s in if last ls = [] then butlast ls else ls)"

definition short_line :: "string \<Rightarrow> bool" where
  "short_line l \<longleftrightarrow> length l < 65536"

definition scan_lines :: "string \<Rightarrow> string list \<times> go_error option" where
  "scan_lines s =
     (let ls = raw_lines s in
      (map drop_cr (takeWhile short_line ls), if list_all short_line ls then None else Some ErrTooLong))"

text \<open>
  The callbacks: on the variable they append to and the bytes they get, with the error they return.
\<close>

type_synonym 's callback = "'s \<Rightarrow> string \<Rightarrow> 's \<times> go_error option"

(* src: ovs/openflow.go 430-436 parseEachLine: the loop over the lines *)
fun each_line :: "'s callback \<Rightarrow> go_error option \<Rightarrow> 's \<Rightarrow> string list \<Rightarrow> 's \<times> go_error option" where
  "each_line fn scan_err s [] = (s, scan_err)"
| "each_line fn scan_err s (b # ls) =
     (case fn s b of
        (s', Some e) \<Rightarrow> (s', Some e)
      | (s', None) \<Rightarrow> each_line fn scan_err s' ls)"

(* src: ovs/openflow.go func parseEachLine *)
definition parseEachLine :: "string \<Rightarrow> string \<Rightarrow> 's callback \<Rightarrow> 's \<Rightarrow> 's \<times> go_error option" where
  "parseEachLine inp pre fn s =
     (case scan_lines inp of
        ([], _) \<Rightarrow> (s, Some ErrUnexpectedEOF)
      | (l # ls, scan_err) \<Rightarrow>
          if \<not> contains l pre then (s, Some ErrUnexpectedEOF) else each_line fn scan_err s ls)"

text \<open>The lines after the two of an item that are discarded.\<close>

(* src: ovs/openflow.go 476-490 parseEach: the further lines *)
definition discarded_lines :: "bool \<Rightarrow> bool \<Rightarrow> nat" where
  "discarded_lines hasDuration hasCustomStats =
     (if hasDuration then (if hasCustomStats then 3 else 1) else 0)"

(* src: ovs/openflow.go 466-495 parseEach: the loop over the lines *)
fun each_two_lines ::
    "'s callback \<Rightarrow> nat \<Rightarrow> go_error option \<Rightarrow> 's \<Rightarrow> string list \<Rightarrow> 's \<times> go_error option" where
  "each_two_lines fn skip scan_err s [] = (s, scan_err)"
| "each_two_lines fn skip scan_err s [b] = (s, Some ErrUnexpectedEOF)"
| "each_two_lines fn skip scan_err s (b # b' # ls) =
     (if length ls < skip then (s, Some ErrUnexpectedEOF)
      else (case fn s (b @ b') of
              (s', Some e) \<Rightarrow> (s', Some e)
            | (s', None) \<Rightarrow> each_two_lines fn skip scan_err s' (drop skip ls)))"

(* src: ovs/openflow.go func parseEach *)
definition parseEach :: "string \<Rightarrow> string \<Rightarrow> 's callback \<Rightarrow> 's \<Rightarrow> 's \<times> go_error option" where
  "parseEach inp pre fn s =
     (case scan_lines inp of
        ([], _) \<Rightarrow> (s, Some ErrUnexpectedEOF)
      | (l # ls, scan_err) \<Rightarrow>
          if \<not> has_prefix l pre then (s, Some ErrUnexpectedEOF)
          else each_two_lines fn (discarded_lines (contains l ''(OF1.'') (contains inp ''CUSTOM'')) scan_err s ls)"

(* src: ovs/openflow.go 328-330 dumpPortsPrefix *)
abbreviation dumpPortsPrefix :: string where "dumpPortsPrefix \<equiv> ''OFPST_PORT reply''"
(* src: ovs/openflow.go 332-334 dumpTablesPrefix *)
abbreviation dumpTablesPrefix :: string where "dumpTablesPrefix \<equiv> ''OFPST_TABLE reply''"
(* src: ovs/openflow.go 336-341 dumpFlowsPrefix *)
abbreviation dumpFlowsPrefix :: string where "dumpFlowsPrefix \<equiv> ''ST_FLOW reply''"

text \<open>The callbacks of the three dumps, each on the items read so far.\<close>

definition zero_port_stats :: PortStats where
  "zero_port_stats =
     \<lparr>PortID = 0,
      Received = \<lparr>RxPackets = 0, RxBytes = 0, RxDropped = 0, RxErrors = 0, RxFrame = 0, RxOver = 0, RxCRC = 0\<rparr>,
      Transmitted = \<lparr>TxPackets = 0, TxBytes = 0, TxDropped = 0, TxErrors = 0, TxCollisions = 0\<rparr>\<rparr>"

definition zero_table :: Table where
  "zero_table = \<lparr>ID = 0, Name = [], Wild = [], Max = 0, Active = 0, Lookup = 0, Matched = 0\<rparr>"

(* src: ovs/openflow.go 369-377 OpenFlowService.dumpPorts: the callback *)
definition port_callback :: "PortStats list callback" where
  "port_callback stats b =
     (case PortStats_UnmarshalText zero_port_stats b of
        (_, Some e) \<Rightarrow> (stats, Some e)
      | (s, None) \<Rightarrow> (stats @ [s], None))"

(* src: ovs/openflow.go 252-265 OpenFlowService.DumpTables: the callback *)
definition table_callback :: "Table list callback" where
  "table_callback tables b =
     (case Table_UnmarshalText zero_table b of
        (_, Some e) \<Rightarrow> (tables, Some e)
      | (t, None) \<Rightarrow>
          if Active t = 0 \<and> Lookup t = 0 \<and> Matched t = 0 then (tables, None) else (tables @ [t], None))"

(* src: ovs/openflow.go 291-304 OpenFlowService.DumpFlowsWithFlowArgs: the callback *)
definition flow_callback :: "Flow list callback" where
  "flow_callback fs b =
     (if contains b dumpFlowsPrefix then (fs, None)
      else (case Flow_UnmarshalText zero_flow b of
              (_, Some e) \<Rightarrow> (fs, Some e)
            | (f, None) \<Rightarrow> (fs @ [f], None)))"

(* src: ovs/openflow.go func OpenFlowService.dumpPorts *)
definition dumpPorts :: "'w Client \<Rightarrow> string \<Rightarrow> string \<Rightarrow> ('w, PortStats list \<times> go_error option) io" where
  "dumpPorts c bridge port w =
     (let args = ofctlFlags c @ [''dump-ports'', bridge] @ (if port \<noteq> [] then [port] else []) in
      case ofctl_exec c args w of
        (Inl e, w') \<Rightarrow> (([], Some e), w')
      | (Inr out, w') \<Rightarrow> (parseEach out dumpPortsPrefix port_callback [], w'))"

(* src: ovs/openflow.go func OpenFlowService.DumpPort *)
definition DumpPort :: "'w Client \<Rightarrow> string \<Rightarrow> string \<Rightarrow> ('w, PortStats result) io" where
  "DumpPort c bridge port w =
     (case dumpPorts c bridge port w of
        ((stats, Some e), w') \<Rightarrow> (Inl e, w')
      | ((stats, None), w') \<Rightarrow>
          (if length stats \<noteq> 1 then Inl errMultipleValues else Inr (stats ! 0), w'))"

(* src: ovs/openflow.go func OpenFlowService.DumpPorts *)
definition DumpPorts :: "'w Client \<Rightarrow> string \<Rightarrow> ('w, PortStats list \<times> go_error option) io" where
  "DumpPorts c bridge = dumpPorts c bridge []"

(* src: ovs/openflow.go func OpenFlowService.DumpTables *)
definition DumpTables :: "'w Client \<Rightarrow> string \<Rightarrow> ('w, Table list \<times> go_error option) io" where
  "DumpTables c bridge w =
     (case ofctl_exec c ([''dump-tables'', bridge] @ ofctlFlags c) w of
        (Inl e, w') \<Rightarrow> (([], Some e), w')
      | (Inr out, w') \<Rightarrow> (parseEach out dumpTablesPrefix table_callback [], w'))"

(* src: ovs/openflow.go func OpenFlowService.DumpFlowsWithFlowArgs *)
definition DumpFlowsWithFlowArgs ::
    "'w Client \<Rightarrow> string \<Rightarrow> MatchFlow option \<Rightarrow> ('w, Flow list \<times> go_error option) io" where
  "DumpFlowsWithFlowArgs c bridge f w =
     (let args = [''dump-flows'', bridge] @ ofctlFlags c in
      case (case f of None \<Rightarrow> Inr args
            | Some m \<Rightarrow>
                (case MatchFlow_MarshalText m of Inl e \<Rightarrow> Inl e | Inr fb \<Rightarrow> Inr (args @ [fb]))) of
        Inl e \<Rightarrow> (([], Some e), w)
      | Inr args' \<Rightarrow>
          (case ofctl_exec c args' w of
             (Inl e, w') \<Rightarrow> (([], Some e), w')
           | (Inr out, w') \<Rightarrow> (parseEachLine out dumpFlowsPrefix flow_callback [], w')))"

(* src: ovs/openflow.go func OpenFlowService.DumpFlows *)
definition DumpFlows :: "'w Client \<Rightarrow> string \<Rightarrow> ('w, Flow list \<times> go_error option) io" where
  "DumpFlows c bridge = DumpFlowsWithFlowArgs c bridge None"

(* src: ovs/openflow.go func OpenFlowService.dumpAggregate *)
definition dumpAggregate :: "'w Client \<Rightarrow> string \<Rightarrow> MatchFlow \<Rightarrow> ('w, FlowStats result) io" where
  "dumpAggregate c bridge f w =
     (case MatchFlow_MarshalText f of
        Inl e \<Rightarrow> (Inl e, w)
      | Inr flowText \<Rightarrow>
          (case ofctl_exec c (ofctlFlags c @ [''dump-aggregate'', bridge, flowText]) w of
             (Inl e, w') \<Rightarrow> (Inl e, w')
           | (Inr out, w') \<Rightarrow>
               (case FlowStats_UnmarshalText \<lparr>PacketCount = 0, ByteCount = 0\<rparr> out of
                  (_, Some e) \<Rightarrow> (Inl e, w')
                | (stats, None) \<Rightarrow> (Inr stats, w'))))"

(* src: ovs/openflow.go func OpenFlowService.DumpAggregate *)
definition DumpAggregate :: "'w Client \<Rightarrow> string \<Rightarrow> MatchFlow \<Rightarrow> ('w, FlowStats result) io" where
  "DumpAggregate c bridge f = dumpAggregate c bridge f"

end
