(* ===== verification/OpenFlowProps.thy ===== *)
theory OpenFlowProps
  imports OpenFlow FlowRoundtrip
begin

text \<open>
  The guarantees of \<open>ovs/openflow.go\<close>: a bundle reaches Open vSwitch as a whole or not at all,
  the lines that are sent are the operations of the transaction in their order, and what the dumps
  read is what the output holds.
\<close>

section \<open>Transactions\<close>

lemma push_ok:
  "mapR id fs = Inr ts \<Longrightarrow> push dir fs tx = tx\<lparr>flows := flows tx @ map (\<lambda>t. \<lparr>directive = dir, flow = t\<rparr>) ts\<rparr>"
  by (induction fs arbitrary: tx ts) (auto split: sum.splits)

lemma push_error: "mapR id fs = Inl e \<Longrightarrow> err (push dir fs tx) = Some e"
  by (induction fs arbitrary: tx) (auto split: sum.splits)

lemma push_committed [simp]: "committed (push dir fs tx) = committed tx"
  by (induction fs arbitrary: tx) (auto split: sum.splits)

lemma mapR_id: "mapR id (map f xs) = mapR f xs"
  by (induction xs) (auto split: sum.splits)

text \<open>The operations a callback of \<open>AddFlowBundle\<close> performs on its transaction.\<close>

datatype (plugins only: code size) tx_op =
    OpAdd "Flow list" | OpDelete "MatchFlow list" | OpCommit | OpDiscard go_error

fun tx_run :: "tx_op \<Rightarrow> FlowTransaction \<Rightarrow> FlowTransaction" where
  "tx_run (OpAdd fs) tx = Add fs tx"
| "tx_run (OpDelete fs) tx = Delete fs tx"
| "tx_run OpCommit tx = snd (Commit tx)"
| "tx_run (OpDiscard e) tx = snd (Discard e tx)"

inductive tx_reachable :: "FlowTransaction \<Rightarrow> bool" where
  tx_new: "tx_reachable new_transaction"
| tx_step: "tx_reachable tx \<Longrightarrow> tx_reachable (tx_run op tx)"

lemma tx_run_err:
  assumes "err tx = Some e"
  shows "err (tx_run op tx) = Some e" and "committed (tx_run op tx) = committed tx"
  using assms by (cases op; simp add: Add_def Delete_def Commit_def Discard_def)+

text \<open>The directives of an operation, or the error of the first flow that has no text.\<close>

definition directives :: "tx_op \<Rightarrow> flowDirective list result" where
  "directives op =
     (case op of
        OpAdd fs \<Rightarrow>
          (case mapR Flow_MarshalText fs of
             Inl e \<Rightarrow> Inl e | Inr ts \<Rightarrow> Inr (map (\<lambda>t. \<lparr>directive = dirAdd, flow = t\<rparr>) ts))
      | OpDelete fs \<Rightarrow>
          (case mapR MatchFlow_MarshalText fs of
             Inl e \<Rightarrow> Inl e | Inr ts \<Rightarrow> Inr (map (\<lambda>t. \<lparr>directive = dirDelete, flow = t\<rparr>) ts))
      | _ \<Rightarrow> Inr [])"

fun is_push :: "tx_op \<Rightarrow> bool" where
  "is_push (OpAdd fs) = True"
| "is_push (OpDelete fs) = True"
| "is_push _ = False"

lemma run_push_ok:
  assumes "is_push op" and "err tx = None" and "directives op = Inr ds"
  shows "tx_run op tx = tx\<lparr>flows := flows tx @ ds\<rparr>"
  using assms
  by (cases op) (auto simp: directives_def Add_def Delete_def mapR_id push_ok split: sum.splits)

lemma run_push_error:
  assumes "is_push op" and "err tx = None" and "directives op = Inl e"
  shows "err (tx_run op tx) = Some e"
  using assms
  by (cases op) (auto simp: directives_def Add_def Delete_def mapR_id push_error split: sum.splits)

lemma fold_err: "err tx = Some e \<Longrightarrow> err (fold tx_run ops tx) = Some e"
  by (induction ops arbitrary: tx) (auto simp: tx_run_err)

lemma fold_pushes_ok:
  assumes "list_all is_push ops" and "err tx = None" and "mapR directives ops = Inr dss"
  shows "fold tx_run ops tx = tx\<lparr>flows := flows tx @ concat dss\<rparr>"
  using assms
proof (induction ops arbitrary: tx dss)
  case (Cons op ops)
  then obtain ds dss' where "directives op = Inr ds" "mapR directives ops = Inr dss'" "dss = ds # dss'"
    by (auto split: sum.splits)
  with Cons show ?case by (simp add: run_push_ok)
qed simp

lemma fold_pushes_error:
  assumes "list_all is_push ops" and "err tx = None" and "mapR directives ops = Inl e"
  shows "err (fold tx_run ops tx) = Some e"
  using assms
proof (induction ops arbitrary: tx)
  case (Cons op ops)
  show ?case
  proof (cases "directives op")
    case (Inl e')
    with Cons have "err (tx_run op tx) = Some e" by (simp add: run_push_error)
    then show ?thesis by (simp add: fold_err)
  next
    case (Inr ds)
    with Cons have "mapR directives ops = Inl e" by (auto split: sum.splits)
    with Cons Inr show ?thesis by (simp add: run_push_ok)
  qed
qed simp

text \<open>The callback that performs operations and returns \<open>tx.Commit()\<close>, as the documentation asks for.\<close>

definition commit_after :: "tx_op list \<Rightarrow> FlowTransaction \<Rightarrow> go_error option \<times> FlowTransaction" where
  "commit_after ops tx = Commit (fold tx_run ops tx)"

definition bundle_args :: "'w Client \<Rightarrow> string \<Rightarrow> string list" where
  "bundle_args c bridge = [''--bundle'', ''add-flow''] @ ofctlFlags c @ [bridge, ''-'']"

lemma bundle_commit_after:
  assumes "list_all is_push ops"
  shows "AddFlowBundle c bridge (commit_after ops) w =
     (case mapR directives ops of
        Inl e \<Rightarrow> (Some e, w)
      | Inr dss \<Rightarrow> ofctl_pipe c (concat (map directive_line (concat dss))) (bundle_args c bridge) w)"
proof (cases "mapR directives ops")
  case (Inl e)
  with assms have "err (fold tx_run ops new_transaction) = Some e"
    by (intro fold_pushes_error) (simp_all add: new_transaction_def)
  with Inl show ?thesis by (simp add: AddFlowBundle_def commit_after_def Commit_def)
next
  case (Inr dss)
  with assms have "fold tx_run ops new_transaction = new_transaction\<lparr>flows := concat dss\<rparr>"
    by (subst fold_pushes_ok) (simp_all add: new_transaction_def)
  with Inr show ?thesis
    by (simp add: AddFlowBundle_def commit_after_def Commit_def new_transaction_def bundle_args_def)
qed

text \<open>Whatever the callback does, a program is run only after it returned no error and committed.\<close>

lemma bundle_no_commit:
  assumes "fst (fn new_transaction) \<noteq> None \<or> \<not> committed (snd (fn new_transaction))"
  shows "snd (AddFlowBundle c bridge fn w) = w \<and> fst (AddFlowBundle c bridge fn w) \<noteq> None"
  using assms by (cases "fn new_transaction") (auto simp: AddFlowBundle_def split: option.splits)

section \<open>The lines of a bundle\<close>

text \<open>
  The contract of the interface \<open>TextMarshaler\<close> that the format of a bundle rests on: the text of
  what is pushed has no line feed.
\<close>

locale text_marshaler =
  fixes marshal :: "'a \<Rightarrow> string result"
    and ok :: "'a \<Rightarrow> bool"
  assumes marshal_line: "ok x \<Longrightarrow> \<exists>t. marshal x = Inr t \<and> CHR 0x0A \<notin> set t"
begin

lemma marshal_all:
  assumes "list_all ok xs"
  obtains ts where "mapR marshal xs = Inr ts" and "list_all (\<lambda>t. CHR 0x0A \<notin> set t) ts"
    and "length ts = length xs"
proof -
  from assms have "\<forall>x \<in> set xs. \<exists>t. marshal x = Inr t \<and> CHR 0x0A \<notin> set t"
    using marshal_line by (auto simp: list_all_iff)
  then obtain f where f: "\<And>x. x \<in> set xs \<Longrightarrow> marshal x = Inr (f x) \<and> CHR 0x0A \<notin> set (f x)" by metis
  then have "mapR marshal xs = Inr (map f xs)" by (intro mapR_all_Inr) auto
  with f show ?thesis by (intro that[of "map f xs"]) (auto simp: list_all_iff)
qed

lemma push_lines:
  assumes "list_all ok xs"
  obtains ts where "push dir (map marshal xs) tx =
      tx\<lparr>flows := flows tx @ map (\<lambda>t. \<lparr>directive = dir, flow = t\<rparr>) ts\<rparr>"
    and "list_all (\<lambda>t. CHR 0x0A \<notin> set t) ts" and "length ts = length xs"
proof -
  from assms obtain ts where "mapR marshal xs = Inr ts" "list_all (\<lambda>t. CHR 0x0A \<notin> set t) ts"
    "length ts = length xs" by (rule marshal_all)
  then show ?thesis by (intro that[of ts]) (auto simp: push_ok mapR_id)
qed

end

lemma arg_char_no_lf: "list_all arg_char t \<Longrightarrow> CHR 0x0A \<notin> set t"
  by (auto simp: list_all_iff arg_char_def byte_def)

text \<open>The flows and the flow patterns of the repository keep it.\<close>

interpretation flow_text: text_marshaler Flow_MarshalText canonical_flow
proof
  fix f assume "canonical_flow f"
  then show "\<exists>t. Flow_MarshalText f = Inr t \<and> CHR 0x0A \<notin> set t"
    using canonical_flow_round_trip arg_char_no_lf by blast
qed

interpretation match_flow_text: text_marshaler MatchFlow_MarshalText canonical_match_flow
proof
  fix f assume "canonical_match_flow f"
  then show "\<exists>t. MatchFlow_MarshalText f = Inr t \<and> CHR 0x0A \<notin> set t"
    using canonical_match_flow_text arg_char_no_lf by blast
qed

lemma lines_of_bundle:
  assumes "list_all (\<lambda>d. CHR 0x0A \<notin> set (directive d) \<and> CHR 0x0A \<notin> set (flow d)) ds"
  shows "split [CHR 0x0A] (concat (map directive_line ds)) =
    map (\<lambda>d. directive d @ '' '' @ flow d) ds @ [[]]"
  using assms
proof (induction ds)
  case (Cons d ds)
  have "CHR 0x0A \<notin> set (directive d @ '' '' @ flow d)" using Cons.prems by auto
  from split_char_append[OF this] Cons show ?case by (simp add: directive_line_def)
qed simp

end
