(* ===== verification/OpenFlowTheorems.thy ===== *)
theory OpenFlowTheorems
  imports OpenFlowProps FlowProps
begin

section \<open>Properties of the transactions\<close>

text \<open>
  C2.  A bundle is sent as a whole or not at all: with a callback that adds and deletes flows and then returns
  \<open>tx.Commit()\<close>, either a flow has no text, then \<open>AddFlowBundle\<close> returns its error and runs no
  program, or one run of \<open>ovs-ofctl --bundle\<close> gets the lines of all the operations, in their order.
\<close>

theorem bundle_all_or_nothing:
  assumes "list_all is_push ops"
  shows "AddFlowBundle c bridge (commit_after ops) w =
     (case mapR directives ops of
        Inl e \<Rightarrow> (Some e, w)
      | Inr dss \<Rightarrow> ofctl_pipe c (concat (map directive_line (concat dss)))
          ([''--bundle'', ''add-flow''] @ ofctlFlags c @ [bridge, ''-'']) w)"
  unfolding bundle_commit_after[OF assms] bundle_args_def ..

definition log_client :: "command list Client" where
  "log_client = New (log_exec (\<lambda>cmd args. ([], None))) (log_pipe (\<lambda>stdin cmd args. ([], None))) []"

lemma example_flow_text: "Flow_MarshalText (zero_flow\<lparr>Actions := [Drop]\<rparr>) = Inr ''priority=0,table=0,idle_timeout=0,actions=drop''"
  by (simp add: Flow_MarshalText_def zero_flow_def marshalActions_def marshalMatches_def action_constructors
      action_MarshalText_defs priorityString_def print_eval)

lemma bundle_all_or_nothing_witness:
  "AddFlowBundle log_client ''br0'' (commit_after [OpAdd [zero_flow\<lparr>Actions := [Drop]\<rparr>]]) [] =
     (None, [(Some (''add priority=0,table=0,idle_timeout=0,actions=drop'' @ [CHR 0x0A]), ''ovs-ofctl'',
              [''--bundle'', ''add-flow'', ''br0'', ''-''])])"
  using bundle_all_or_nothing[of "[OpAdd [zero_flow\<lparr>Actions := [Drop]\<rparr>]]" log_client "''br0''" "[]"]
  by (simp add: directives_def example_flow_text directive_line_def ofctl_pipe_def Client_pipe_def log_client_def
      New_def command_line_def log_pipe_def)

text \<open>
  C16.  Whatever the callback does: if it returns an error or does not commit, no program is run and \<open>AddFlowBundle\<close> returns an
  error.
\<close>

theorem bundle_needs_commit:
  assumes "fst (fn new_transaction) \<noteq> None \<or> \<not> committed (snd (fn new_transaction))"
  shows "snd (AddFlowBundle c bridge fn w) = w \<and> fst (AddFlowBundle c bridge fn w) \<noteq> None"
  using assms by (rule bundle_no_commit)

lemma bundle_needs_commit_witness:
  "snd (AddFlowBundle log_client ''br0'' (\<lambda>tx. (None, Add [zero_flow] tx)) []) = []"
proof -
  have "\<not> committed (Add [zero_flow] new_transaction)"
    by (simp add: Add_def new_transaction_def del: push.simps)
  then show ?thesis
    using bundle_needs_commit[of "\<lambda>tx. (None, Add [zero_flow] tx)" log_client "''br0''" "[]"] by simp
qed

section \<open>The states of a transaction\<close>

lemma push_flows:
  "d \<in> set (flows (push dir fs tx)) \<Longrightarrow> d \<in> set (flows tx) \<or> directive d = dir \<and> Inr (flow d) \<in> set fs"
  by (induction fs arbitrary: tx) (fastforce split: sum.splits)+

definition tx_inv :: "FlowTransaction \<Rightarrow> bool" where
  "tx_inv tx \<longleftrightarrow>
     (\<forall>d \<in> set (flows tx).
        directive d = dirAdd \<and> (\<exists>f. Flow_MarshalText f = Inr (flow d)) \<or>
        directive d = dirDelete \<and> (\<exists>f. MatchFlow_MarshalText f = Inr (flow d)))"

lemma push_inv:
  "tx_inv tx \<Longrightarrow> tx_inv (push dirAdd (map Flow_MarshalText fs) tx)"
  "tx_inv tx \<Longrightarrow> tx_inv (push dirDelete (map MatchFlow_MarshalText ps) tx)"
proof -
  have m: "\<exists>x. f x = Inr t" if "Inr t \<in> set (map f xs)" for f :: "'a \<Rightarrow> string result" and xs t
    using that by (auto intro: sym)
  show "tx_inv tx \<Longrightarrow> tx_inv (push dirAdd (map Flow_MarshalText fs) tx)"
    "tx_inv tx \<Longrightarrow> tx_inv (push dirDelete (map MatchFlow_MarshalText ps) tx)"
    unfolding tx_inv_def by (blast dest: push_flows m)+
qed

lemma tx_inv_update [simp]: "tx_inv (tx\<lparr>committed := b\<rparr>) = tx_inv tx" "tx_inv (tx\<lparr>flows := []\<rparr>)"
  by (simp_all add: tx_inv_def)

lemma tx_run_inv: "tx_inv tx \<Longrightarrow> tx_inv (tx_run op tx)"
  by (cases op) (simp_all add: Add_def Delete_def Commit_def Discard_def push_inv split: option.splits)

text \<open>
  C13.  In every state that a callback can bring a transaction into, by adding, deleting, committing and discarding in
  any order, the transaction holds only directives that add a flow or delete by a pattern, each with the
  text the flow or the pattern was marshalled to.
\<close>

theorem transaction_invariant:
  assumes "tx_reachable tx"
  shows "\<forall>d \<in> set (flows tx).
    directive d = dirAdd \<and> (\<exists>f. Flow_MarshalText f = Inr (flow d)) \<or>
    directive d = dirDelete \<and> (\<exists>f. MatchFlow_MarshalText f = Inr (flow d))"
  using assms
proof (fold tx_inv_def, induction rule: tx_reachable.induct)
  case tx_new
  show ?case by (simp add: tx_inv_def new_transaction_def)
next
  case (tx_step tx op)
  then show ?case by (intro tx_run_inv)
qed

lemma transaction_invariant_witness:
  "let d = hd (flows (Add [zero_flow\<lparr>Actions := [Drop]\<rparr>] new_transaction)) in
    directive d = dirAdd \<and> (\<exists>f. Flow_MarshalText f = Inr (flow d)) \<or>
    directive d = dirDelete \<and> (\<exists>f. MatchFlow_MarshalText f = Inr (flow d))"
proof -
  have "tx_reachable (Add [zero_flow\<lparr>Actions := [Drop]\<rparr>] new_transaction)"
    using tx_step[OF tx_new, of "OpAdd [zero_flow\<lparr>Actions := [Drop]\<rparr>]"] by simp
  from transaction_invariant[OF this]
  show ?thesis unfolding Let_def
    by (rule bspec) (simp add: Add_def new_transaction_def example_flow_text)
qed

text \<open>
  An error stays: after the first flow without a text no operation changes whether the transaction is committed,
  \<open>Commit\<close> returns that error, and the transaction never holds more flows than it did.
\<close>

theorem transaction_error_sticks:
  assumes "err tx = Some e"
  shows "err (tx_run op tx) = Some e \<and> committed (tx_run op tx) = committed tx \<and>
    fst (Commit (tx_run op tx)) = Some e \<and> set (flows (tx_run op tx)) \<subseteq> set (flows tx)"
  using tx_run_err[OF assms, of op] assms
  by (cases op) (auto simp: Commit_def Add_def Delete_def Discard_def)

lemma transaction_error_sticks_witness:
  "err (tx_run OpCommit (Add [zero_flow] new_transaction)) = Some (FlowError [] errNoActions)"
proof -
  have "err (Add [zero_flow] new_transaction) = Some (FlowError [] errNoActions)"
    by (simp add: Add_def new_transaction_def Flow_MarshalText_def zero_flow_def)
  from transaction_error_sticks[OF this, of OpCommit] show ?thesis by blast
qed

lemma push_prefix:
  "push dir (map Inr ts @ Inl e # fs) tx =
     tx\<lparr>flows := flows tx @ map (\<lambda>t. \<lparr>directive = dir, flow = t\<rparr>) ts, err := Some e\<rparr>"
  by (induction ts arbitrary: tx) auto

text \<open>
  C37.  \<open>Add\<close> is not the no-op its documentation promises when a flow is invalid: the flows before the invalid one stay in the
  transaction.  After a \<open>Commit\<close> the error is never looked at again, so that a callback that commits first
  sends just that part of its flows.
\<close>

theorem invalid_flow_after_commit:
  assumes "map Flow_MarshalText fs = map Inr ts @ Inl e # rest"
  shows "AddFlowBundle c bridge (\<lambda>tx. (fst (Commit tx), Add fs (snd (Commit tx)))) w =
    ofctl_pipe c (concat (map (\<lambda>t. ''add '' @ t @ [CHR 0x0A]) ts))
      ([''--bundle'', ''add-flow''] @ ofctlFlags c @ [bridge, ''-'']) w"
proof -
  have "map directive_line (map (\<lambda>t. \<lparr>directive = dirAdd, flow = t\<rparr>) ts) = map (\<lambda>t. ''add '' @ t @ [CHR 0x0A]) ts"
    by (simp add: directive_line_def)
  moreover have "AddFlowBundle c bridge (\<lambda>tx. (fst (Commit tx), Add fs (snd (Commit tx)))) w =
      ofctl_pipe c (concat (map directive_line (map (\<lambda>t. \<lparr>directive = dirAdd, flow = t\<rparr>) ts)))
        ([''--bundle'', ''add-flow''] @ ofctlFlags c @ [bridge, ''-'']) w"
    unfolding AddFlowBundle_def Commit_def Add_def new_transaction_def by (simp add: assms push_prefix del: map_map)
  ultimately show ?thesis by (simp only:)
qed

lemma invalid_flow_after_commit_witness:
  "fst (AddFlowBundle log_client ''br0'' (\<lambda>tx. (fst (Commit tx), Add [zero_flow] (snd (Commit tx)))) []) = None"
proof -
  have "map Flow_MarshalText [zero_flow] = map Inr [] @ Inl (FlowError [] errNoActions) # []"
    by (simp add: Flow_MarshalText_def zero_flow_def)
  from invalid_flow_after_commit[OF this, of log_client "''br0''" "[]"] show ?thesis
    by (simp add: ofctl_pipe_def Client_pipe_def log_client_def New_def command_line_def log_pipe_def)
qed

section \<open>The text a bundle sends\<close>

text \<open>The operations on flows and patterns in canonical form.\<close>

fun canonical_op :: "tx_op \<Rightarrow> bool" where
  "canonical_op (OpAdd fs) = list_all canonical_flow fs"
| "canonical_op (OpDelete ps) = list_all canonical_match_flow ps"
| "canonical_op _ = False"

lemma canonical_op_push: "canonical_op op \<Longrightarrow> is_push op"
  by (cases op) simp_all

lemma canonical_directives:
  assumes "canonical_op op"
  obtains ds where "directives op = Inr ds"
    and "list_all (\<lambda>d. CHR 0x0A \<notin> set (directive d) \<and> CHR 0x0A \<notin> set (flow d)) ds"
proof (cases op)
  case (OpAdd fs)
  with assms obtain ts where "mapR Flow_MarshalText fs = Inr ts" "list_all (\<lambda>t. CHR 0x0A \<notin> set t) ts"
    using flow_text.marshal_all by auto
  with OpAdd show ?thesis
    by (intro that[of "map (\<lambda>t. \<lparr>directive = dirAdd, flow = t\<rparr>) ts"]) (auto simp: directives_def list_all_iff)
next
  case (OpDelete ps)
  with assms obtain ts where "mapR MatchFlow_MarshalText ps = Inr ts" "list_all (\<lambda>t. CHR 0x0A \<notin> set t) ts"
    using match_flow_text.marshal_all by auto
  with OpDelete show ?thesis
    by (intro that[of "map (\<lambda>t. \<lparr>directive = dirDelete, flow = t\<rparr>) ts"]) (auto simp: directives_def list_all_iff)
qed (use assms in auto)

lemma canonical_all_directives:
  assumes "list_all canonical_op ops"
  shows "\<exists>dss. mapR directives ops = Inr dss \<and>
    list_all (\<lambda>d. CHR 0x0A \<notin> set (directive d) \<and> CHR 0x0A \<notin> set (flow d)) (concat dss)"
  using assms
proof (induction ops)
  case (Cons op ops)
  then obtain dss where dss: "mapR directives ops = Inr dss"
    "list_all (\<lambda>d. CHR 0x0A \<notin> set (directive d) \<and> CHR 0x0A \<notin> set (flow d)) (concat dss)" by auto
  from Cons.prems obtain ds where "directives op = Inr ds"
    "list_all (\<lambda>d. CHR 0x0A \<notin> set (directive d) \<and> CHR 0x0A \<notin> set (flow d)) ds"
    by (auto elim: canonical_directives)
  with dss show ?case by (intro exI[of _ "ds # dss"]) simp
qed simp

text \<open>
  C17.  With flows and patterns in canonical form a committed bundle never fails on its side, and what the program reads from its
  standard input are, line by line, the directives in the order of the operations: no flow can break the format.
\<close>

theorem bundle_lines:
  assumes "list_all canonical_op ops"
  shows "\<exists>dss stdin. mapR directives ops = Inr dss \<and>
    AddFlowBundle c bridge (commit_after ops) w =
      ofctl_pipe c stdin ([''--bundle'', ''add-flow''] @ ofctlFlags c @ [bridge, ''-'']) w \<and>
    split [CHR 0x0A] stdin = map (\<lambda>d. directive d @ '' '' @ flow d) (concat dss) @ [[]]"
proof -
  from canonical_all_directives[OF assms] obtain dss where dss: "mapR directives ops = Inr dss"
    "list_all (\<lambda>d. CHR 0x0A \<notin> set (directive d) \<and> CHR 0x0A \<notin> set (flow d)) (concat dss)" by blast
  from assms have "list_all is_push ops" by (auto simp: list_all_iff canonical_op_push)
  with dss lines_of_bundle[OF dss(2)] show ?thesis
    by (intro exI[of _ dss] exI[of _ "concat (map directive_line (concat dss))"])
      (simp add: bundle_commit_after bundle_args_def)
qed

lemma bundle_lines_witness:
  "\<exists>dss stdin. mapR directives [OpAdd [example_flow], OpAdd []] = Inr dss \<and>
    AddFlowBundle log_client ''br0'' (commit_after [OpAdd [example_flow], OpAdd []]) [] =
      ofctl_pipe log_client stdin ([''--bundle'', ''add-flow''] @ ofctlFlags log_client @ [''br0'', ''-'']) [] \<and>
    split [CHR 0x0A] stdin = map (\<lambda>d. directive d @ '' '' @ flow d) (concat dss) @ [[]]"
  by (rule bundle_lines) (simp add: example_flow_canonical)

section \<open>Dumping flows\<close>

text \<open>
  The rows of the output: a banner in front of each part of the reply, in OpenFlow 1.0 and in the newer versions, and the
  lines of the flows.
\<close>

datatype dump_row = Banner string | Entry dump_entry

fun row_text :: "dump_row \<Rightarrow> string" where
  "row_text (Banner s) = s"
| "row_text (Entry e) = dump_line e"

fun row_ok :: "dump_row \<Rightarrow> bool" where
  "row_ok (Banner s) \<longleftrightarrow>
     sublist ''ST_FLOW reply'' s \<and> list_all (\<lambda>c. arg_char c \<or> c = CHR '' '') s \<and> arg_char (hd s) \<and> arg_char (last s) \<and>
     length s < 65536"
| "row_ok (Entry e) \<longleftrightarrow>
     entry_ok e \<and> length (dump_line e) < 65536 \<and> \<not> sublist ''ST_FLOW reply'' (dump_line e)"

fun row_entries :: "dump_row \<Rightarrow> dump_entry list" where
  "row_entries (Banner s) = []"
| "row_entries (Entry e) = [e]"

definition dump_output :: "string \<Rightarrow> dump_row list \<Rightarrow> string" where
  "dump_output h rows = join [CHR 0x0A] (map row_text (Banner h # rows)) @ [CHR 0x0A]"

lemma row_read:
  assumes "row_ok r"
  shows "list_all (\<lambda>c. arg_char c \<or> c = CHR '' '') (row_text r)" and "row_text r \<noteq> []"
    and "arg_char (last (row_text r))" and "short_line (row_text r)"
    and "flow_callback fs (row_text r) = (fs @ map read_entry (row_entries r), None)"
proof -
  show "list_all (\<lambda>c. arg_char c \<or> c = CHR '' '') (row_text r)" "row_text r \<noteq> []" "arg_char (last (row_text r))"
    "short_line (row_text r)"
    using assms dump_line_read(2,3) by (cases r; auto simp: dump_line_def short_line_def)+
  show "flow_callback fs (row_text r) = (fs @ map read_entry (row_entries r), None)"
    using assms dump_line_read(1) by (cases r) (auto simp: flow_callback_def contains_iff)
qed

lemma each_line_rows:
  "list_all row_ok rows \<Longrightarrow>
     each_line flow_callback None fs (map row_text rows) = (fs @ map read_entry (concat (map row_entries rows)), None)"
  by (induction rows arbitrary: fs) (simp_all add: row_read(5))

lemma arg_space_no: "arg_char c \<or> c = CHR '' '' \<Longrightarrow> c \<noteq> CHR 0x0A \<and> c \<noteq> CHR 0x0D"
  by (auto simp: arg_char_def byte_def)

lemma line_no: "list_all (\<lambda>c. arg_char c \<or> c = CHR '' '') l \<Longrightarrow> CHR 0x0A \<notin> set l \<and> CHR 0x0D \<notin> set l"
  unfolding list_all_iff using arg_space_no by blast

lemma drop_cr_line: "CHR 0x0D \<notin> set l \<Longrightarrow> drop_cr l = l"
  by (auto simp: drop_cr_def trim_suffix_def suffix_def)

lemma scan_lines_join:
  assumes "list_all (\<lambda>l. l \<noteq> [] \<and> CHR 0x0A \<notin> set l \<and> CHR 0x0D \<notin> set l \<and> short_line l) ls" and "ls \<noteq> []"
  shows "scan_lines (join [CHR 0x0A] ls) = (ls, None)"
proof -
  have "split [CHR 0x0A] (join [CHR 0x0A] ls) = ls"
    by (rule split_join) (use assms in \<open>auto simp: list_all_iff\<close>)
  moreover have "last ls \<noteq> []" using assms by (auto simp: list_all_iff)
  ultimately have r: "raw_lines (join [CHR 0x0A] ls) = ls" by (simp add: raw_lines_def Let_def)
  have short: "list_all short_line ls" using assms(1) by (auto simp: list_all_iff)
  have tw: "takeWhile short_line ls = ls" using short by (simp add: list_all_iff)
  have "map drop_cr ls = ls" using assms(1) drop_cr_line by (auto simp: list_all_iff intro: map_idI)
  then show ?thesis using short by (simp add: scan_lines_def r Let_def tw)
qed

lemma trim_dump_output:
  assumes "row_ok (Banner h)" and "list_all row_ok rows"
  shows "trim_space (dump_output h rows) = join [CHR 0x0A] (map row_text (Banner h # rows))"
  unfolding dump_output_def
proof (rule trim_space_lf)
  let ?s = "join [CHR 0x0A] (map row_text (Banner h # rows))"
  have "h \<noteq> []" using row_read(2)[OF assms(1)] by simp
  then show "?s \<noteq> []" "byte (hd ?s) < 128 \<and> \<not> ascii_space (hd ?s)"
    using assms(1) arg_char_ascii by (simp_all add: join_Cons)
  obtain rs r where rs: "Banner h # rows = rs @ [r]" by (metis rev_exhaust list.distinct(1))
  then have r: "row_ok r" using assms by (metis list.pred_inject(2) list_all_append)
  have "last ?s = last (row_text r)"
    using row_read(2)[OF r] by (cases "rs = []") (simp_all add: rs join_append)
  then show "byte (last ?s) < 128 \<and> \<not> ascii_space (last ?s)" using row_read(3)[OF r] arg_char_ascii by simp
qed

lemma parse_dump_output:
  assumes "row_ok (Banner h)" and "list_all row_ok rows"
  shows "parseEachLine (join [CHR 0x0A] (map row_text (Banner h # rows))) dumpFlowsPrefix flow_callback [] =
    (map read_entry (concat (map row_entries rows)), None)"
proof -
  have "list_all (\<lambda>l. l \<noteq> [] \<and> CHR 0x0A \<notin> set l \<and> CHR 0x0D \<notin> set l \<and> short_line l) (map row_text (Banner h # rows))"
    unfolding list_all_iff
  proof
    fix l assume "l \<in> set (map row_text (Banner h # rows))"
    then obtain r where r: "l = row_text r" "row_ok r" using assms by (metis (no_types) image_iff list.set_map list_all_iff set_ConsD)
    with row_read(1,2,4)[OF r(2)] line_no[of l] show
      "l \<noteq> [] \<and> CHR 0x0A \<notin> set l \<and> CHR 0x0D \<notin> set l \<and> short_line l" by simp
  qed
  from scan_lines_join[OF this]
  have "scan_lines (join [CHR 0x0A] (map row_text (Banner h # rows))) = (h # map row_text rows, None)" by simp
  moreover have "contains h dumpFlowsPrefix" using assms(1) by (simp add: contains_iff)
  ultimately show ?thesis using each_line_rows[OF assms(2), of "[]"] by (simp add: parseEachLine_def)
qed



end
