(* ===== verification/DumpProps.thy ===== *)
theory DumpProps
  imports StatsProps OpenFlowTheorems
begin

text \<open>
  The dumps of \<open>ovs/openflow.go\<close> whose entries have two lines, of \<open>ovs-ofctl dump-ports\<close> and \<open>dump-tables\<close>: what is
  printed is read, entry by entry, whatever lines of further statistics stand behind the two lines of an entry.
\<close>

section \<open>Lines\<close>

text \<open>A line that is printed: it is short enough for the scanner and does not end in white space.\<close>

definition printed_line :: "string \<Rightarrow> bool" where
  "printed_line l \<longleftrightarrow> l \<noteq> [] \<and> CHR 0x0A \<notin> set l \<and> CHR 0x0D \<notin> set l \<and> short_line l \<and>
     byte (last l) < 128 \<and> \<not> ascii_space (last l)"

text \<open>Words on two lines, the first \<open>k\<close> of them on the first one.\<close>

definition two_lines :: "nat \<Rightarrow> nat list \<Rightarrow> string list \<Rightarrow> string \<times> string" where
  "two_lines k ns ws = (spaced (take k ns) (take k ws), spaced (drop k ns) (drop k ws))"

lemma two_lines_joined: "two_lines k ns ws = (l, l') \<Longrightarrow> l @ l' = spaced ns ws"
proof -
  have "spaced (take k ns) (take k ws) @ spaced (drop k ns) (drop k ws) = spaced ns ws"
    unfolding spaced_def take_zip[symmetric] drop_zip[symmetric]
    by (simp flip: concat_append map_append)
  then show "two_lines k ns ws = (l, l') \<Longrightarrow> l @ l' = spaced ns ws" by (auto simp: two_lines_def)
qed

lemma spaced_snoc:
  "length ns = length ws \<Longrightarrow> spaced (ns @ [n]) (ws @ [w]) = spaced ns ws @ replicate (Suc n) (CHR '' '') @ w"
  by (simp add: spaced_def)

lemma set_spaced: "set (spaced ns ws) \<subseteq> insert (CHR '' '') (\<Union>(set ` set ws))"
  by (auto simp: spaced_def dest!: set_zip_rightD)

lemma spaced_printed:
  assumes "list_all word ws" and "length ns = length ws" and "ws \<noteq> []" and "short_line (spaced ns ws)"
  shows "printed_line (spaced ns ws)"
proof -
  have "c \<noteq> CHR 0x0A \<and> c \<noteq> CHR 0x0D" if "c \<in> set (spaced ns ws)" for c
    using that set_spaced[of ns ws] assms(1)
    by (fastforce simp: list_all_iff word_def ascii_space_def byte_def)
  moreover obtain us u ms m where "ws = us @ [u]" "ns = ms @ [m]" "length ms = length us"
    using assms(2,3) by (cases ws rule: rev_cases; cases ns rule: rev_cases) auto
  moreover from this assms(1) have "word u" by simp
  ultimately show ?thesis
    using assms(4) by (auto simp: printed_line_def spaced_snoc word_def)
qed

text \<open>An output of lines is trimmed by the client and taken apart by the scanner.\<close>

definition lines_output :: "string list \<Rightarrow> string" where
  "lines_output ls = join [CHR 0x0A] ls @ [CHR 0x0A]"

lemma trim_lines_output:
  assumes "list_all printed_line ls" and "ls \<noteq> []" and "byte (hd (hd ls)) < 128 \<and> \<not> ascii_space (hd (hd ls))"
  shows "trim_space (lines_output ls) = join [CHR 0x0A] ls"
  unfolding lines_output_def
proof (rule trim_space_lf)
  obtain l ks where ls: "ls = l # ks" using assms(2) by (cases ls) auto
  have l: "l \<noteq> []" using assms(1) by (simp add: ls printed_line_def)
  then show "join [CHR 0x0A] ls \<noteq> []" "byte (hd (join [CHR 0x0A] ls)) < 128 \<and> \<not> ascii_space (hd (join [CHR 0x0A] ls))"
    using assms(3) by (simp_all add: ls join_Cons)
  obtain ks m where m: "ls = ks @ [m]" using assms(2) by (cases ls rule: rev_cases) auto
  then have "m \<noteq> []" "byte (last m) < 128 \<and> \<not> ascii_space (last m)"
    using assms(1) by (simp_all add: printed_line_def)
  then show "byte (last (join [CHR 0x0A] ls)) < 128 \<and> \<not> ascii_space (last (join [CHR 0x0A] ls))"
    using join_append[of ks "[m]" "[CHR 0x0A]"] by (cases "ks = []") (simp_all add: m)
qed

lemma scan_printed_lines:
  assumes "list_all printed_line ls" and "ls \<noteq> []"
  shows "scan_lines (join [CHR 0x0A] ls) = (ls, None)"
  using assms by (intro scan_lines_join) (auto simp: list_all_iff printed_line_def)

section \<open>Entries of two lines\<close>

text \<open>An entry: its two lines and the lines behind them, which the code skips.\<close>

definition entry_lines :: "(string \<times> string) \<times> string list \<Rightarrow> string list" where
  "entry_lines e = (case e of ((l, l'), ls) \<Rightarrow> l # l' # ls)"

lemma each_entry:
  assumes "list_all (\<lambda>e. length (snd (f e)) = skip \<and>
    (\<forall>s. fn s (fst (fst (f e)) @ snd (fst (f e))) = (step e s, None))) es"
  shows "each_two_lines fn skip None s (concat (map (entry_lines \<circ> f) es)) = (fold step es s, None)"
  using assms
proof (induction es arbitrary: s)
  case (Cons e es)
  obtain l l' ls where "f e = ((l, l'), ls)" by (metis surj_pair)
  with Cons show ?case by (simp add: entry_lines_def)
qed simp

text \<open>
  The output of a dump: a first line, and the lines of the entries.  How many lines of further statistics stand behind
  the two of each entry is a matter of the format that the first line announces: none in OpenFlow 1.0 and 1.1, whose
  replies carry no \<open>(OF1.x)\<close> in their first line; a third line, with the duration, in the newer versions; and there the heading and the
  line of the custom statistics as well, the fourth and the fifth, when any line of the output is such a heading.
\<close>

definition dump_lines :: "string \<Rightarrow> ('e \<Rightarrow> (string \<times> string) \<times> string list) \<Rightarrow> 'e list \<Rightarrow> string list" where
  "dump_lines h f es = h # concat (map (entry_lines \<circ> f) es)"

definition printed_behind :: "string \<Rightarrow> string list \<Rightarrow> nat \<Rightarrow> bool" where
  "printed_behind h ls n \<longleftrightarrow>
     (if sublist ''(OF1.'' h
      then if list_ex (\<lambda>l. sublist ''CUSTOM'' l) ls then n = 3 else n = 1
      else n = 0)"

definition dump_header :: "string \<Rightarrow> string \<Rightarrow> ('e \<Rightarrow> (string \<times> string) \<times> string list) \<Rightarrow> 'e list \<Rightarrow> bool" where
  "dump_header pre h f es \<longleftrightarrow>
     printed_line h \<and> prefix pre h \<and> list_all (\<lambda>e. printed_behind h (dump_lines h f es) (length (snd (f e)))) es"

definition printed_dump :: "string \<Rightarrow> string \<Rightarrow> ('e \<Rightarrow> (string \<times> string) \<times> string list) \<Rightarrow> 'e list \<Rightarrow> bool" where
  "printed_dump pre h f es \<longleftrightarrow>
     dump_header pre h f es \<and> list_all (\<lambda>e. list_all printed_line (entry_lines (f e))) es"

lemma printed_dump_lines: "printed_dump pre h f es \<Longrightarrow> list_all printed_line (dump_lines h f es)"
  by (auto simp: printed_dump_def dump_header_def dump_lines_def list_all_iff)

lemma contains_join_iff:
  assumes "c \<notin> set p" and "p \<noteq> []"
  shows "contains (join [c] ss) p \<longleftrightarrow> (\<exists>s\<in>set ss. contains s p)"
proof
  show "contains (join [c] ss) p \<Longrightarrow> \<exists>s\<in>set ss. contains s p"
    using not_contains_join[OF assms] by blast
  have behind: "sublist s (a @ c # b)" if "sublist s b" for s a b
    using that unfolding sublist_def by (metis append.assoc append_Cons)
  have "sublist s (join [c] ss)" if "s \<in> set ss" for s
    using that by (induction ss) (auto simp: join_Cons behind)
  then show "\<exists>s\<in>set ss. contains s p \<Longrightarrow> contains (join [c] ss) p"
    by (auto simp: contains_iff intro: sublist_order.order_trans)
qed

lemma discarded_behind:
  assumes "printed_behind h ls n"
  shows "discarded_lines (contains h ''(OF1.'') (contains (join [CHR 0x0A] ls) ''CUSTOM'') = n"
proof -
  have "contains (join [CHR 0x0A] ls) ''CUSTOM'' \<longleftrightarrow> list_ex (\<lambda>l. sublist ''CUSTOM'' l) ls"
    using contains_join_iff[of "CHR 0x0A" "''CUSTOM''" ls] by (simp add: list_ex_iff contains_iff)
  then show ?thesis using assms by (auto simp: printed_behind_def discarded_lines_def contains_iff split: if_splits)
qed

lemma parseEach_dump:
  assumes "printed_dump pre h f es"
    and "list_all (\<lambda>e. \<forall>s. fn s (fst (fst (f e)) @ snd (fst (f e))) = (step e s, None)) es"
  shows "parseEach (join [CHR 0x0A] (dump_lines h f es)) pre fn s = (fold step es s, None)"
proof -
  let ?n = "discarded_lines (contains h ''(OF1.'') (contains (join [CHR 0x0A] (dump_lines h f es)) ''CUSTOM'')"
  have "list_all (\<lambda>e. length (snd (f e)) = ?n \<and>
      (\<forall>s. fn s (fst (fst (f e)) @ snd (fst (f e))) = (step e s, None))) es"
    using assms discarded_behind[of h "dump_lines h f es"]
    by (fastforce simp: printed_dump_def dump_header_def list_all_iff)
  from each_entry[OF this, of s] scan_printed_lines[OF printed_dump_lines[OF assms(1)]] assms(1)
  show ?thesis
    by (simp add: parseEach_def has_prefix_def dump_lines_def printed_dump_def dump_header_def del: join.simps)
qed

text \<open>An output of \<open>ovs-ofctl\<close> is read by the service without the line feed at its end.\<close>

lemma dump_output_read:
  assumes "execFunc c (fst (command_line c ''ovs-ofctl'' args)) (snd (command_line c ''ovs-ofctl'' args)) w =
      ((lines_output (dump_lines h f es), None), w')"
    and "printed_dump (CHR ''O'' # pre) h f es"
  shows "ofctl_exec c args w = (Inr (join [CHR 0x0A] (dump_lines h f es)), w')"
proof -
  have "byte (hd h) < 128 \<and> \<not> ascii_space (hd h)"
    using assms(2) by (auto simp: printed_dump_def dump_header_def prefix_def byte_def ascii_space_def)
  then have "trim_space (lines_output (dump_lines h f es)) = join [CHR 0x0A] (dump_lines h f es)"
    using trim_lines_output[OF printed_dump_lines[OF assms(2)]] by (simp add: dump_lines_def)
  with Client_exec_ok[OF assms(1)] show ?thesis by (simp add: ofctl_exec_def)
qed

lemma two_lines_printed:
  assumes "list_all word ws" and "length ns = length ws" and "0 < k" and "k < length ws"
    and "short_line (fst (two_lines k ns ws))" and "short_line (snd (two_lines k ns ws))"
  shows "printed_line (fst (two_lines k ns ws))" and "printed_line (snd (two_lines k ns ws))"
proof -
  have "list_all word (take k ws)" "list_all word (drop k ws)" "take k ws \<noteq> []" "drop k ws \<noteq> []"
    using assms(1,3,4) by (auto simp: list_all_iff dest: in_set_takeD in_set_dropD)
  then show "printed_line (fst (two_lines k ns ws))" "printed_line (snd (two_lines k ns ws))"
    using assms(2,5,6) spaced_printed[of "take k ws" "take k ns"] spaced_printed[of "drop k ws" "drop k ns"]
    by (simp_all add: two_lines_def)
qed

lemma fold_append_map: "fold (\<lambda>e s. s @ [f e]) es s = s @ map f es"
  by (induction es arbitrary: s) simp_all

section \<open>Ports\<close>

text \<open>
  A port that is printed: its number, the counters of the two directions, the blanks before the words, and the lines
  of further statistics.
\<close>

record port_entry =
  entry_port :: int
  entry_rx :: "uint64 option list"
  entry_tx :: "uint64 option list"
  entry_blanks :: "nat list"
  entry_more :: "string list"

definition port_entry_lines :: "port_entry \<Rightarrow> (string \<times> string) \<times> string list" where
  "port_entry_lines e =
     (two_lines 10 (entry_blanks e) (port_words (entry_port e) (entry_rx e) (entry_tx e)), entry_more e)"

definition printed_port :: "port_entry \<Rightarrow> bool" where
  "printed_port e \<longleftrightarrow>
     int_range (entry_port e) \<and> length (entry_rx e) = 7 \<and> length (entry_tx e) = 5 \<and> length (entry_blanks e) = 16 \<and>
     short_line (fst (fst (port_entry_lines e))) \<and> short_line (snd (fst (port_entry_lines e))) \<and>
     list_all printed_line (entry_more e)"

definition entry_stats :: "port_entry \<Rightarrow> PortStats" where
  "entry_stats e = port_stats (entry_port e) (entry_rx e) (entry_tx e)"

lemma printed_port_read:
  assumes "printed_port e"
  shows "list_all printed_line (entry_lines (port_entry_lines e))"
    and "port_callback stats (fst (fst (port_entry_lines e)) @ snd (fst (port_entry_lines e))) =
      (stats @ [entry_stats e], None)"
proof -
  note p = assms[unfolded printed_port_def]
  note w = port_words_word[of "entry_rx e" "entry_tx e" "entry_port e"]
  show "list_all printed_line (entry_lines (port_entry_lines e))"
    using p w two_lines_printed[of "port_words (entry_port e) (entry_rx e) (entry_tx e)" "entry_blanks e" 10]
    by (auto simp: entry_lines_def port_entry_lines_def split: prod.split)
  have "fst (fst (port_entry_lines e)) @ snd (fst (port_entry_lines e)) =
      spaced (entry_blanks e) (port_words (entry_port e) (entry_rx e) (entry_tx e))"
    using two_lines_joined[OF surjective_pairing] by (simp add: port_entry_lines_def)
  then show "port_callback stats (fst (fst (port_entry_lines e)) @ snd (fst (port_entry_lines e))) =
      (stats @ [entry_stats e], None)"
    using PortStats_reads_output[of "entry_port e" "entry_rx e" "entry_tx e" "entry_blanks e" zero_port_stats] p
    by (simp add: port_callback_def entry_stats_def)
qed

text \<open>
  C35.  \<open>DumpPorts\<close> returns the counters of exactly the ports that \<open>ovs-ofctl dump-ports\<close> printed, in their order, with
  0 for a counter that is printed as a question mark.  Behind the two lines of a port there is nothing further, or, when
  the first line carries \<open>(OF1.x)\<close> as from OpenFlow 1.3 on, the line with the duration, and behind it, when custom statistics are
  printed anywhere in the output, their two lines.
\<close>

theorem DumpPorts_reads_output:
  assumes "list_all printed_port es" and "dump_header dumpPortsPrefix h port_entry_lines es"
    and "execFunc c (fst (command_line c ''ovs-ofctl'' (ofctlFlags c @ [''dump-ports'', bridge])))
           (snd (command_line c ''ovs-ofctl'' (ofctlFlags c @ [''dump-ports'', bridge]))) w =
         ((lines_output (dump_lines h port_entry_lines es), None), w')"
  shows "DumpPorts c bridge w = ((map entry_stats es, None), w')"
proof -
  have step: "list_all (\<lambda>e. \<forall>s. port_callback s (fst (fst (port_entry_lines e)) @ snd (fst (port_entry_lines e))) =
      (s @ [entry_stats e], None)) es"
    using assms(1) by (simp add: list_all_iff printed_port_read(2))
  have d: "printed_dump dumpPortsPrefix h port_entry_lines es"
    using assms(2) list.pred_mono_strong[OF assms(1) printed_port_read(1)] by (simp add: printed_dump_def)
  show ?thesis using parseEach_dump[OF d step, of "[]"] dump_output_read[OF assms(3) d]
    by (simp add: DumpPorts_def dumpPorts_def fold_append_map)
qed

definition example_port :: port_entry where
  "example_port =
     \<lparr>entry_port = 1, entry_rx = [Some 1, Some 64, None, Some 0, None, None, None],
      entry_tx = [Some 2, Some 128, None, Some 0, None], entry_blanks = [Suc 0, Suc 0, 0, 0, 0, 0, 0, 0, 0, 0, Suc 0, 0, 0, 0, 0, 0],
      entry_more = [''           duration=1s'', ''           CUSTOM Statistics'', ''              rx_a=1, tx_b=2,'']\<rparr>"

lemma example_port_text:
  "port_entry_lines example_port =
     ((''  port  1: rx pkts=1, bytes=64, drop=?, errs=0, frame=?, over=?, crc=?'',
       ''  tx pkts=2, bytes=128, drop=?, errs=0, coll=?''),
      [''           duration=1s'', ''           CUSTOM Statistics'', ''              rx_a=1, tx_b=2,''])"
  by (simp add: port_entry_lines_def example_port_def two_lines_def port_words_def spaced_def counter_text_def PortLOCAL_def
      print_eval)

lemma DumpPorts_reads_output_witness:
  "DumpPorts (log_client\<lparr>execFunc := log_exec (\<lambda>cmd args.
       (lines_output (dump_lines ''OFPST_PORT reply (OF1.3) (xid=0x2): 1 ports'' port_entry_lines [example_port]), None))\<rparr>)
     ''br0'' [] = (([entry_stats example_port], None), [(None, ''ovs-ofctl'', [''dump-ports'', ''br0''])])"
proof -
  let ?h = "''OFPST_PORT reply (OF1.3) (xid=0x2): 1 ports''"
  have "list_all printed_port [example_port]"
    using example_port_text
    by (simp add: printed_port_def short_line_def printed_line_def example_port_def int_range_def ascii_space_def byte_def)
  moreover have "dump_header dumpPortsPrefix ?h port_entry_lines [example_port]"
    by (simp add: dump_header_def printed_line_def short_line_def printed_behind_def dump_lines_def entry_lines_def
        example_port_text sublist_Cons_right ascii_space_def byte_def)
  ultimately show ?thesis
    using DumpPorts_reads_output[of "[example_port]" ?h "log_client\<lparr>execFunc := log_exec (\<lambda>cmd args.
       (lines_output (dump_lines ?h port_entry_lines [example_port]), None))\<rparr>" "''br0''" "[]"]
    by (simp add: log_client_def New_def command_line_def log_exec_def)
qed

section \<open>Tables\<close>

text \<open>
  A table that is printed: the number, the name, the wildcards, the four counters, the blanks, and whether the colon
  stands behind the name as a word of its own.
\<close>

record table_entry =
  entry_id :: int
  entry_name :: string
  entry_apart :: bool
  entry_wild :: string
  entry_counters :: "uint64 list"
  entry_gaps :: "nat list"

definition table_entry_words :: "table_entry \<Rightarrow> string list" where
  "table_entry_words e =
     table_words (entry_id e) (if entry_apart e then [entry_name e, '':''] else [entry_name e @ '':'']) (entry_wild e)
       (entry_counters e)"

definition table_entry_lines :: "table_entry \<Rightarrow> (string \<times> string) \<times> string list" where
  "table_entry_lines e =
     (two_lines (length (table_entry_words e) - 2) (entry_gaps e) (table_entry_words e), [])"

definition printed_table :: "table_entry \<Rightarrow> bool" where
  "printed_table e \<longleftrightarrow>
     int_range (entry_id e) \<and> word (entry_name e) \<and> \<not> suffix '':'' (entry_name e) \<and> word (entry_wild e) \<and>
     CHR ''='' \<notin> set (entry_wild e) \<and> length (entry_counters e) = 4 \<and>
     length (entry_gaps e) = length (table_entry_words e) \<and>
     short_line (fst (fst (table_entry_lines e))) \<and> short_line (snd (fst (table_entry_lines e)))"

definition entry_table :: "table_entry \<Rightarrow> Table" where
  "entry_table e =
     \<lparr>ID = entry_id e, Name = entry_name e, Wild = entry_wild e, Max = sint (entry_counters e ! 0),
      Active = sint (entry_counters e ! 1), Lookup = entry_counters e ! 2, Matched = entry_counters e ! 3\<rparr>"

definition used_table :: "Table \<Rightarrow> bool" where
  "used_table t \<longleftrightarrow> Active t \<noteq> 0 \<or> Lookup t \<noteq> 0 \<or> Matched t \<noteq> 0"

lemma table_entry_words_word: "printed_table e \<Longrightarrow> list_all word (table_entry_words e)"
  unfolding table_entry_words_def by (rule table_words_word) (auto simp: printed_table_def)

lemma printed_table_read:
  assumes "printed_table e"
  shows "list_all printed_line (entry_lines (table_entry_lines e))"
    and "table_callback ts (fst (fst (table_entry_lines e)) @ snd (fst (table_entry_lines e))) =
      (if used_table (entry_table e) then ts @ [entry_table e] else ts, None)"
proof -
  have "6 \<le> length (table_entry_words e)" by (simp add: table_entry_words_def table_words_def)
  then show "list_all printed_line (entry_lines (table_entry_lines e))"
    using assms table_entry_words_word[OF assms]
      two_lines_printed[of "table_entry_words e" "entry_gaps e" "length (table_entry_words e) - 2"]
    by (auto simp: entry_lines_def table_entry_lines_def printed_table_def split: prod.split)
  have "fst (fst (table_entry_lines e)) @ snd (fst (table_entry_lines e)) =
      spaced (entry_gaps e) (table_entry_words e)"
    using two_lines_joined[OF surjective_pairing] by (simp add: table_entry_lines_def)
  then show "table_callback ts (fst (fst (table_entry_lines e)) @ snd (fst (table_entry_lines e))) =
      (if used_table (entry_table e) then ts @ [entry_table e] else ts, None)"
    using Table_reads_output[of "entry_id e" "entry_name e" "entry_wild e" "entry_counters e"
        "if entry_apart e then [entry_name e, '':''] else [entry_name e @ '':'']" "entry_gaps e" zero_table] assms
    by (simp add: table_callback_def table_entry_words_def printed_table_def entry_table_def used_table_def
        del: append_Cons append.simps)
qed

lemma fold_filter_map:
  "fold (\<lambda>e s. if P (f e) then s @ [f e] else s) es s = s @ filter P (map f es)"
  by (induction es arbitrary: s) simp_all

text \<open>
  C36.  \<open>DumpTables\<close> returns exactly the tables that \<open>ovs-ofctl dump-tables\<close> printed and that are used: those with an
  active flow, a lookup or a match.
\<close>

theorem DumpTables_reads_output:
  assumes "list_all printed_table es" and "dump_header dumpTablesPrefix h table_entry_lines es"
    and "execFunc c (fst (command_line c ''ovs-ofctl'' ([''dump-tables'', bridge] @ ofctlFlags c)))
           (snd (command_line c ''ovs-ofctl'' ([''dump-tables'', bridge] @ ofctlFlags c))) w =
         ((lines_output (dump_lines h table_entry_lines es), None), w')"
  shows "DumpTables c bridge w = ((filter used_table (map entry_table es), None), w')"
proof -
  have step: "list_all (\<lambda>e. \<forall>s. table_callback s (fst (fst (table_entry_lines e)) @ snd (fst (table_entry_lines e))) =
      (if used_table (entry_table e) then s @ [entry_table e] else s, None)) es"
    using assms(1) by (simp add: list_all_iff printed_table_read(2))
  have d: "printed_dump dumpTablesPrefix h table_entry_lines es"
    using assms(2) list.pred_mono_strong[OF assms(1) printed_table_read(1)] by (simp add: printed_dump_def)
  show ?thesis using parseEach_dump[OF d step, of "[]"] dump_output_read[OF assms(3) d]
    by (simp add: DumpTables_def fold_filter_map)
qed

definition example_tables :: "table_entry list" where
  "example_tables =
     [\<lparr>entry_id = 0, entry_name = ''classifier'', entry_apart = False, entry_wild = ''0x3fffff'',
       entry_counters = [1000000, 1, 2, 3], entry_gaps = [Suc 0, 0, 0, 0, 0, Suc 0, 0]\<rparr>,
      \<lparr>entry_id = 1, entry_name = ''table1'', entry_apart = True, entry_wild = ''0x3fffff'',
       entry_counters = [1000000, 0, 0, 0], entry_gaps = [Suc 0, 0, Suc 0, Suc 0, 0, 0, Suc 0, 0]\<rparr>]"

lemma DumpTables_reads_output_witness:
  "DumpTables (log_client\<lparr>execFunc := log_exec (\<lambda>cmd args.
       (lines_output (dump_lines ''OFPST_TABLE reply (xid=0x2): 2 tables'' table_entry_lines example_tables), None))\<rparr>)
     ''br0'' [] =
   (([\<lparr>ID = 0, Name = ''classifier'', Wild = ''0x3fffff'', Max = 1000000, Active = 1, Lookup = 2, Matched = 3\<rparr>], None),
    [(None, ''ovs-ofctl'', [''dump-tables'', ''br0''])])"
proof -
  let ?h = "''OFPST_TABLE reply (xid=0x2): 2 tables''"
  have "list_all printed_table example_tables"
    by (simp add: example_tables_def printed_table_def table_entry_words_def table_words_def table_entry_lines_def
        two_lines_def spaced_def short_line_def word_def int_range_def suffix_to_prefix ascii_space_def byte_def
        print_eval)
  moreover have "dump_header dumpTablesPrefix ?h table_entry_lines example_tables"
    by (simp add: example_tables_def dump_header_def printed_line_def short_line_def printed_behind_def dump_lines_def
        sublist_Cons_right table_entry_lines_def ascii_space_def byte_def)
  moreover have "filter used_table (map entry_table example_tables) =
      [\<lparr>ID = 0, Name = ''classifier'', Wild = ''0x3fffff'', Max = 1000000, Active = 1, Lookup = 2, Matched = 3\<rparr>]"
    by (simp add: example_tables_def used_table_def entry_table_def)
  ultimately show ?thesis
    using DumpTables_reads_output[of example_tables ?h "log_client\<lparr>execFunc := log_exec (\<lambda>cmd args.
       (lines_output (dump_lines ?h table_entry_lines example_tables), None))\<rparr>" "''br0''" "[]"]
    by (simp add: log_client_def New_def command_line_def log_exec_def)
qed

end
