(* ===== verification/VSwitch.thy ===== *)
theory VSwitch
  imports Client GoErrors
begin

text \<open>
  \<open>ovs/vswitch.go\<close> and \<open>ovs/ovs.go\<close>: the service that runs \<open>ovs-vsctl\<close>.  The services for its subcommands
  hold nothing but the service, and the service holds the client, which is the first argument of the
  methods here.
\<close>

section \<open>Names\<close>

(* src: ovs/ovs.go type FailMode *)
type_synonym FailMode = string

(* src: ovs/ovs.go const FailModeStandalone *)
abbreviation FailModeStandalone :: FailMode where "FailModeStandalone \<equiv> ''standalone''"
(* src: ovs/ovs.go const FailModeSecure *)
abbreviation FailModeSecure :: FailMode where "FailModeSecure \<equiv> ''secure''"

(* src: ovs/ovs.go type InterfaceType *)
type_synonym InterfaceType = string

(* src: ovs/ovs.go const InterfaceTypeGRE *)
abbreviation InterfaceTypeGRE :: InterfaceType where "InterfaceTypeGRE \<equiv> ''gre''"
(* src: ovs/ovs.go const InterfaceTypeInternal *)
abbreviation InterfaceTypeInternal :: InterfaceType where "InterfaceTypeInternal \<equiv> ''internal''"
(* src: ovs/ovs.go const InterfaceTypePatch *)
abbreviation InterfaceTypePatch :: InterfaceType where "InterfaceTypePatch \<equiv> ''patch''"
(* src: ovs/ovs.go const InterfaceTypeSTT *)
abbreviation InterfaceTypeSTT :: InterfaceType where "InterfaceTypeSTT \<equiv> ''stt''"
(* src: ovs/ovs.go const InterfaceTypeVXLAN *)
abbreviation InterfaceTypeVXLAN :: InterfaceType where "InterfaceTypeVXLAN \<equiv> ''vxlan''"

text \<open>
  An \<open>Error\<close> of package \<open>ovs\<close> is \<^const>\<open>ErrExec\<close>.  The code looks at the text of the error inside, not
  at what it is.
\<close>

(* src: ovs/ovs.go func IsPortNotExist *)
definition IsPortNotExist :: "(nat \<Rightarrow> bool) \<Rightarrow> (go_error \<Rightarrow> string) \<Rightarrow> go_error \<Rightarrow> bool" where
  "IsPortNotExist isPrint std e =
     (case e of
        ErrExec out err \<Rightarrow>
          has_prefix out ''ovs-vsctl: no port named '' \<and> error_text isPrint std err = ''exit status 1''
      | _ \<Rightarrow> False)"

section \<open>Commands\<close>

(* src: ovs/vswitch.go func VSwitchService.exec *)
definition vsctl_exec :: "'w Client \<Rightarrow> string list \<Rightarrow> ('w, string result) io" where
  "vsctl_exec c args = Client_exec c ''ovs-vsctl'' args"

text \<open>A command whose output is not used, and one whose output is passed through a function.\<close>

definition vsctl_do :: "'w Client \<Rightarrow> string list \<Rightarrow> ('w, go_error option) io" where
  "vsctl_do c args w =
     (case vsctl_exec c args w of (Inl e, w') \<Rightarrow> (Some e, w') | (Inr out, w') \<Rightarrow> (None, w'))"

definition vsctl_get :: "'w Client \<Rightarrow> (string \<Rightarrow> 'a result) \<Rightarrow> string list \<Rightarrow> ('w, 'a result) io" where
  "vsctl_get c f args w =
     (case vsctl_exec c args w of (Inl e, w') \<Rightarrow> (Inl e, w') | (Inr out, w') \<Rightarrow> (f out, w'))"

(* src: ovs/vswitch.go func VSwitchService.AddBridge *)
definition AddBridge :: "'w Client \<Rightarrow> string \<Rightarrow> ('w, go_error option) io" where
  "AddBridge c bridge = vsctl_do c [''--may-exist'', ''add-br'', bridge]"

(* src: ovs/vswitch.go func VSwitchService.AddPort *)
definition AddPort :: "'w Client \<Rightarrow> string \<Rightarrow> string \<Rightarrow> ('w, go_error option) io" where
  "AddPort c bridge port = vsctl_do c [''--may-exist'', ''add-port'', bridge, port]"

(* src: ovs/vswitch.go func VSwitchService.DeleteBridge *)
definition DeleteBridge :: "'w Client \<Rightarrow> string \<Rightarrow> ('w, go_error option) io" where
  "DeleteBridge c bridge = vsctl_do c [''--if-exists'', ''del-br'', bridge]"

(* src: ovs/vswitch.go func VSwitchService.DeletePort *)
definition DeletePort :: "'w Client \<Rightarrow> string \<Rightarrow> string \<Rightarrow> ('w, go_error option) io" where
  "DeletePort c bridge port = vsctl_do c [''--if-exists'', ''del-port'', bridge, port]"

text \<open>The lines of an output; no output is nil, which is the empty list.\<close>

(* src: ovs/vswitch.go 80-86 VSwitchService.ListPorts: the lines of the output *)
definition output_lines :: "string \<Rightarrow> string list" where
  "output_lines output = (if output = [] then [] else split [CHR 0x0A] (trim_space output))"

(* src: ovs/vswitch.go func VSwitchService.ListPorts *)
definition ListPorts :: "'w Client \<Rightarrow> string \<Rightarrow> ('w, string list result) io" where
  "ListPorts c bridge = vsctl_get c (\<lambda>out. Inr (output_lines out)) [''list-ports'', bridge]"

(* src: ovs/vswitch.go func VSwitchService.ListBridges *)
definition ListBridges :: "'w Client \<Rightarrow> ('w, string list result) io" where
  "ListBridges c = vsctl_get c (\<lambda>out. Inr (output_lines out)) [''list-br'']"

(* src: ovs/vswitch.go func VSwitchService.PortToBridge *)
definition PortToBridge :: "'w Client \<Rightarrow> string \<Rightarrow> ('w, string result) io" where
  "PortToBridge c port = vsctl_get c Inr [''port-to-br'', port]"

(* src: ovs/vswitch.go func VSwitchService.GetFailMode *)
definition GetFailMode :: "'w Client \<Rightarrow> string \<Rightarrow> ('w, FailMode result) io" where
  "GetFailMode c bridge = vsctl_get c Inr [''get-fail-mode'', bridge]"

(* src: ovs/vswitch.go func VSwitchService.SetFailMode *)
definition SetFailMode :: "'w Client \<Rightarrow> string \<Rightarrow> FailMode \<Rightarrow> ('w, go_error option) io" where
  "SetFailMode c bridge mode = vsctl_do c [''set-fail-mode'', bridge, mode]"

(* src: ovs/vswitch.go func VSwitchService.SetController *)
definition SetController :: "'w Client \<Rightarrow> string \<Rightarrow> string \<Rightarrow> ('w, go_error option) io" where
  "SetController c bridge address = vsctl_do c [''set-controller'', bridge, address]"

(* src: ovs/vswitch.go func VSwitchService.GetController *)
definition GetController :: "'w Client \<Rightarrow> string \<Rightarrow> ('w, string result) io" where
  "GetController c bridge = vsctl_get c (\<lambda>out. Inr (trim_space out)) [''get-controller'', bridge]"

section \<open>Bridges and interfaces\<close>

(* src: ovs/vswitch.go type BridgeOptions *)
record BridgeOptions =
  Protocols :: "string list"

(* src: ovs/vswitch.go func VSwitchGetService.Bridge *)
definition Get_Bridge :: "'w Client \<Rightarrow> string \<Rightarrow> ('w, BridgeOptions result) io" where
  "Get_Bridge c bridge =
     vsctl_get c (\<lambda>out. case Option.bind (json_parse out) decode_strings of
         None \<Rightarrow> Inl ErrJSON
       | Some ps \<Rightarrow> Inr \<lparr>Protocols = ps\<rparr>)
       [''--format=json'', ''get'', ''bridge'', bridge, ''protocols'']"

(* src: ovs/vswitch.go func BridgeOptions.slice *)
definition BridgeOptions_slice :: "BridgeOptions \<Rightarrow> string list" where
  "BridgeOptions_slice opts =
     (if length (Protocols opts) > 0 then [''protocols='' @ join '','' (Protocols opts)] else [])"

(* src: ovs/vswitch.go func VSwitchSetService.Bridge *)
definition Set_Bridge :: "'w Client \<Rightarrow> string \<Rightarrow> BridgeOptions \<Rightarrow> ('w, go_error option) io" where
  "Set_Bridge c bridge options = vsctl_do c ([''set'', ''bridge'', bridge] @ BridgeOptions_slice options)"

(* src: ovs/vswitch.go const DefaultIngressRatePolicing *)
abbreviation DefaultIngressRatePolicing :: int where "DefaultIngressRatePolicing \<equiv> - 1"
(* src: ovs/vswitch.go const DefaultIngressBurstPolicing *)
abbreviation DefaultIngressBurstPolicing :: int where "DefaultIngressBurstPolicing \<equiv> - 1"

(* src: ovs/vswitch.go type InterfaceOptions *)
record InterfaceOptions =
  Type :: InterfaceType
  Peer :: string
  MTURequest :: int
  IngressRatePolicing :: int
  IngressBurstPolicing :: int
  RemoteIP :: string
  Key :: string

text \<open>The two kinds of an option: a string that is not empty, and a policing value with its default.\<close>

definition string_option :: "string \<Rightarrow> string \<Rightarrow> string list" where
  "string_option column v = (if v \<noteq> [] then [column @ ''='' @ v] else [])"

(* src: ovs/vswitch.go 296-308 InterfaceOptions.slice: the two policing values *)
definition policing_option :: "string \<Rightarrow> int \<Rightarrow> int \<Rightarrow> string list" where
  "policing_option column dflt v =
     (if v = dflt then [column @ ''=0''] else if v > 0 then [column @ ''='' @ itoa v] else [])"

(* src: ovs/vswitch.go func InterfaceOptions.slice *)
definition InterfaceOptions_slice :: "InterfaceOptions \<Rightarrow> string list" where
  "InterfaceOptions_slice i =
     string_option ''type'' (Type i) @
     string_option ''options:peer'' (Peer i) @
     (if MTURequest i > 0 then [''mtu_request='' @ itoa (MTURequest i)] else []) @
     policing_option ''ingress_policing_rate'' DefaultIngressRatePolicing (IngressRatePolicing i) @
     policing_option ''ingress_policing_burst'' DefaultIngressBurstPolicing (IngressBurstPolicing i) @
     string_option ''options:remote_ip'' (RemoteIP i) @
     string_option ''options:key'' (Key i)"

(* src: ovs/vswitch.go func VSwitchSetService.Interface *)
definition Set_Interface :: "'w Client \<Rightarrow> string \<Rightarrow> InterfaceOptions \<Rightarrow> ('w, go_error option) io" where
  "Set_Interface c ifi options = vsctl_do c ([''set'', ''interface'', ifi] @ InterfaceOptions_slice options)"

end
