(* ===== verification/VSwitchProps.thy ===== *)
theory VSwitchProps
  imports VSwitch
begin

text \<open>
  The configuration of an interface: the arguments that the service gives to \<open>ovs-vsctl set\<close>, against the columns that
  the options of the caller stand for; and the error for a port that does not exist.
\<close>

section \<open>The columns that the options stand for\<close>

definition if_given :: "string \<Rightarrow> string option" where
  "if_given v = (if v = [] then None else Some v)"

text \<open>
  The code takes a policing value of -1 for 0, which turns policing off, and leaves the column as it is for a value of 0,
  which the documentation of the field says to turn policing off.
\<close>

definition policing :: "int \<Rightarrow> string option" where
  "policing v = (if v = - 1 then Some ''0'' else if v > 0 then Some (itoa v) else None)"

definition wanted :: "InterfaceOptions \<Rightarrow> (string, string) map" where
  "wanted i col =
     (if col = ''type'' then if_given (Type i)
      else if col = ''options:peer'' then if_given (Peer i)
      else if col = ''mtu_request'' then (if MTURequest i > 0 then Some (itoa (MTURequest i)) else None)
      else if col = ''ingress_policing_rate'' then policing (IngressRatePolicing i)
      else if col = ''ingress_policing_burst'' then policing (IngressBurstPolicing i)
      else if col = ''options:remote_ip'' then if_given (RemoteIP i)
      else if col = ''options:key'' then if_given (Key i)
      else None)"

section \<open>The arguments name them\<close>

text \<open>An argument of \<open>ovs-vsctl set\<close>: a column and its value.\<close>

definition setting :: "string \<times> string \<Rightarrow> string" where
  "setting p = fst p @ ''='' @ snd p"

definition interface_columns :: "string list" where
  "interface_columns =
     [''type'', ''options:peer'', ''mtu_request'', ''ingress_policing_rate'', ''ingress_policing_burst'',
      ''options:remote_ip'', ''options:key'']"

definition settings :: "InterfaceOptions \<Rightarrow> (string \<times> string) list" where
  "settings i =
     concat (map (\<lambda>col. case wanted i col of None \<Rightarrow> [] | Some v \<Rightarrow> [(col, v)]) interface_columns)"

lemma slice_settings: "InterfaceOptions_slice i = map setting (settings i)"
  by (simp add: InterfaceOptions_slice_def settings_def interface_columns_def wanted_def string_option_def
      policing_option_def if_given_def policing_def setting_def)

lemma settings_map: "map_of (settings i) = wanted i" "distinct (map fst (settings i))"
proof -
  let ?f = "\<lambda>col. case wanted i col of None \<Rightarrow> [] | Some v \<Rightarrow> [(col, v)]"
  have m: "map_of (concat (map ?f cols)) x = (if x \<in> set cols then wanted i x else None)" for cols x
    by (induction cols) (auto split: option.splits)
  have "x \<notin> set interface_columns \<Longrightarrow> wanted i x = None" for x
    by (simp add: interface_columns_def wanted_def)
  then show "map_of (settings i) = wanted i" by (auto simp: settings_def m)
  have d: "distinct cols \<Longrightarrow> distinct (map fst (concat (map ?f cols)))" for cols
    by (induction cols) (auto split: option.splits if_splits)
  have "distinct interface_columns" by (simp add: interface_columns_def)
  then show "distinct (map fst (settings i))" unfolding settings_def by (rule d)
qed

text \<open>
  C25.  Setting the options of an interface runs the program once, with \<open>set interface\<close>, the interface, and one argument
  \<open>column=value\<close> for exactly the columns that the options stand for, none of them twice; a policing value of 0 stands for
  no column.  The error of the program is returned with its trimmed output.
\<close>

theorem Set_Interface_implements_options:
  "\<exists>sets. map_of sets = wanted i \<and> distinct (map fst sets) \<and>
     Set_Interface c ifi i w =
       (case execFunc c (fst (command_line c ''ovs-vsctl'' ([''set'', ''interface'', ifi] @ map setting sets)))
               (snd (command_line c ''ovs-vsctl'' ([''set'', ''interface'', ifi] @ map setting sets))) w of
          ((out, None), w') \<Rightarrow> (None, w')
        | ((out, Some e), w') \<Rightarrow> (Some (ErrExec (trim_space out) e), w'))"
  by (intro exI[of _ "settings i"])
    (simp add: settings_map Set_Interface_def vsctl_do_def vsctl_exec_def Client_exec_def slice_settings
      split: prod.split option.split)

definition example_options :: InterfaceOptions where
  "example_options =
     \<lparr>Type = ''vxlan'', Peer = [], MTURequest = 1500, IngressRatePolicing = 0, IngressBurstPolicing = - 1,
      RemoteIP = ''flow'', Key = []\<rparr>"

lemma Set_Interface_implements_options_witness:
  "\<exists>sets. map_of sets ''ingress_policing_rate'' = None \<and> map_of sets ''ingress_policing_burst'' = Some ''0'' \<and>
     map_of sets ''mtu_request'' = Some (itoa 1500) \<and> map_of sets ''options:remote_ip'' = Some ''flow'' \<and>
     Set_Interface (New (log_exec (\<lambda>cmd args. ([], None))) (log_pipe (\<lambda>stdin cmd args. ([], None))) [])
       ''vx0'' example_options [] =
     (None, [(None, ''ovs-vsctl'', [''set'', ''interface'', ''vx0''] @ map setting sets)])"
proof -
  let ?c = "New (log_exec (\<lambda>cmd args. ([], None))) (log_pipe (\<lambda>stdin cmd args. ([], None))) []"
  obtain sets where "map_of sets = wanted example_options" "Set_Interface ?c ''vx0'' example_options [] =
       (case execFunc ?c (fst (command_line ?c ''ovs-vsctl'' ([''set'', ''interface'', ''vx0''] @ map setting sets)))
               (snd (command_line ?c ''ovs-vsctl'' ([''set'', ''interface'', ''vx0''] @ map setting sets))) [] of
          ((out, None), w') \<Rightarrow> (None, w')
        | ((out, Some e), w') \<Rightarrow> (Some (ErrExec (trim_space out) e), w'))"
    using Set_Interface_implements_options[of example_options ?c "''vx0''" "[]"] by blast
  then show ?thesis
    by (intro exI[of _ sets]) (simp add: wanted_def example_options_def if_given_def policing_def New_def command_line_def
      log_exec_def)
qed

text \<open>
  The error of asking for the bridge of a port says that there is no such port exactly when the text of the
  program does, after the white space around it, and it ended with status 1.
\<close>

theorem PortToBridge_missing:
  assumes "execFunc c (fst (command_line c ''ovs-vsctl'' [''port-to-br'', port]))
       (snd (command_line c ''ovs-vsctl'' [''port-to-br'', port])) w = ((out, Some e), w')"
  shows "PortToBridge c port w = (Inl (ErrExec (trim_space out) e), w') \<and>
     (IsPortNotExist isPrint std (ErrExec (trim_space out) e) \<longleftrightarrow>
        prefix ''ovs-vsctl: no port named '' (trim_space out) \<and> error_text isPrint std e = ''exit status 1'')"
  using Client_exec_error[OF assms]
  by (simp add: PortToBridge_def vsctl_get_def vsctl_exec_def IsPortNotExist_def has_prefix_def)

lemma PortToBridge_missing_witness:
  "IsPortNotExist (\<lambda>_. False) (\<lambda>_. '''')
     (case fst (PortToBridge (New (\<lambda>cmd args w. ((''ovs-vsctl: no port named p0'' @ [CHR 0x0A],
        Some (ErrExternal ''exit status 1'')), w)) pipe []) ''p0'' ()) of Inl e \<Rightarrow> e)"
  using PortToBridge_missing[of "New (\<lambda>cmd args w. ((''ovs-vsctl: no port named p0'' @ [CHR 0x0A],
        Some (ErrExternal ''exit status 1'')), w)) pipe []" "''p0''" "()"
        "''ovs-vsctl: no port named p0'' @ [CHR 0x0A]" "ErrExternal ''exit status 1''" "()" "\<lambda>_. False" "\<lambda>_. ''''"]
    trim_space_lf[of "''ovs-vsctl: no port named p0''"]
  by (simp add: New_def command_line_def byte_def ascii_space_def)

end
