(* ===== verification/DataPath.thy ===== *)
theory DataPath
  imports Client
begin

text \<open>
  \<open>ovs/datapath.go\<close>: the service that runs \<open>ovs-dpctl\<close>, with the limits of connection tracking.  The
  service has the interface \<open>CLI\<close>, which is the function \<open>Exec\<close> here and the first argument of the
  methods.  A slice that is changed while it is ranged over is its array and its length.
\<close>

section \<open>The interface and its implementation\<close>

(* src: ovs/datapath.go type CLI *)
type_synonym 'w CLI = "string list \<Rightarrow> ('w, string result) io"

text \<open>The client of a \<open>DpCLI\<close> may be nil.\<close>

(* src: ovs/datapath.go func DpCLI.Exec *)
definition DpCLI_Exec :: "'w Client option \<Rightarrow> 'w CLI" where
  "DpCLI_Exec cli args w =
     (case cli of
        None \<Rightarrow> (Inl errUninitializedClient, w)
      | Some c \<Rightarrow> Client_exec c ''ovs-dpctl'' args w)"

(* src: ovs/datapath.go func NewDataPathService *)
definition NewDataPathService :: "'w ExecFunc \<Rightarrow> 'w PipeFunc \<Rightarrow> 'w CLI" where
  "NewDataPathService shellExec shellPipe = DpCLI_Exec (Some (New shellExec shellPipe [Sudo]))"

section \<open>Datapaths\<close>

(* src: ovs/datapath.go func DataPathService.Version *)
definition Version :: "'w CLI \<Rightarrow> ('w, string result) io" where
  "Version cli = cli [''--version'']"

(* src: ovs/datapath.go func DataPathService.GetDataPaths *)
definition GetDataPaths :: "'w CLI \<Rightarrow> ('w, string list result) io" where
  "GetDataPaths cli w =
     (case cli [''dump-dps''] w of
        (Inl e, w') \<Rightarrow> (Inl e, w')
      | (Inr result, w') \<Rightarrow> (Inr (split [CHR 0x0A] result), w'))"

definition error_only :: "('w, string result) io \<Rightarrow> ('w, go_error option) io" where
  "error_only f w = (case f w of (Inl e, w') \<Rightarrow> (Some e, w') | (Inr _, w') \<Rightarrow> (None, w'))"

(* src: ovs/datapath.go func DataPathService.AddDataPath *)
definition AddDataPath :: "'w CLI \<Rightarrow> string \<Rightarrow> ('w, go_error option) io" where
  "AddDataPath cli dpName = error_only (cli [''add-dp'', dpName])"

(* src: ovs/datapath.go func DataPathService.DelDataPath *)
definition DelDataPath :: "'w CLI \<Rightarrow> string \<Rightarrow> ('w, go_error option) io" where
  "DelDataPath cli dpName = error_only (cli [''del-dp'', dpName])"

section \<open>Limits of connection tracking\<close>

(* src: ovs/datapath.go type CTLimit *)
type_synonym CTLimit = "(string, uint64) map"

text \<open>The default limit is None for the nil map.\<close>

(* src: ovs/datapath.go type ConntrackOutput *)
record ConntrackOutput =
  defaultLimit :: "CTLimit option"
  zoneLimits :: "CTLimit list"

(* src: ovs/datapath.go func getZoneString *)
definition getZoneString :: "uint64 list \<Rightarrow> string" where
  "getZoneString z =
     (case map dec z of
        [] \<Rightarrow> []
      | firstZone # zonesStr \<Rightarrow> ''zone='' @ firstZone @ concat (map (\<lambda>zone. '','' @ zone) zonesStr))"

text \<open>A run-time panic of an index or a slice.\<close>

definition index_panic :: go_error where
  "index_panic = GoPanic ''index out of range''"

text \<open>
  The loop that looks for the default.  It ranges over the array as it was given, whose length stays;
  \<open>append(entries[:i], entries[i+1:]...)\<close> moves the rest of the current slice, which has length
  \<open>len\<close>, in this array.
\<close>

(* src: ovs/datapath.go 180-193 DataPathService.GetCTLimits: the loop over the entries *)
function default_loop :: "nat \<Rightarrow> string list \<Rightarrow> nat \<Rightarrow> CTLimit option \<Rightarrow> (CTLimit option \<times> string list) result" where
  "default_loop i entries len dflt =
     (if length entries \<le> i then Inr (dflt, take len entries)
      else if \<not> contains (entries ! i) ''default'' then default_loop (i + 1) entries len dflt
      else if length (split ''='' (entries ! i)) < 2 then Inl index_panic
      else (case Atoi (split ''='' (entries ! i) ! 1) of
          Inl e \<Rightarrow> Inl e
        | Inr limit \<Rightarrow>
            if len < i + 1 then Inl index_panic
            else default_loop (i + 1)
                   (take i entries @ take (len - (i + 1)) (drop (i + 1) entries) @ drop (len - 1) entries)
                   (len - 1) (Some [''default'' \<mapsto> word_of_int limit])))"
  by pat_completeness auto
termination
  by (relation "measure (\<lambda>(i, entries, len, dflt). length entries - i)") auto

declare default_loop.simps [simp del]

text \<open>
  \<open>strconv.Atoi\<close> whose error is not looked at: 0 for a text that is no number, the nearest number for
  one out of range.
\<close>

definition Atoi_value :: "string \<Rightarrow> int" where
  "Atoi_value s =
     (case parse_int s 10 64 of
        Inr i \<Rightarrow> i
      | Inl Range \<Rightarrow> if hd s = CHR ''-'' then - (2 ^ 63) else 2 ^ 63 - 1
      | Inl Syntax \<Rightarrow> 0)"

(* src: ovs/datapath.go 199-203 DataPathService.GetCTLimits: the loop over the fields *)
fun zone_fields :: "string list \<Rightarrow> CTLimit \<Rightarrow> CTLimit result" where
  "zone_fields [] z = Inr z"
| "zone_fields (field # fs) z =
     (let buf = split ''='' field in
      if length buf < 2 then Inl index_panic
      else zone_fields fs (z(buf ! 0 \<mapsto> word_of_int (Atoi_value (buf ! 1)))))"

(* src: ovs/datapath.go 195-205 DataPathService.GetCTLimits: the zones *)
definition zone_entries :: "string list \<Rightarrow> CTLimit list result" where
  "zone_entries entries = mapR (\<lambda>entry. zone_fields (split '','' entry) Map.empty) entries"

(* src: ovs/datapath.go 171-207 DataPathService.GetCTLimits: the output *)
definition parse_limits :: "string \<Rightarrow> ConntrackOutput result" where
  "parse_limits results =
     (let entries = split [CHR 0x0A] results in
      case default_loop 0 entries (length entries) None of
        Inl e \<Rightarrow> Inl e
      | Inr (dflt, rest) \<Rightarrow>
          (case zone_entries rest of
             Inl e \<Rightarrow> Inl e
           | Inr zs \<Rightarrow> Inr \<lparr>defaultLimit = dflt, zoneLimits = zs\<rparr>))"

(* src: ovs/datapath.go func DataPathService.GetCTLimits *)
definition GetCTLimits :: "'w CLI \<Rightarrow> string \<Rightarrow> uint64 list \<Rightarrow> ('w, ConntrackOutput result) io" where
  "GetCTLimits cli dpName zones w =
     (if dpName = [] then (Inl errMissingMandatoryDataPathName, w)
      else
        (let zoneParam = getZoneString zones;
             args = [''ct-get-limits'', dpName] @ (if zoneParam \<noteq> [] then [zoneParam] else [])
         in case cli args w of
              (Inl e, w') \<Rightarrow> (Inl e, w')
            | (Inr results, w') \<Rightarrow> (parse_limits results, w')))"

text \<open>The entries of a Go map, in the order in which the range happens to visit them.\<close>

(* src: ovs/datapath.go 261-270 ctSetLimitsArgsToString: the loop over the map *)
definition limit_args :: "(string \<times> uint64) list \<Rightarrow> string list" where
  "limit_args zone =
     concat (map (\<lambda>(k, v). if k = ''default'' \<or> k = ''zone'' \<or> k = ''limit'' then [k @ ''='' @ dec v] else []) zone)"

(* src: ovs/datapath.go func ctSetLimitsArgsToString *)
definition ctSetLimitsArgsToString :: "(string \<times> uint64) list \<Rightarrow> string result" where
  "ctSetLimitsArgsToString zone =
     (let args = limit_args zone; defaultSetup = list_ex (\<lambda>(k, v). k = ''default'') zone in
      if length args = 0 \<or> length args > 2 then Inl errWrongArgumentNumber
      else if defaultSetup \<and> length args \<noteq> 1 then Inl errWrongDefaultArgument
      else if \<not> defaultSetup \<and> length args \<noteq> 2 then Inl errWrongZoneArgument
      else Inr (hd args @ concat (map (\<lambda>s. '','' @ s) (tl args))))"

text \<open>The output of a command as a string, with its error.\<close>

definition output_and_error :: "('w, string result) io \<Rightarrow> ('w, string \<times> go_error option) io" where
  "output_and_error f w =
     (case f w of (Inl e, w') \<Rightarrow> (([], Some e), w') | (Inr out, w') \<Rightarrow> ((out, None), w'))"

(* src: ovs/datapath.go func DataPathService.SetCTLimits *)
definition SetCTLimits :: "'w CLI \<Rightarrow> string \<Rightarrow> (string \<times> uint64) list \<Rightarrow> ('w, string \<times> go_error option) io" where
  "SetCTLimits cli dpName zone w =
     (if dpName = [] then (([], Some errMissingMandatoryDataPathName), w)
      else
        (case ctSetLimitsArgsToString zone of
           Inl e \<Rightarrow> (([], Some e), w)
         | Inr argsStr \<Rightarrow> output_and_error (cli [''ct-set-limits'', dpName, argsStr]) w))"

(* src: ovs/datapath.go func DataPathService.DelCTLimits *)
definition DelCTLimits :: "'w CLI \<Rightarrow> string \<Rightarrow> uint64 list \<Rightarrow> ('w, string \<times> go_error option) io" where
  "DelCTLimits cli dpName zones w =
     (if dpName = [] then (([], Some errMissingMandatoryDataPathName), w)
      else
        (case zones of
           [] \<Rightarrow> (([], Some errMissingMandatoryZone), w)
         | firstZone # zs \<Rightarrow>
             output_and_error (cli [''ct-del-limits'', dpName,
               ''zone='' @ dec firstZone @ concat (map (\<lambda>z. '','' @ dec z) zs)]) w))"

end
