(* ===== verification/DataPathProps.thy ===== *)
theory DataPathProps
  imports DataPath
begin

text \<open>
  What \<open>ovs-dpctl ct-get-limits\<close> prints is read by \<open>GetCTLimits\<close>, and which limits \<open>SetCTLimits\<close> accepts.
\<close>

section \<open>The output of \<open>ct-get-limits\<close>\<close>

text \<open>A line for the default and one for each zone: its number, its limit and its count.\<close>

type_synonym zone_line = "uint16 \<times> uint32 \<times> uint32"

definition default_line :: "uint32 \<Rightarrow> string" where
  "default_line d = ''default limit='' @ dec d"

definition zone_text :: "zone_line \<Rightarrow> string" where
  "zone_text z = (case z of (n, l, k) \<Rightarrow> ''zone='' @ dec n @ '',limit='' @ dec l @ '',count='' @ dec k)"

definition limit_lines :: "uint32 option \<Rightarrow> zone_line list \<Rightarrow> string list" where
  "limit_lines d zs = (case d of None \<Rightarrow> [] | Some x \<Rightarrow> [default_line x]) @ map zone_text zs"

definition limits_output :: "uint32 option \<Rightarrow> zone_line list \<Rightarrow> string" where
  "limits_output d zs = concat (map (\<lambda>l. l @ [CHR 0x0A]) (limit_lines d zs))"

definition zone_limit :: "zone_line \<Rightarrow> CTLimit" where
  "zone_limit z = (case z of (n, l, k) \<Rightarrow> [''zone'' \<mapsto> ucast n, ''limit'' \<mapsto> ucast l, ''count'' \<mapsto> ucast k])"

section \<open>The lines are read\<close>

lemma dec_no: "\<not> is_digit c \<Longrightarrow> c \<notin> set (dec w)"
  using dec_chars by blast

lemma no_digit: "\<not> is_digit CHR ''=''" "\<not> is_digit CHR '',''" "\<not> is_digit CHR 0x0A" "\<not> is_digit CHR ''d''"
  by (simp_all add: is_digit_def byte_def)

lemma split_setting: "CHR ''='' \<notin> set k \<Longrightarrow> split ''='' (k @ CHR ''='' # dec w) = [k, dec w]"
  by (simp add: split_char_append split_char_no_sep dec_no no_digit)

lemma Atoi_value_dec:
  assumes "LENGTH('a) \<le> 63" shows "Atoi_value (dec (w :: 'a::len word)) = uint w"
  using Atoi_dec[OF assms, of w]
  by (auto simp: Atoi_def Atoi_value_def num_result_def split: sum.splits num_error.splits)

lemma of_int_uint: "(word_of_int (uint (w :: 'a::len word)) :: 'b::len word) = ucast w"
  by (rule ucast_eq[symmetric])

lemma zone_field_dec:
  assumes "CHR ''='' \<notin> set k" and "LENGTH('a) \<le> 63"
  shows "zone_fields ((k @ CHR ''='' # dec (w :: 'a::len word)) # fs) z = zone_fields fs (z(k \<mapsto> ucast w))"
  using assms by (simp add: split_setting Atoi_value_dec of_int_uint)

lemma split_zone_text:
  "split '','' (zone_text (n, l, k)) =
     [''zone'' @ CHR ''='' # dec n, ''limit'' @ CHR ''='' # dec l, ''count'' @ CHR ''='' # dec k]"
proof -
  have c: "CHR '','' \<notin> set (k @ CHR ''='' # dec w)" if "CHR '','' \<notin> set k" for k and w :: "'a::len word"
    using that by (simp add: dec_no no_digit)
  have t: "zone_text (n, l, k) =
      (''zone'' @ CHR ''='' # dec n) @ CHR '','' # (''limit'' @ CHR ''='' # dec l) @ CHR '','' # (''count'' @ CHR ''='' # dec k)"
    by (simp add: zone_text_def)
  show ?thesis
    unfolding t by (subst split_char_append, rule c, simp, subst split_char_append, rule c, simp,
      subst split_char_no_sep, rule c, simp_all)
qed

lemma zone_text_read: "zone_fields (split '','' (zone_text z)) Map.empty = Inr (zone_limit z)"
proof -
  obtain n l k where z: "z = (n, l, k)" by (cases z)
  show ?thesis
    unfolding z split_zone_text
    by (subst zone_field_dec, simp, simp)+ (simp add: zone_limit_def)
qed

lemma zone_text_no_default: "\<not> contains (zone_text z) ''default''"
proof -
  obtain n l k where z: "z = (n, l, k)" by (cases z)
  have "CHR ''d'' \<notin> set (zone_text z)" by (simp add: z zone_text_def dec_no no_digit)
  then show ?thesis unfolding contains_iff using set_mono_sublist[of "''default''" "zone_text z"] by auto
qed

text \<open>Without a default line the loop passes all entries; with one it takes out the first entry.\<close>

lemma default_loop_pass:
  "list_all (\<lambda>e. \<not> contains e ''default'') (drop i es) \<Longrightarrow> default_loop i es len d = Inr (d, take len es)"
proof (induction "length es - i" arbitrary: i)
  case 0
  then show ?case by (subst default_loop.simps) simp
next
  case (Suc n)
  then have i: "i < length es" by simp
  then have "drop i es = es ! i # drop (Suc i) es" by (simp add: Cons_nth_drop_Suc)
  with Suc i show ?case by (subst default_loop.simps) simp
qed

lemma default_line_default: "contains (default_line d) ''default''"
  unfolding contains_iff default_line_def by (simp add: sublist_def) (metis append_Nil append_Cons)

lemma default_loop_first:
  assumes "list_all (\<lambda>e. \<not> contains e ''default'') es"
  shows "default_loop 0 (default_line d # es) (Suc (length es)) None = Inr (Some [''default'' \<mapsto> ucast d], es)"
proof -
  have a: "Atoi (dec d) = Inr (uint d)" by (rule Atoi_dec) simp
  have s: "split ''='' (default_line d) = [''default limit'', dec d]"
    using split_setting[of "''default limit''" d] by (simp add: default_line_def)
  let ?es = "es @ drop (length es) (default_line d # es)"
  have "default_loop 0 (default_line d # es) (Suc (length es)) None =
      default_loop 1 ?es (length es) (Some [''default'' \<mapsto> word_of_int (uint d)])"
    by (subst default_loop.simps) (simp add: default_line_default s a)
  also have "\<dots> = Inr (Some [''default'' \<mapsto> word_of_int (uint d)], take (length es) ?es)"
  proof (rule default_loop_pass)
    show "list_all (\<lambda>e. \<not> contains e ''default'') (drop 1 ?es)"
    proof (cases es rule: rev_cases)
      case (snoc fs l)
      then have "?es = fs @ [l, l]" by simp
      with assms snoc show ?thesis by (cases fs) auto
    qed simp
  qed
  finally show ?thesis by (simp add: of_int_uint)
qed

section \<open>The output is read\<close>

lemma join_ends:
  "ls \<noteq> [] \<Longrightarrow> \<forall>l \<in> set ls. l \<noteq> [] \<and> P (hd l) \<and> Q (last l) \<Longrightarrow>
   join sep ls \<noteq> [] \<and> P (hd (join sep ls)) \<and> Q (last (join sep ls))"
proof (induction ls)
  case (Cons l ls)
  then show ?case by (cases "ls = []") (auto simp: join_Cons)
qed simp

lemma line_ends:
  assumes "l \<in> set (limit_lines d zs)"
  shows "l \<noteq> [] \<and> (byte (hd l) < 128 \<and> \<not> ascii_space (hd l)) \<and> (byte (last l) < 128 \<and> \<not> ascii_space (last l))"
proof -
  have d: "last (dec w) \<in> set (dec w)" "dec w \<noteq> []" for w :: "32 word" by (simp_all add: dec_not_Nil)
  have "byte c < 128 \<and> \<not> ascii_space c" if "is_digit c" for c
    using that by (auto simp: is_digit_def ascii_space_def byte_def)
  then have "byte (last (dec w)) < 128 \<and> \<not> ascii_space (last (dec w))" for w :: "32 word"
    using dec_chars[OF d(1)] by blast
  with assms d(2) show ?thesis
    by (auto simp: limit_lines_def default_line_def zone_text_def ascii_space_def byte_def split: option.splits)
qed

lemma line_no_lf: "l \<in> set (limit_lines d zs) \<Longrightarrow> CHR 0x0A \<notin> set l"
  by (auto simp: limit_lines_def default_line_def zone_text_def dec_no no_digit split: option.splits)

lemma trim_limits: "trim_space (limits_output d zs) = join [CHR 0x0A] (limit_lines d zs)"
proof (cases "limit_lines d zs = []")
  case True
  then show ?thesis by (simp add: limits_output_def trim_space_id)
next
  case False
  have "\<forall>l \<in> set (limit_lines d zs). l \<noteq> [] \<and> (byte (hd l) < 128 \<and> \<not> ascii_space (hd l)) \<and>
      (byte (last l) < 128 \<and> \<not> ascii_space (last l))"
    using line_ends by blast
  from join_ends[OF False this, of "[CHR 0x0A]"] show ?thesis
    unfolding limits_output_def concat_commas[OF False] by (intro trim_space_lf) simp_all
qed

lemma zone_texts_read: "zone_entries (map zone_text zs) = Inr (map zone_limit zs)"
  unfolding zone_entries_def mapR_map by (rule mapR_all_Inr) (rule zone_text_read)

lemma parse_limits_lines:
  "parse_limits (join [CHR 0x0A] (limit_lines d zs)) =
     (if limit_lines d zs = [] then Inl index_panic
      else Inr \<lparr>defaultLimit = map_option (\<lambda>x. [''default'' \<mapsto> ucast x]) d, zoneLimits = map zone_limit zs\<rparr>)"
proof (cases "limit_lines d zs = []")
  case True
  have "default_loop 0 [[]] (Suc 0) None = Inr (None, [[]])"
    using default_loop_pass[of 0 "[[]]" 1 None] by (simp add: contains_iff)
  with True show ?thesis by (simp add: parse_limits_def zone_entries_def)
next
  case False
  have z: "list_all (\<lambda>e. \<not> contains e ''default'') (map zone_text zs)"
    by (simp add: list_all_iff zone_text_no_default)
  have sp: "split [CHR 0x0A] (join [CHR 0x0A] (limit_lines d zs)) = limit_lines d zs"
    using False line_no_lf by (intro split_join) (auto simp: list_all_iff)
  show ?thesis
  proof (cases d)
    case None
    with z False default_loop_pass[of 0 "map zone_text zs" "length zs" None] show ?thesis
      unfolding parse_limits_def Let_def sp by (simp add: limit_lines_def zone_texts_read)
  next
    case (Some x)
    with z False default_loop_first[OF z, of x] show ?thesis
      unfolding parse_limits_def Let_def sp by (simp add: limit_lines_def zone_texts_read)
  qed
qed

text \<open>
  C22.  \<open>GetCTLimits\<close> returns the default limit and the limits of the zones that \<open>ovs-dpctl\<close> printed, each
  zone with its number, limit and count, in the order of the lines; when nothing was printed it panics.
\<close>

theorem GetCTLimits_reads_output:
  assumes "execFunc c (fst (command_line c ''ovs-dpctl'' args)) (snd (command_line c ''ovs-dpctl'' args)) w =
      ((limits_output d zs, None), w')"
    and "args = [''ct-get-limits'', dp] @ (if zones = [] then [] else [getZoneString zones])" and "dp \<noteq> []"
  shows "GetCTLimits (DpCLI_Exec (Some c)) dp zones w =
    (if d = None \<and> zs = [] then Inl index_panic
     else Inr \<lparr>defaultLimit = map_option (\<lambda>x. [''default'' \<mapsto> ucast x]) d, zoneLimits = map zone_limit zs\<rparr>, w')"
proof -
  have "getZoneString zones = [] \<longleftrightarrow> zones = []" by (cases zones) (simp_all add: getZoneString_def)
  then have "GetCTLimits (DpCLI_Exec (Some c)) dp zones w =
      (case Client_exec c ''ovs-dpctl'' args w of (Inl e, w') \<Rightarrow> (Inl e, w') | (Inr r, w') \<Rightarrow> (parse_limits r, w'))"
    using assms(2,3) by (simp add: GetCTLimits_def DpCLI_Exec_def)
  also have "\<dots> = (parse_limits (join [CHR 0x0A] (limit_lines d zs)), w')"
    by (simp add: Client_exec_ok[OF assms(1)] trim_limits)
  finally have "GetCTLimits (DpCLI_Exec (Some c)) dp zones w = (parse_limits (join [CHR 0x0A] (limit_lines d zs)), w')" .
  moreover have "limit_lines d zs = [] \<longleftrightarrow> d = None \<and> zs = []" by (cases d) (simp_all add: limit_lines_def)
  ultimately show ?thesis by (simp add: parse_limits_lines)
qed

definition limits_client :: "unit Client" where
  "limits_client =
     New (\<lambda>cmd args w. ((limits_output (Some 200) [(2, 100, 7), (3, 0, 0)], None), w)) (\<lambda>stdin cmd args w. (([], None), w)) [Sudo]"

lemma GetCTLimits_reads_output_witness:
  "GetCTLimits (DpCLI_Exec (Some limits_client)) ''system@ovs-system'' [2, 3] () =
    (Inr \<lparr>defaultLimit = Some [''default'' \<mapsto> 200],
          zoneLimits = [[''zone'' \<mapsto> 2, ''limit'' \<mapsto> 100, ''count'' \<mapsto> 7], [''zone'' \<mapsto> 3, ''limit'' \<mapsto> 0, ''count'' \<mapsto> 0]]\<rparr>, ())"
proof -
  let ?args = "[''ct-get-limits'', ''system@ovs-system''] @ (if [2, 3] = ([] :: uint64 list) then [] else [getZoneString [2, 3]])"
  have "execFunc limits_client a b () = ((limits_output (Some 200) [(2, 100, 7), (3, 0, 0)], None), ())" for a b
    by (simp add: limits_client_def New_def Sudo_def)
  from GetCTLimits_reads_output[OF this refl, of "''system@ovs-system''" "[2, 3]"]
  show ?thesis by (simp add: zone_limit_def)
qed

section \<open>Setting limits\<close>

text \<open>The keys of the map that \<open>SetCTLimits\<close> looks at; the others are ignored.\<close>

definition limit_keys :: "(string \<times> uint64) list \<Rightarrow> string set" where
  "limit_keys zone = set (map fst zone) \<inter> {''default'', ''zone'', ''limit''}"

lemma length_limit_args:
  assumes "distinct (map fst zone)"
  shows "length (limit_args zone) = card (limit_keys zone)"
proof -
  let ?K = "{''default'', ''zone'', ''limit''}"
  have "length (limit_args zone) = length (filter (\<lambda>k. k \<in> ?K) (map fst zone))"
    by (induction zone) (auto simp: limit_args_def)
  also have "\<dots> = card (set (filter (\<lambda>k. k \<in> ?K) (map fst zone)))"
    using assms by (intro distinct_card[symmetric] distinct_filter)
  also have "set (filter (\<lambda>k. k \<in> ?K) (map fst zone)) = limit_keys zone"
    by (auto simp: limit_keys_def)
  finally show ?thesis .
qed

lemma default_limit_key: "list_ex (\<lambda>(k, v). k = ''default'') zone \<longleftrightarrow> ''default'' \<in> limit_keys zone"
  by (force simp: list_ex_iff limit_keys_def)

lemma subset_of_three:
  "S \<subseteq> {a, b, c} \<Longrightarrow> S = {} \<or> S = {a} \<or> S = {b} \<or> S = {c} \<or> S = {a, b} \<or> S = {a, c} \<or> S = {b, c} \<or> S = {a, b, c}"
  by (cases "a \<in> S"; cases "b \<in> S"; cases "c \<in> S") blast+

text \<open>
  Whatever the order is in which the map is visited, \<open>SetCTLimits\<close> accepts it exactly when it has the default alone, or
  the zone and the limit without the default, beside other keys that are ignored.
\<close>

theorem SetCTLimits_accepts:
  assumes "distinct (map fst zone)"
  shows "(case ctSetLimitsArgsToString zone of Inl _ \<Rightarrow> False | Inr _ \<Rightarrow> True) =
    (limit_keys zone = {''default''} \<or> limit_keys zone = {''zone'', ''limit''})"
proof -
  have ne: "{''default'', ''zone'', ''limit''} \<noteq> {''zone'', ''limit''}"
  proof
    assume e: "{''default'', ''zone'', ''limit''} = {''zone'', ''limit''}"
    have "''default'' \<in> {''default'', ''zone'', ''limit''}" by (rule insertI1)
    then show False unfolding e by simp
  qed
  have "limit_keys zone \<subseteq> {''default'', ''zone'', ''limit''}" by (simp add: limit_keys_def)
  from subset_of_three[OF this] show ?thesis
    unfolding ctSetLimitsArgsToString_def Let_def length_limit_args[OF assms] default_limit_key
    by (elim disjE) (simp_all add: doubleton_eq_iff ne)
qed

lemma SetCTLimits_accepts_witness:
  "(case ctSetLimitsArgsToString [(''limit'', 5), (''zone'', 2)] of Inl _ \<Rightarrow> False | Inr _ \<Rightarrow> True) =
   (limit_keys [(''limit'', 5), (''zone'', 2)] = {''default''} \<or> limit_keys [(''limit'', 5), (''zone'', 2)] = {''zone'', ''limit''})"
  by (rule SetCTLimits_accepts) simp
end
