(* ===== verification/ProtoTrace.thy ===== *)
theory ProtoTrace
  imports Client MatchParser GoScan
begin

text \<open>
  \<open>ovs/app.go\<close> and \<open>ovs/proto_trace.go\<close>: the service that runs \<open>ovs-appctl ofproto/trace\<close>, and the reader of
  its output.  A Go value that is filled by \<open>UnmarshalText\<close> is an argument and a result.  The patterns
  are those of theory \<open>GoScan\<close>; where the code only asks whether a literal pattern matches, it is the
  search for a substring.
\<close>

section \<open>Patterns\<close>

definition any_char :: "char \<Rightarrow> bool" where "any_char c \<longleftrightarrow> c \<noteq> CHR 0x0A"
definition alpha :: "char \<Rightarrow> bool" where
  "alpha c \<longleftrightarrow> 65 \<le> byte c \<and> byte c \<le> 90 \<or> 97 \<le> byte c \<and> byte c \<le> 122"
definition blank :: "char \<Rightarrow> bool" where "blank c \<longleftrightarrow> c = CHR '' ''"

(* src: ovs/proto_trace.go 30-30 datapathActionsRegexp *)
definition datapathActionsRegexp :: "re_item list" where
  "datapathActionsRegexp = [Lit ''Datapath actions: '', Rep any_char 0]"
(* src: ovs/proto_trace.go 31-31 initialFlowRegexp *)
definition initialFlowRegexp :: "re_item list" where
  "initialFlowRegexp = [Lit ''Flow: '', Rep any_char 0]"
(* src: ovs/proto_trace.go 32-32 finalFlowRegexp *)
definition finalFlowRegexp :: "re_item list" where
  "finalFlowRegexp = [Lit ''Final flow: '', Rep any_char 0]"
(* src: ovs/proto_trace.go 33-33 megaFlowRegexp *)
definition megaFlowRegexp :: "re_item list" where
  "megaFlowRegexp = [Lit ''Megaflow: '', Rep any_char 0]"
(* src: ovs/proto_trace.go 34-34 traceStartRegexp *)
definition traceStartRegexp :: "re_item list" where
  "traceStartRegexp = [Lit (''bridge('' @ [CHR 0x22]), Rep any_char 0, Lit (CHR 0x22 # '')'')]"

text \<open>
  One letter and then anything is at least one letter and then anything; the text of the group is the two
  captures together.
\<close>

(* src: ovs/proto_trace.go 35-35 traceFlowRegexp *)
definition traceFlowRegexp :: "re_item list" where
  "traceFlowRegexp = [Rep blank 0, Rep is_digit 1, Lit ''. '', Rep alpha 1, Rep any_char 0]"
(* src: ovs/proto_trace.go 36-36 traceActionRegexp *)
definition traceActionRegexp :: "re_item list" where
  "traceActionRegexp = [Rep blank 1, Rep alpha 1, Rep any_char 0]"
(* src: ovs/proto_trace.go 39-39 ctCommentRegexp *)
definition ctCommentRegexp :: "re_item list" where
  "ctCommentRegexp = [Rep (\<lambda>c. \<not> not_space c) 1, Lit ''->'']"

section \<open>Flows of a trace\<close>

(* src: ovs/proto_trace.go type DataPathFlows *)
record DataPathFlows =
  DProtocol :: string
  DMatches :: "match list"

(* src: ovs/flow.go 45-53 Protocol: its values *)
definition protocols :: "string list" where
  "protocols = [''arp'', ''icmp'', ''icmp6'', ''ip'', ''ipv6'', ''tcp'', ''tcp6'', ''udp'', ''udp6'']"

(* src: ovs/proto_trace.go 50-50 localPort *)
abbreviation localPort :: int where "localPort \<equiv> 65534"

text \<open>One element of the text.\<close>

(* src: ovs/proto_trace.go 88-130 DataPathFlows.UnmarshalText: the body of the loop *)
definition unmarshal_dp_match :: "string \<Rightarrow> DataPathFlows \<Rightarrow> DataPathFlows \<times> go_error option" where
  "unmarshal_dp_match m df =
     (if m \<in> set protocols then (df\<lparr>DProtocol := m\<rparr>, None)
      else if m = ''eth'' \<or> m = ''unchanged'' \<or> contains m ''recirc_id='' then (df, None)
      else
        (case split ''='' m of
           [k, v] \<Rightarrow>
             if trim_space k = inPort \<and> trim_space v = ''LOCAL''
             then (df\<lparr>DMatches := DMatches df @ [InPortMatch localPort]\<rparr>, None)
             else (case parseMatch k v of
                 Inl e \<Rightarrow> (df, Some e)
               | Inr None \<Rightarrow> (df, None)
               | Inr (Some mt) \<Rightarrow> (df\<lparr>DMatches := DMatches df @ [mt]\<rparr>, None))
         | _ \<Rightarrow> (df, Some (ErrMatchFormat m))))"

fun unmarshal_dp_matches :: "string list \<Rightarrow> DataPathFlows \<Rightarrow> DataPathFlows \<times> go_error option" where
  "unmarshal_dp_matches [] df = (df, None)"
| "unmarshal_dp_matches (m # ms) df =
     (case unmarshal_dp_match m df of
        (df', Some e) \<Rightarrow> (df', Some e)
      | (df', None) \<Rightarrow> unmarshal_dp_matches ms df')"

text \<open>\<open>strings.Split\<close> never returns an empty slice: the first check of the code never fails.\<close>

(* src: ovs/proto_trace.go func DataPathFlows.UnmarshalText *)
definition DataPathFlows_UnmarshalText :: "DataPathFlows \<Rightarrow> string \<Rightarrow> DataPathFlows \<times> go_error option" where
  "DataPathFlows_UnmarshalText df b = unmarshal_dp_matches (split '','' b) df"

section \<open>Traces\<close>

text \<open>The interface \<open>DataPathActions\<close> has one implementation, which holds a text.\<close>

(* src: ovs/proto_trace.go type dataPathActions *)
record dataPathActions =
  actions :: string

(* src: ovs/proto_trace.go func NewDataPathActions *)
definition NewDataPathActions :: "string \<Rightarrow> dataPathActions" where
  "NewDataPathActions a = \<lparr>actions = a\<rparr>"

(* src: ovs/proto_trace.go func dataPathActions.UnmarshalText *)
definition dataPathActions_UnmarshalText :: "dataPathActions \<Rightarrow> string \<Rightarrow> dataPathActions \<times> go_error option" where
  "dataPathActions_UnmarshalText d b = (d\<lparr>actions := b\<rparr>, None)"

(* src: ovs/proto_trace.go type ProtoTrace *)
record ProtoTrace =
  CommandStr :: string
  InputFlow :: "DataPathFlows option"
  FinalFlow :: "DataPathFlows option"
  TActions :: "dataPathActions option"
  FlowActions :: "string list"
  RawOutput :: string

text \<open>\<open>FindStringSubmatch\<close>, the match itself left out.\<close>

(* src: ovs/proto_trace.go func checkMatch *)
definition checkMatch :: "re_item list \<Rightarrow> string \<Rightarrow> string list option" where
  "checkMatch re s = re_find re s"

text \<open>A flow that is read from a line into a new value.\<close>

definition new_flow :: "string \<Rightarrow> go_error + DataPathFlows" where
  "new_flow t =
     (case DataPathFlows_UnmarshalText \<lparr>DProtocol = [], DMatches = []\<rparr> t of
        (_, Some e) \<Rightarrow> Inl e
      | (f, None) \<Rightarrow> Inr f)"

(* src: ovs/proto_trace.go 149-217 ProtoTrace.UnmarshalText: the body of the loop *)
definition trace_line :: "string \<Rightarrow> ProtoTrace \<Rightarrow> ProtoTrace \<times> go_error option" where
  "trace_line line pt =
     (case checkMatch datapathActionsRegexp line of
        Some ms \<Rightarrow>
          (let pt = (if contains line ''recirc('' then pt\<lparr>FlowActions := FlowActions pt @ [''recirc'']\<rparr> else pt)
           in (pt\<lparr>TActions := Some \<lparr>actions = hd ms\<rparr>\<rparr>, None))
      | None \<Rightarrow>
      case checkMatch initialFlowRegexp line of
        Some ms \<Rightarrow>
          (case new_flow (hd ms) of Inl e \<Rightarrow> (pt, Some e) | Inr f \<Rightarrow> (pt\<lparr>InputFlow := Some f\<rparr>, None))
      | None \<Rightarrow>
      case checkMatch finalFlowRegexp line of
        Some ms \<Rightarrow>
          (case new_flow (hd ms) of Inl e \<Rightarrow> (pt, Some e) | Inr f \<Rightarrow> (pt\<lparr>FinalFlow := Some f\<rparr>, None))
      | None \<Rightarrow>
      if checkMatch megaFlowRegexp line \<noteq> None \<or> checkMatch traceStartRegexp line \<noteq> None \<or>
         checkMatch traceFlowRegexp line \<noteq> None then (pt, None)
      else if re_match ctCommentRegexp line \<noteq> None \<or> contains line ''thaw'' \<or>
         contains line ''Resuming from table'' \<or> contains line ''resume conntrack with'' \<or>
         contains line ''native tunnel'' then (pt, None)
      else (case checkMatch traceActionRegexp line of
          Some ms \<Rightarrow> (pt\<lparr>FlowActions := FlowActions pt @ [ms ! 1 @ ms ! 2]\<rparr>, None)
        | None \<Rightarrow> (pt, None)))"

fun trace_lines :: "string list \<Rightarrow> ProtoTrace \<Rightarrow> ProtoTrace \<times> go_error option" where
  "trace_lines [] pt = (pt, None)"
| "trace_lines (l # ls) pt =
     (case trace_line l pt of (pt', Some e) \<Rightarrow> (pt', Some e) | (pt', None) \<Rightarrow> trace_lines ls pt')"

(* src: ovs/proto_trace.go func ProtoTrace.UnmarshalText *)
definition ProtoTrace_UnmarshalText :: "ProtoTrace \<Rightarrow> string \<Rightarrow> ProtoTrace \<times> go_error option" where
  "ProtoTrace_UnmarshalText pt b = trace_lines (split [CHR 0x0A] b) pt"

section \<open>The service\<close>

(* src: ovs/app.go func AppService.exec *)
definition appctl_exec :: "'w Client \<Rightarrow> string list \<Rightarrow> ('w, string result) io" where
  "appctl_exec c args = Client_exec c ''ovs-appctl'' args"

(* src: ovs/app.go func AppService.ProtoTrace *)
definition AppService_ProtoTrace ::
    "'w Client \<Rightarrow> string \<Rightarrow> string \<Rightarrow> match list \<Rightarrow> string list \<Rightarrow> ('w, ProtoTrace result) io" where
  "AppService_ProtoTrace c bridge protocol ms params w =
     (case mapR match_MarshalText ms of
        Inl e \<Rightarrow> (Inl e, w)
      | Inr texts \<Rightarrow>
          (let matchFlows = (if protocol \<noteq> [] then [protocol] else []) @ texts;
               args = [''ofproto/trace'', bridge, join '','' matchFlows] @ params
           in case appctl_exec c args w of
                (Inl e, w') \<Rightarrow> (Inl e, w')
              | (Inr out, w') \<Rightarrow>
                  (case ProtoTrace_UnmarshalText
                      \<lparr>CommandStr = ''ovs-appctl '' @ join '' '' args, InputFlow = None, FinalFlow = None,
                       TActions = None, FlowActions = [], RawOutput = out\<rparr> out of
                     (pt, Some e) \<Rightarrow> (Inl e, w')
                   | (pt, None) \<Rightarrow> (Inr pt, w'))))"

end
