(* ===== verification/ProtoTraceProps.thy ===== *)
theory ProtoTraceProps
  imports ProtoTrace
begin

text \<open>
  The output of \<open>ofproto/trace\<close>, line by line, and what the reader makes of it.
\<close>

section \<open>Lines of a trace\<close>

text \<open>
  The flow that is traced and the one that comes out, the bridge, a rule of a table with its text, an
  action, the megaflow, the actions of the datapath, a ruler or an empty line, and the remarks: those behind an arrow, and
  those about the connection tracker and tunnels.
\<close>

datatype (plugins only: code size) tline =
    TFlow nat string
  | TFinal string
  | TBridge string
  | TRule nat nat string
  | TAction string
  | TMegaflow string
  | TDatapath string
  | TRuler char nat
  | TArrow string string
  | TRemark string string string

fun tline_text :: "tline \<Rightarrow> string" where
  "tline_text (TFlow n t) = replicate n (CHR '' '') @ ''Flow: '' @ t"
| "tline_text (TFinal t) = ''Final flow: '' @ t"
| "tline_text (TBridge t) = ''bridge('' @ CHR 0x22 # t @ CHR 0x22 # '')''"
| "tline_text (TRule k n t) = replicate k (CHR '' '') @ fmt_nat 10 n @ ''. '' @ t"
| "tline_text (TAction t) = ''    '' @ t"
| "tline_text (TMegaflow t) = ''Megaflow: '' @ t"
| "tline_text (TDatapath t) = ''Datapath actions: '' @ t"
| "tline_text (TRuler c n) = replicate n c"
| "tline_text (TArrow u t) = u @ ''->'' @ t"
| "tline_text (TRemark u k t) = u @ k @ t"

text \<open>
  The texts in a line must not look like the words by which the code tells the lines apart.
\<close>

definition marks :: "string list" where
  "marks = [''Datapath actions: '', ''Flow: '', ''Final flow: '', ''Megaflow: '', ''bridge('' @ [CHR 0x22]]"

definition comments :: "string list" where
  "comments = [''thaw'', ''Resuming from table'', ''resume conntrack with'', ''native tunnel'']"

definition no_words :: "string list \<Rightarrow> string \<Rightarrow> bool" where
  "no_words ks s \<longleftrightarrow> list_all (\<lambda>k. \<not> contains s k) ks"

fun tline_ok :: "tline \<Rightarrow> bool" where
  "tline_ok (TFlow n t) = no_words [''Datapath actions: ''] (tline_text (TFlow n t))"
| "tline_ok (TFinal t) = no_words [''Datapath actions: '', ''Flow: ''] (tline_text (TFinal t))"
| "tline_ok (TBridge t) = no_words (take 4 marks) (tline_text (TBridge t))"
| "tline_ok (TRule k n t) = (t \<noteq> [] \<and> alpha (hd t) \<and> no_words marks (tline_text (TRule k n t)))"
| "tline_ok (TAction t) = (t \<noteq> [] \<and> alpha (hd t) \<and> no_words (''. '' # marks @ comments) (tline_text (TAction t)))"
| "tline_ok (TMegaflow t) = no_words (take 3 marks) (tline_text (TMegaflow t))"
| "tline_ok (TRuler c n) = (c \<in> {CHR ''-'', CHR ''=''})"
| "tline_ok (TArrow u t) =
     (u \<noteq> [] \<and> list_all (\<lambda>c. \<not> not_space c) u \<and> no_words (take 3 marks) (tline_text (TArrow u t)))"
| "tline_ok (TRemark u k t) = (k \<in> set comments \<and> no_words (take 3 marks) (tline_text (TRemark u k t)))"
| "tline_ok (TDatapath t) = True"

text \<open>What a line adds to the trace, or the error of a flow that is not read.\<close>

fun tline_effect :: "tline \<Rightarrow> ProtoTrace \<Rightarrow> ProtoTrace result" where
  "tline_effect (TFlow n t) pt = (case new_flow t of Inl e \<Rightarrow> Inl e | Inr f \<Rightarrow> Inr (pt\<lparr>InputFlow := Some f\<rparr>))"
| "tline_effect (TFinal t) pt = (case new_flow t of Inl e \<Rightarrow> Inl e | Inr f \<Rightarrow> Inr (pt\<lparr>FinalFlow := Some f\<rparr>))"
| "tline_effect (TAction t) pt = Inr (pt\<lparr>FlowActions := FlowActions pt @ [t]\<rparr>)"
| "tline_effect (TDatapath t) pt =
     Inr (pt\<lparr>TActions := Some (NewDataPathActions t),
             FlowActions := FlowActions pt @ (if contains t ''recirc('' then [''recirc''] else [])\<rparr>)"
| "tline_effect _ pt = Inr pt"

section \<open>The patterns on the lines\<close>

lemma checkMatch_none: "\<not> contains s k \<Longrightarrow> checkMatch (Lit k # r) s = None"
  unfolding checkMatch_def contains_iff by (rule re_find_None)

lemma checkMatch_prefix:
  assumes "list_all any_char t" shows "checkMatch [Lit k, Rep any_char 0] (k @ t) = Some [t]"
proof -
  have "re_match [Rep any_char 0] t = Some [t]"
    using assms by (intro re_match_Rep_end) (simp_all add: list_all_iff)
  then have "re_match [Lit k, Rep any_char 0] (k @ t) = Some [t]" by simp
  then show ?thesis unfolding checkMatch_def by (rule re_find_prefix)
qed

text \<open>A literal of a pattern is in every text that it matches.\<close>

lemma re_match_lit: "re_match r s = Some cs \<Longrightarrow> Lit l \<in> set r \<Longrightarrow> sublist l s"
proof (induction r arbitrary: s cs)
  case (Cons i r)
  have rest: "\<exists>k cs. re_match r (drop k s) = Some cs \<or> i = Lit l \<and> prefix l s"
  proof (cases i)
    case (Lit x)
    with Cons.prems show ?thesis by (auto split: if_splits)
  next
    case (Rep p n)
    with Cons.prems(1) have "first_some (\<lambda>k. map_option (\<lambda>cs. take k s # cs) (re_match r (drop k s)))
        (rev [n..<Suc (length (takeWhile p s))]) \<noteq> None" by simp
    then show ?thesis unfolding first_some_None by auto
  qed
  show ?case
  proof (cases "i = Lit l \<and> prefix l s")
    case True
    then show ?thesis by simp
  next
    case False
    show ?thesis
    proof (cases i)
      case (Lit x)
      with Cons.prems have p: "re_match r (drop (length x) s) = Some cs" "prefix x s" by (auto split: if_splits)
      with False Cons.prems(2) Lit have "Lit l \<in> set r" by auto
      with Cons.IH[OF p(1)] show ?thesis by (meson sublist_drop sublist_order.order.trans)
    next
      case (Rep p n)
      with rest obtain k ds where "re_match r (drop k s) = Some ds" by auto
      moreover have "Lit l \<in> set r" using Cons.prems(2) Rep by simp
      ultimately have "sublist l (drop k s)" by (rule Cons.IH)
      then show ?thesis by (meson sublist_drop sublist_order.order.trans)
    qed
  qed
qed simp

lemma re_find_suffix: "re_find r s = Some cs \<Longrightarrow> \<exists>i. re_match r (drop i s) = Some cs"
proof (induction s)
  case Nil
  then show ?case by (simp add: re_find.simps)
next
  case (Cons c s)
  show ?case
  proof (cases "re_match r (c # s)")
    case None
    with Cons obtain i where "re_match r (drop i s) = Some cs" by (auto simp: re_find.simps)
    then show ?thesis by (intro exI[of _ "Suc i"]) simp
  next
    case (Some ds)
    with Cons.prems have "re_match r (drop 0 (c # s)) = Some cs" by (simp add: re_find.simps)
    then show ?thesis by blast
  qed
qed

lemma checkMatch_lit: "\<not> contains s l \<Longrightarrow> Lit l \<in> set r \<Longrightarrow> checkMatch r s = None"
  unfolding checkMatch_def contains_iff
  by (metis option.exhaust re_find_suffix re_match_lit sublist_drop sublist_order.order.trans)

text \<open>A repetition takes all it can when the rest of the pattern matches then.\<close>

lemma re_match_longest:
  assumes "re_match r (dropWhile p s) = Some cs" and "n \<le> length (takeWhile p s)"
  shows "re_match (Rep p n # r) s = Some (takeWhile p s # cs)"
proof -
  let ?m = "length (takeWhile p s)"
  have d: "drop ?m s = dropWhile p s" "take ?m s = takeWhile p s"
    by (simp_all add: dropWhile_eq_drop[symmetric] takeWhile_eq_take[symmetric])
  have "rev [n..<Suc ?m] = ?m # rev [n..<?m]" using assms(2) by simp
  with assms(1) d show ?thesis by (simp del: upt_Suc)
qed

lemma re_match_some:
  assumes "n \<le> k" and "k \<le> length (takeWhile p s)" and "re_match r (drop k s) \<noteq> None"
  shows "re_match (Rep p n # r) s \<noteq> None"
  using assms by (auto simp: first_some_None simp del: upt_Suc)

lemma re_match_needs: "re_match (Rep p (Suc n) # r) s = Some cs \<Longrightarrow> s \<noteq> [] \<and> p (hd s)"
  by (cases s) (auto split: if_splits)

lemma any_rest: "re_match [Rep any_char 0] s = Some [takeWhile any_char s]"
  by (rule re_match_longest) simp_all

section \<open>The lines are read\<close>

lemma alpha_no_blank: "alpha c \<Longrightarrow> \<not> blank c \<and> not_space c \<and> c \<noteq> CHR ''-''"
  by (auto simp: alpha_def blank_def not_space_def byte_def)

lemmas trace_patterns =
  datapathActionsRegexp_def initialFlowRegexp_def finalFlowRegexp_def megaFlowRegexp_def traceStartRegexp_def
  traceFlowRegexp_def

lemma no_marks:
  assumes "no_words ks s" and "Lit k \<in> set r" and "k \<in> set ks" shows "checkMatch r s = None"
  using assms by (intro checkMatch_lit[of s k]) (auto simp: no_words_def list_all_iff)

lemma datapath_recirc: "contains (''Datapath actions: '' @ t) ''recirc('' \<longleftrightarrow> contains t ''recirc(''"
proof -
  have n: "CHR '' '' \<notin> set ''recirc(''" by simp
  have "\<not> sublist ''recirc('' ''Datapath actions:''" by (simp add: sublist_Cons_right)
  moreover have "sublist ''recirc('' (''Datapath actions:'' @ CHR '' '' # t) \<Longrightarrow>
      sublist ''recirc('' ''Datapath actions:'' \<or> sublist ''recirc('' t"
    by (rule sublist_around[OF _ n])
  moreover have "sublist t (''Datapath actions:'' @ CHR '' '' # t)"
    by (simp add: sublist_Cons_right)
  ultimately show ?thesis unfolding contains_iff by (auto intro: sublist_order.order.trans)
qed

lemma read_datapath:
  assumes "list_all any_char t" shows "trace_line (tline_text (TDatapath t)) pt =
    (pt\<lparr>TActions := Some (NewDataPathActions t),
        FlowActions := FlowActions pt @ (if contains t ''recirc('' then [''recirc''] else [])\<rparr>, None)"
  using checkMatch_prefix[OF assms, of "''Datapath actions: ''"]
  by (simp add: trace_line_def datapathActionsRegexp_def datapath_recirc[simplified] NewDataPathActions_def)

lemma checkMatch_blanks:
  "c \<noteq> CHR '' '' \<Longrightarrow> checkMatch (Lit (c # k) # r) (replicate n (CHR '' '') @ s) = checkMatch (Lit (c # k) # r) s"
  unfolding checkMatch_def by (induction n) (simp_all add: re_find.simps)

lemma read_flow:
  assumes "list_all any_char t" and "tline_ok (TFlow n t)"
  shows "trace_line (tline_text (TFlow n t)) pt =
    (case new_flow t of Inl e \<Rightarrow> (pt, Some e) | Inr f \<Rightarrow> (pt\<lparr>InputFlow := Some f\<rparr>, None))"
proof -
  have "checkMatch datapathActionsRegexp (replicate n (CHR '' '') @ ''Flow: '' @ t) = None"
    using assms(2) by (intro no_marks[of "[''Datapath actions: '']"]) (simp_all add: trace_patterns)
  moreover have "checkMatch initialFlowRegexp (replicate n (CHR '' '') @ ''Flow: '' @ t) = Some [t]"
    using checkMatch_prefix[OF assms(1), of "''Flow: ''"] by (simp add: initialFlowRegexp_def checkMatch_blanks)
  ultimately show ?thesis by (simp add: trace_line_def)
qed

lemma read_final:
  assumes "list_all any_char t" and "tline_ok (TFinal t)"
  shows "trace_line (tline_text (TFinal t)) pt =
    (case new_flow t of Inl e \<Rightarrow> (pt, Some e) | Inr f \<Rightarrow> (pt\<lparr>FinalFlow := Some f\<rparr>, None))"
proof -
  have "checkMatch r (''Final flow: '' @ t) = None" if "r = datapathActionsRegexp \<or> r = initialFlowRegexp" for r
    using assms(2) that
    by (auto intro: no_marks[of "[''Datapath actions: '', ''Flow: '']" _ "''Datapath actions: ''"]
        no_marks[of "[''Datapath actions: '', ''Flow: '']" _ "''Flow: ''"] simp: trace_patterns)
  moreover have "checkMatch finalFlowRegexp (''Final flow: '' @ t) = Some [t]"
    using checkMatch_prefix[OF assms(1), of "''Final flow: ''"] by (simp add: finalFlowRegexp_def)
  ultimately show ?thesis by (simp add: trace_line_def)
qed

lemma first_none:
  assumes "no_words (take 3 marks) s"
  shows "checkMatch datapathActionsRegexp s = None \<and> checkMatch initialFlowRegexp s = None \<and>
    checkMatch finalFlowRegexp s = None"
  using no_marks[OF assms, of "''Datapath actions: ''" datapathActionsRegexp] no_marks[OF assms, of "''Flow: ''" initialFlowRegexp]
    no_marks[OF assms, of "''Final flow: ''" finalFlowRegexp]
  by (simp add: trace_patterns marks_def)

lemma no_words_mono: "no_words ks s \<Longrightarrow> set js \<subseteq> set ks \<Longrightarrow> no_words js s"
  by (auto simp: no_words_def list_all_iff)

lemma read_skipped:
  assumes "no_words (take 3 marks) s"
    and "checkMatch megaFlowRegexp s \<noteq> None \<or> checkMatch traceStartRegexp s \<noteq> None \<or> checkMatch traceFlowRegexp s \<noteq> None"
  shows "trace_line s pt = (pt, None)"
  using first_none[OF assms(1)] assms(2) by (simp add: trace_line_def)

lemma read_megaflow:
  assumes "list_all any_char t" and "tline_ok (TMegaflow t)"
  shows "trace_line (tline_text (TMegaflow t)) pt = (pt, None)"
  using assms checkMatch_prefix[OF assms(1), of "''Megaflow: ''"]
  by (intro read_skipped) (simp_all add: megaFlowRegexp_def)

lemma read_bridge:
  assumes "list_all any_char t" and "tline_ok (TBridge t)"
  shows "trace_line (tline_text (TBridge t)) pt = (pt, None)"
proof -
  let ?r = "[Lit (CHR 0x22 # '')'')]"
  have "length t \<le> length (takeWhile any_char (t @ CHR 0x22 # '')''))"
    using assms(1) by (simp add: list_all_iff takeWhile_append)
  then have "re_match (Rep any_char 0 # ?r) (t @ CHR 0x22 # '')'') \<noteq> None"
    by (intro re_match_some[of 0 "length t"]) simp_all
  then obtain cs where "re_match traceStartRegexp (tline_text (TBridge t)) = Some cs"
    by (auto simp: traceStartRegexp_def)
  from re_find_prefix[OF this] have "checkMatch traceStartRegexp (tline_text (TBridge t)) \<noteq> None"
    by (simp add: checkMatch_def)
  then show ?thesis
    using assms(2) by (intro read_skipped) (auto intro: no_words_mono simp: marks_def)
qed

lemma digits_of: "list_all is_digit (fmt_nat 10 n)" "fmt_nat 10 n \<noteq> []"
  using fmt_nat_10_digits[of n] by (simp_all add: list_all_iff)

lemma read_rule:
  assumes "tline_ok (TRule k n t)" shows "trace_line (tline_text (TRule k n t)) pt = (pt, None)"
proof -
  obtain c u where t: "t = c # u" "alpha c" using assms by (cases t) auto
  have d: "list_all is_digit (fmt_nat 10 n)" "fmt_nat 10 n \<noteq> []" by (rule digits_of)+
  have nb: "\<not> blank (hd (fmt_nat 10 n))" using d by (cases "fmt_nat 10 n") (auto simp: is_digit_def blank_def byte_def)
  have a: "re_match [Rep alpha 1, Rep any_char 0] t = Some [takeWhile alpha t, takeWhile any_char (dropWhile alpha t)]"
    using t by (intro re_match_longest any_rest) simp
  have l: "re_match [Lit ''. '', Rep alpha 1, Rep any_char 0] (''. '' @ t) \<noteq> None" using a by simp
  then obtain cs where cs: "re_match [Lit ''. '', Rep alpha 1, Rep any_char 0] (''. '' @ t) = Some cs" by blast
  have dot: "\<not> is_digit CHR ''.''" by (simp add: is_digit_def byte_def)
  have tw: "takeWhile is_digit (fmt_nat 10 n @ ''. '' @ t) = fmt_nat 10 n" "dropWhile is_digit (fmt_nat 10 n @ ''. '' @ t) = ''. '' @ t"
    using d(1) dot by (simp_all add: list_all_iff takeWhile_append dropWhile_append)
  have "re_match (Rep is_digit 1 # [Lit ''. '', Rep alpha 1, Rep any_char 0]) (fmt_nat 10 n @ ''. '' @ t) = Some (fmt_nat 10 n # cs)"
    using re_match_longest[of "[Lit ''. '', Rep alpha 1, Rep any_char 0]" is_digit "fmt_nat 10 n @ ''. '' @ t" cs 1] cs tw d(2)
    by (simp add: Suc_le_eq del: re_match.simps)
  moreover have "takeWhile blank (tline_text (TRule k n t)) = replicate k (CHR '' '')"
      "dropWhile blank (tline_text (TRule k n t)) = fmt_nat 10 n @ ''. '' @ t"
    using nb d(2) by (cases "fmt_nat 10 n"; simp add: blank_def takeWhile_append dropWhile_append)+
  ultimately have "re_match traceFlowRegexp (tline_text (TRule k n t)) = Some (replicate k (CHR '' '') # fmt_nat 10 n # cs)"
    unfolding traceFlowRegexp_def by (metis le0 re_match_longest)
  from re_find_prefix[OF this] have "checkMatch traceFlowRegexp (tline_text (TRule k n t)) \<noteq> None"
    by (simp add: checkMatch_def)
  then show ?thesis
    using assms by (intro read_skipped) (auto intro: no_words_mono simp: marks_def)
qed

lemma read_action_line:
  assumes "list_all any_char t" and "tline_ok (TAction t)"
  shows "trace_line (tline_text (TAction t)) pt = (pt\<lparr>FlowActions := FlowActions pt @ [t]\<rparr>, None)"
proof -
  let ?s = "tline_text (TAction t)"
  obtain c u where t: "t = c # u" "alpha c" using assms(2) by (cases t) auto
  note c = alpha_no_blank[OF t(2)]
  have ok: "no_words (''. '' # marks @ comments) ?s" using assms(2) by simp
  have none: "checkMatch datapathActionsRegexp ?s = None" "checkMatch initialFlowRegexp ?s = None"
    "checkMatch finalFlowRegexp ?s = None" "checkMatch megaFlowRegexp ?s = None" "checkMatch traceStartRegexp ?s = None"
    "checkMatch traceFlowRegexp ?s = None"
    using no_marks[OF ok, of "''Datapath actions: ''" datapathActionsRegexp] no_marks[OF ok, of "''Flow: ''" initialFlowRegexp]
      no_marks[OF ok, of "''Final flow: ''" finalFlowRegexp] no_marks[OF ok, of "''Megaflow: ''" megaFlowRegexp]
      no_marks[OF ok, of "''bridge('' @ [CHR 0x22]" traceStartRegexp] no_marks[OF ok, of "''. ''" traceFlowRegexp]
    by (simp_all add: trace_patterns marks_def)
  have com: "\<not> contains ?s k" if "k \<in> set comments" for k
    using ok that by (auto simp: no_words_def list_all_iff)
  have "takeWhile (\<lambda>c. \<not> not_space c) ?s = ''    ''" using t c by (simp add: not_space_def)
  then have arrow: "re_match ctCommentRegexp ?s = None"
    using t c by (auto simp: ctCommentRegexp_def not_space_def)
  have "re_match [Rep alpha 1, Rep any_char 0] t = Some [takeWhile alpha t, takeWhile any_char (dropWhile alpha t)]"
    using t by (intro re_match_longest any_rest) simp
  moreover have "takeWhile any_char (dropWhile alpha t) = dropWhile alpha t"
    using assms(1) set_dropWhileD[of _ alpha t] by (auto simp: takeWhile_eq_all_conv list_all_iff)
  moreover have "takeWhile blank ?s = ''    ''" "dropWhile blank ?s = t" using t c by (simp_all add: blank_def)
  ultimately have "re_match traceActionRegexp ?s = Some [''    '', takeWhile alpha t, dropWhile alpha t]"
    unfolding traceActionRegexp_def
    using re_match_longest[of "[Rep alpha 1, Rep any_char 0]" blank ?s _ 1] by (simp del: re_match.simps)
  from re_find_prefix[OF this] have "checkMatch traceActionRegexp ?s = Some [''    '', takeWhile alpha t, dropWhile alpha t]"
    by (simp add: checkMatch_def)
  with none arrow com show ?thesis
    by (simp add: trace_line_def comments_def del: tline_text.simps)
qed

lemma read_ruler:
  assumes "tline_ok (TRuler c n)"
  shows "trace_line (tline_text (TRuler c n)) pt = (pt, None)"
proof -
  let ?s = "replicate n c"
  have c: "c = CHR ''-'' \<or> c = CHR ''=''" using assms by simp
  have no: "\<not> contains ?s (d # k)" if "d \<noteq> CHR ''-''" "d \<noteq> CHR ''=''" for d k
    unfolding contains_iff using that c set_mono_sublist[of "d # k" ?s] by auto
  have lit: "checkMatch (Lit (d # k) # r) ?s = None" if "d \<noteq> CHR ''-''" "d \<noteq> CHR ''=''" for d k r
    using no[OF that] by (rule checkMatch_none)
  have rep: "checkMatch (Rep blank 1 # r) ?s = None" for r
  proof (rule ccontr)
    assume "checkMatch (Rep blank 1 # r) ?s \<noteq> None"
    then obtain cs where "re_find (Rep blank 1 # r) ?s = Some cs" by (auto simp: checkMatch_def)
    then obtain i where "re_match (Rep blank (Suc 0) # r) (drop i ?s) = Some cs" using re_find_suffix by fastforce
    from re_match_needs[OF this] c show False
      by (auto simp: blank_def)
  qed
  have "re_match ctCommentRegexp ?s = None"
    using c by (cases n) (auto simp: ctCommentRegexp_def not_space_def)
  moreover have "checkMatch traceFlowRegexp ?s = None"
    unfolding traceFlowRegexp_def by (rule checkMatch_lit[of _ "''. ''"]) (simp_all add: no)
  ultimately show ?thesis
    using no lit rep by (simp add: trace_line_def datapathActionsRegexp_def initialFlowRegexp_def finalFlowRegexp_def
      megaFlowRegexp_def traceStartRegexp_def traceActionRegexp_def)
qed

text \<open>The remarks are skipped, also where they look like an action.\<close>

lemma read_arrow:
  assumes "tline_ok (TArrow u t)"
  shows "trace_line (tline_text (TArrow u t)) pt = (pt, None)"
proof -
  have u: "u \<noteq> []" "\<forall>c \<in> set u. \<not> not_space c" using assms by (simp_all add: list_all_iff)
  have "re_match (Rep (\<lambda>c. \<not> not_space c) 1 # [Lit ''->'']) (u @ CHR ''-'' # ''>'' @ t) = Some (u # [])"
    by (rule re_match_Rep_delim) (use u in \<open>auto simp: not_space_def Suc_le_eq\<close>)
  then have "re_match ctCommentRegexp (tline_text (TArrow u t)) \<noteq> None" by (simp add: ctCommentRegexp_def)
  then show ?thesis
    using first_none[of "tline_text (TArrow u t)"] assms by (simp add: trace_line_def del: tline_text.simps)
qed

lemma read_remark:
  assumes "tline_ok (TRemark u k t)"
  shows "trace_line (tline_text (TRemark u k t)) pt = (pt, None)"
proof -
  have "k \<in> set comments" using assms by simp
  moreover have "contains (tline_text (TRemark u k t)) k" by (simp add: contains_iff)
  ultimately have "contains (tline_text (TRemark u k t)) ''thaw'' \<or> contains (tline_text (TRemark u k t)) ''Resuming from table'' \<or>
      contains (tline_text (TRemark u k t)) ''resume conntrack with'' \<or> contains (tline_text (TRemark u k t)) ''native tunnel''"
    by (auto simp: comments_def simp del: tline_text.simps)
  then show ?thesis
    using first_none[of "tline_text (TRemark u k t)"] assms by (simp add: trace_line_def del: tline_text.simps)
qed

section \<open>The whole output\<close>

text \<open>What the lines do, one after the other, up to the first error.\<close>

fun tline_effects :: "tline list \<Rightarrow> ProtoTrace \<Rightarrow> go_error + ProtoTrace" where
  "tline_effects [] pt = Inr pt"
| "tline_effects (l # ls) pt = (case tline_effect l pt of Inl e \<Rightarrow> Inl e | Inr pt' \<Rightarrow> tline_effects ls pt')"

lemma tline_chars:
  "CHR 0x0A \<notin> set (tline_text l) \<Longrightarrow>
   case l of TFlow n t \<Rightarrow> list_all any_char t | TFinal t \<Rightarrow> list_all any_char t | TBridge t \<Rightarrow> list_all any_char t
   | TAction t \<Rightarrow> list_all any_char t | TMegaflow t \<Rightarrow> list_all any_char t | TDatapath t \<Rightarrow> list_all any_char t
   | _ \<Rightarrow> True"
  by (cases l) (auto simp: list_all_iff any_char_def)

lemma trace_line_effect:
  assumes "tline_ok l" and "CHR 0x0A \<notin> set (tline_text l)"
  shows "case trace_line (tline_text l) pt of
      (pt', None) \<Rightarrow> tline_effect l pt = Inr pt'
    | (pt', Some e) \<Rightarrow> tline_effect l pt = Inl e"
proof -
  note c = tline_chars[OF assms(2)]
  show ?thesis
  proof (cases l)
    case (TFlow n t)
    with c read_flow[of t n pt] assms(1) show ?thesis by (cases "new_flow t") (simp_all del: tline_text.simps tline_ok.simps)
  next
    case (TFinal t)
    with c read_final[of t pt] assms(1) show ?thesis by (cases "new_flow t") (simp_all del: tline_text.simps tline_ok.simps)
  next
    case (TBridge t)
    with c read_bridge[of t pt] assms(1) show ?thesis by (simp del: tline_text.simps tline_ok.simps)
  next
    case (TRule k n t)
    with read_rule[of k n t pt] assms(1) show ?thesis by (simp del: tline_text.simps tline_ok.simps)
  next
    case (TAction t)
    with c read_action_line[of t pt] assms(1) show ?thesis by (simp del: tline_text.simps tline_ok.simps)
  next
    case (TMegaflow t)
    with c read_megaflow[of t pt] assms(1) show ?thesis by (simp del: tline_text.simps tline_ok.simps)
  next
    case (TDatapath t)
    with c read_datapath[of t pt] show ?thesis by (simp del: tline_text.simps)
  next
    case (TRuler d n)
    with read_ruler[of d n pt] assms(1) show ?thesis by (simp del: tline_text.simps tline_ok.simps)
  next
    case (TArrow u t)
    with read_arrow[of u t pt] assms(1) show ?thesis by (simp del: tline_text.simps tline_ok.simps)
  next
    case (TRemark u k t)
    with read_remark[of u k t pt] assms(1) show ?thesis by (simp del: tline_text.simps tline_ok.simps)
  qed
qed

lemma trace_lines_effects:
  assumes "list_all (\<lambda>l. tline_ok l \<and> CHR 0x0A \<notin> set (tline_text l)) ls"
  shows "case trace_lines (map tline_text ls) pt of
      (pt', None) \<Rightarrow> tline_effects ls pt = Inr pt'
    | (pt', Some e) \<Rightarrow> tline_effects ls pt = Inl e"
  using assms
proof (induction ls arbitrary: pt)
  case (Cons l ls)
  have l: "tline_ok l" "CHR 0x0A \<notin> set (tline_text l)" using Cons.prems by simp_all
  obtain pt' r where r: "trace_line (tline_text l) pt = (pt', r)" by (cases "trace_line (tline_text l) pt")
  show ?case
  proof (cases r)
    case None
    with trace_line_effect[OF l, of pt] r have "tline_effect l pt = Inr pt'" by simp
    with Cons.IH[of pt'] Cons.prems r None show ?thesis by (simp split: prod.splits option.splits)
  next
    case (Some e)
    with trace_line_effect[OF l, of pt] r show ?thesis by simp
  qed
qed simp

text \<open>
  C23.  From the output of \<open>ofproto/trace\<close> exactly the actions of the rules are read, in order, with the
  actions of the datapath (and a mark for a recirculation), the flow that was traced and the one that came
  out.  The headers, the rules, the megaflow and the rulers add nothing, nor do the remarks: the lines that begin with an
  arrow, and those that speak of a thaw, of resuming from a table or the connection tracker, or of a native tunnel.  The
  first flow that cannot be read ends the reading with its error.
\<close>

theorem ProtoTrace_reads_output:
  assumes "ls \<noteq> []" and "list_all (\<lambda>l. tline_ok l \<and> CHR 0x0A \<notin> set (tline_text l)) ls"
  shows "(case ProtoTrace_UnmarshalText pt (join [CHR 0x0A] (map tline_text ls)) of
      (pt', None) \<Rightarrow> tline_effects ls pt = Inr pt'
    | (pt', Some e) \<Rightarrow> tline_effects ls pt = Inl e)"
proof -
  have "split [CHR 0x0A] (join [CHR 0x0A] (map tline_text ls)) = map tline_text ls"
    using assms by (intro split_join) (auto simp: list_all_iff)
  with trace_lines_effects[OF assms(2), of pt] show ?thesis by (simp add: ProtoTrace_UnmarshalText_def)
qed

definition example_trace :: "tline list" where
  "example_trace =
     [TFlow 1 ''tcp,in_port=LOCAL'', TBridge ''br0'', TRuler CHR ''-'' 13, TRule 1 0 ''ip, priority 32768'',
      TAction ''resubmit(,25)'', TRule 0 25 ''tcp, priority 32768'', TAction ''ct(table=51)'',
      TArrow ''     '' '' A clone of the packet is forked to recirculate.'', TDatapath ''ct,recirc(0x2)'',
      TRuler CHR ''='' 79, TRemark ''recirc(0x2) - '' ''resume conntrack with'' '' ct_state=est|trk'', TRuler CHR ''-'' 0,
      TRemark ''    '' ''thaw'' [], TRemark ''        '' ''Resuming from table'' '' 51'', TRule 0 51 ''priority 100'',
      TAction ''set_field:0x2->tun_id'', TAction ''output:9'',
      TRemark ''     >> '' ''native tunnel'' '' routing failed'',
      TFinal ''unchanged'', TMegaflow ''recirc_id=0,tcp'', TDatapath ''1'']"

definition empty_trace :: ProtoTrace where
  "empty_trace = \<lparr>CommandStr = [], InputFlow = None, FinalFlow = None, TActions = None, FlowActions = [], RawOutput = []\<rparr>"

lemma example_flows:
  "new_flow ''tcp,in_port=LOCAL'' = Inr \<lparr>DProtocol = ''tcp'', DMatches = [InPortMatch 65534]\<rparr>"
  "new_flow ''unchanged'' = Inr \<lparr>DProtocol = [], DMatches = []\<rparr>"
proof -
  have s: "split '','' ''tcp,in_port=LOCAL'' = [''tcp'', ''in_port=LOCAL'']" "split ''='' ''in_port=LOCAL'' = [''in_port'', ''LOCAL'']"
    "split '','' ''unchanged'' = [''unchanged'']" by simp_all
  have t: "trim_space ''in_port'' = ''in_port''" "trim_space ''LOCAL'' = ''LOCAL''"
    by (rule trim_space_id, simp add: ascii_space_def byte_def)+
  have c: "\<not> contains ''in_port=LOCAL'' ''recirc_id=''" by (simp add: contains_iff sublist_Cons_right)
  show "new_flow ''tcp,in_port=LOCAL'' = Inr \<lparr>DProtocol = ''tcp'', DMatches = [InPortMatch 65534]\<rparr>"
    by (simp add: new_flow_def DataPathFlows_UnmarshalText_def s unmarshal_dp_match_def protocols_def t c)
  show "new_flow ''unchanged'' = Inr \<lparr>DProtocol = [], DMatches = []\<rparr>"
    by (simp add: new_flow_def DataPathFlows_UnmarshalText_def s unmarshal_dp_match_def protocols_def)
qed

lemma example_trace_ok: "list_all (\<lambda>l. tline_ok l \<and> CHR 0x0A \<notin> set (tline_text l)) example_trace"
proof -
  have d: "fmt_nat 10 0 = ''0''" "fmt_nat 10 25 = ''25''" "fmt_nat 10 51 = ''51''" by (simp_all add: print_eval)
  show ?thesis
    by (simp add: example_trace_def d no_words_def marks_def not_space_def comments_def contains_iff sublist_Cons_right alpha_def byte_def)
qed

lemma ProtoTrace_reads_output_witness:
  "(case ProtoTrace_UnmarshalText empty_trace (join [CHR 0x0A] (map tline_text example_trace)) of
      (pt, None) \<Rightarrow> FlowActions pt = [''resubmit(,25)'', ''ct(table=51)'', ''recirc'', ''set_field:0x2->tun_id'', ''output:9''] \<and> TActions pt = Some (NewDataPathActions ''1'') \<and>
        InputFlow pt = Some \<lparr>DProtocol = ''tcp'', DMatches = [InPortMatch 65534]\<rparr>
    | (pt, Some e) \<Rightarrow> False)"
proof -
  have r: "\<not> contains ''1'' ''recirc(''" by (simp add: contains_iff sublist_Cons_right)
  have r2: "contains ''ct,recirc(0x2)'' ''recirc(''" by (simp add: contains_iff sublist_Cons_right)
  have "example_trace \<noteq> []" by (simp add: example_trace_def)
  from ProtoTrace_reads_output[OF this example_trace_ok, of empty_trace] show ?thesis
    by (auto simp: example_trace_def example_flows empty_trace_def r r2 split: prod.splits option.splits)
qed

end
