(* ===== verification/JsonRpc.thy ===== *)
theory JsonRpc
  imports Json
begin

text \<open>
  \<open>ovsdb/internal/jsonrpc/conn.go\<close>: requests and responses of JSON-RPC and the connection that carries
  them.  A connection is what its encoder wrote and what its decoder has to read; the wrapper that
  logs is in theory \<open>OvsdbSetup\<close>.
\<close>

section \<open>Errors\<close>

text \<open>\<open>ovsdb/result.go\<close>: an error that the server returns.\<close>

(* src: ovsdb/result.go type Error *)
record Error =
  Err :: string
  Details :: string
  Syntax :: string

(* src: ovsdb/result.go func Error.Error *)
definition Error_Error :: "Error \<Rightarrow> string" where
  "Error_Error e = Err e @ '': '' @ Details e @ '': '' @ Syntax e"

text \<open>
  The values of type \<open>error\<close> of packages \<open>jsonrpc\<close> and \<open>ovsdb\<close>.
\<close>

datatype (plugins only: code size) ovsdb_error =
    errEOF                        \<comment> \<open>\<open>io.EOF\<close>\<close>
  | errEmptyID
  | ErrEncode ovsdb_error         \<comment> \<open>\<open>failed to encode JSON-RPC request\<close>\<close>
  | ErrDecode ovsdb_error         \<comment> \<open>\<open>failed to decode JSON-RPC response\<close>\<close>
  | ErrReceived json              \<comment> \<open>\<open>received JSON-RPC error\<close>, with the value\<close>
  | ErrJSONSyntax                 \<comment> \<open>\<open>encoding/json\<close>: no JSON text, or the text is cut off\<close>
  | ErrJSONType                   \<comment> \<open>\<open>encoding/json\<close>: the value does not fit the type it is read into\<close>
  | ErrNetwork string             \<comment> \<open>an error of the connection, with its text\<close>
  | ErrContext                    \<comment> \<open>\<open>ctx.Err()\<close> of a context that is done\<close>
  | ErrServer Error               \<comment> \<open>an error of the OVSDB server\<close>
  | ErrEchoResponse string
  | ErrMarshaler string           \<comment> \<open>an error of a \<open>TransactOp\<close> of the caller\<close>
  | Panic string                  \<comment> \<open>a run-time panic\<close>

section \<open>Messages\<close>

text \<open>
  The parameters of a request are the value they marshal to, or the error of their \<open>MarshalJSON\<close>.
  None is Go's \<open>nil\<close>.
\<close>

(* src: ovsdb/internal/jsonrpc/conn.go type Request *)
record Request =
  ID :: string
  Method :: string
  Params :: "(ovsdb_error + json) option"

text \<open>A \<open>json.RawMessage\<close> is the text of a value, without the white space around it; empty when absent.\<close>

(* src: ovsdb/internal/jsonrpc/conn.go type Response *)
record Response =
  res_ID :: "string option"
  res_Result :: string
  res_Error :: "json option"
  res_Method :: string
  res_Params :: string

definition zero_Response :: Response where
  "zero_Response = \<lparr>res_ID = None, res_Result = [], res_Error = None, res_Method = [], res_Params = []\<rparr>"

(* src: ovsdb/internal/jsonrpc/conn.go func Response.Err *)
definition Response_Err :: "Response \<Rightarrow> ovsdb_error option" where
  "Response_Err r = (case res_Error r of None \<Rightarrow> None | Some v \<Rightarrow> Some (ErrReceived v))"

section \<open>Sending\<close>

text \<open>
  An \<open>Encoder\<close> writes the text of the value and a line feed in one call of \<open>Write\<close>.  It
  keeps an error of \<open>Write\<close> and returns it ever after.  Whether the connection accepts the text is not
  up to the package: it is the argument \<open>net\<close>, the error that \<open>Write\<close> returns, if any.
\<close>

record Encoder =
  written :: string
  enc_err :: "ovsdb_error option"

definition Encode_text :: "ovsdb_error option \<Rightarrow> ovsdb_error + string \<Rightarrow> Encoder \<Rightarrow> ovsdb_error option \<times> Encoder" where
  "Encode_text net t enc =
     (case enc_err enc of
        Some e \<Rightarrow> (Some e, enc)
      | None \<Rightarrow>
          (case t of
             Inl e \<Rightarrow> (Some e, enc)
           | Inr u \<Rightarrow>
               (case net of
                  Some e \<Rightarrow> (Some e, enc\<lparr>enc_err := Some e\<rparr>)
                | None \<Rightarrow> (None, enc\<lparr>written := written enc @ u @ [CHR 0x0A]\<rparr>))))"

definition Encode :: "ovsdb_error option \<Rightarrow> ovsdb_error + json \<Rightarrow> Encoder \<Rightarrow> ovsdb_error option \<times> Encoder" where
  "Encode net v = Encode_text net (case v of Inl e \<Rightarrow> Inl e | Inr j \<Rightarrow> Inr (json_text j))"

lemmas Encode_defs = Encode_def Encode_text_def

text \<open>What a request marshals to.\<close>

(* src: ovsdb/internal/jsonrpc/conn.go 26-31 Request: its JSON object *)
definition Request_json :: "Request \<Rightarrow> ovsdb_error + json" where
  "Request_json req =
     (case Params req of
        None \<Rightarrow> Inr (JObject [(''id'', JString (ID req)), (''method'', JString (Method req)), (''params'', JNull)])
      | Some (Inl e) \<Rightarrow> Inl e
      | Some (Inr p) \<Rightarrow>
          Inr (JObject [(''id'', JString (ID req)), (''method'', JString (Method req)), (''params'', p)]))"

(* src: ovsdb/internal/jsonrpc/conn.go func Conn.Send *)
definition Send :: "ovsdb_error option \<Rightarrow> Request \<Rightarrow> Encoder \<Rightarrow> ovsdb_error option \<times> Encoder" where
  "Send net req enc =
     (if ID req = [] then (Some errEmptyID, enc)
      else
        (let req = (if Params req = None then req\<lparr>Params := Some (Inr (JArray []))\<rparr> else req)
         in case Encode net (Request_json req) enc of
              (Some e, enc') \<Rightarrow> (Some (ErrEncode e), enc')
            | (None, enc') \<Rightarrow> (None, enc')))"

section \<open>The members of an object\<close>

text \<open>
  The members of an object with the text of each value, which is what is kept in a \<open>RawMessage\<close>.
\<close>

fun raw_members :: "nat \<Rightarrow> string \<Rightarrow> (string \<times> string) list" where
  "raw_members 0 s = []"
| "raw_members (Suc n) s =
     (case string_body (tl (skip s)) of
        None \<Rightarrow> []
      | Some (k, t) \<Rightarrow>
          (let u = skip (tl (skip t)) in
           case json_value (2 * length u + 2) u of
             None \<Rightarrow> []
           | Some (v, w) \<Rightarrow>
               (k, take (length u - length w) u) #
               (if has_prefix (skip w) '','' then raw_members n (tl (skip w)) else [])))"

definition object_members :: "string \<Rightarrow> (string \<times> string) list" where
  "object_members s =
     (if has_prefix (skip (tl (skip s))) ''}'' then [] else raw_members (length s) (tl (skip s)))"

text \<open>
  A key names a field when it is equal to its name up to the case of letters; package \<open>encoding/json\<close>
  folds the long s and the Kelvin sign too.
\<close>

function fold_key :: "string \<Rightarrow> string" where
  "fold_key s =
     (if has_prefix s [CHR 0xC5, CHR 0xBF] then CHR ''s'' # fold_key (drop 2 s)
      else if has_prefix s [CHR 0xE2, CHR 0x84, CHR 0xAA] then CHR ''k'' # fold_key (drop 3 s)
      else case s of
        [] \<Rightarrow> []
      | c # t \<Rightarrow> (if 65 \<le> byte c \<and> byte c \<le> 90 then char_of (byte c + 32) else c) # fold_key t)"
  by pat_completeness auto
termination
  by (relation "measure length") (auto simp: has_prefix_def prefix_def)

declare fold_key.simps [simp del]

definition is_field :: "string \<Rightarrow> string \<Rightarrow> bool" where
  "is_field name k \<longleftrightarrow> fold_key k = name"

section \<open>Receiving\<close>

text \<open>
  One member read into the response.  A value that does not fit its field is an error, which
  is returned when the object has been read; \<open>null\<close> leaves a string as it is.
\<close>

(* src: ovsdb/internal/jsonrpc/conn.go 34-45 Response: the fields as they are read *)
definition decode_field :: "string \<times> string \<Rightarrow> Response \<times> bool \<Rightarrow> Response \<times> bool" where
  "decode_field m st =
     (case m of (k, raw) \<Rightarrow> case st of (r, ok) \<Rightarrow>
        if is_field ''id'' k then
          (case json_parse raw of
             Some (JString s) \<Rightarrow> (r\<lparr>res_ID := Some s\<rparr>, ok)
           | Some JNull \<Rightarrow> (r\<lparr>res_ID := None\<rparr>, ok)
           | _ \<Rightarrow> (r, False))
        else if is_field ''result'' k then (r\<lparr>res_Result := raw\<rparr>, ok)
        else if is_field ''error'' k then
          (case json_parse raw of
             Some JNull \<Rightarrow> (r\<lparr>res_Error := None\<rparr>, ok)
           | v \<Rightarrow> (r\<lparr>res_Error := v\<rparr>, ok))
        else if is_field ''method'' k then
          (case json_parse raw of
             Some (JString s) \<Rightarrow> (r\<lparr>res_Method := s\<rparr>, ok)
           | Some JNull \<Rightarrow> (r, ok)
           | _ \<Rightarrow> (r, False))
        else if is_field ''params'' k then (r\<lparr>res_Params := raw\<rparr>, ok)
        else (r, ok))"

text \<open>A text read into a response; \<open>null\<close> leaves the response as it is.\<close>

definition decode_Response :: "string \<Rightarrow> ovsdb_error + Response" where
  "decode_Response t =
     (case json_parse t of
        None \<Rightarrow> Inl ErrJSONSyntax
      | Some JNull \<Rightarrow> Inr zero_Response
      | Some (JObject ms) \<Rightarrow>
          (case fold decode_field (object_members t) (zero_Response, True) of
             (r, ok) \<Rightarrow> if ok then Inr r else Inl ErrJSONType)
      | Some _ \<Rightarrow> Inl ErrJSONType)"

text \<open>
  What a \<open>Decoder\<close> has to read: the texts that arrived and are not read yet, one for each value (or
  a text that is no JSON value, where the stream is malformed or cut off), and the error that the
  connection returns after them once it is closed.  An error of the connection and a text that is no
  JSON value stay in the decoder: it returns the same error ever after.  A value of the wrong type does not.
\<close>

record Decoder =
  texts :: "string list"
  stream_end :: "ovsdb_error option"
  dec_err :: "ovsdb_error option"

text \<open>None: the call waits for the connection.\<close>

definition Decode_with :: "(string \<Rightarrow> ovsdb_error + 'r) \<Rightarrow> Decoder \<Rightarrow> ((ovsdb_error + 'r) \<times> Decoder) option" where
  "Decode_with decode d =
     (case dec_err d of
        Some e \<Rightarrow> Some (Inl e, d)
      | None \<Rightarrow>
          (case texts d of
             t # ts \<Rightarrow>
               if json_parse t = None then Some (Inl ErrJSONSyntax, d\<lparr>dec_err := Some ErrJSONSyntax\<rparr>)
               else Some (decode t, d\<lparr>texts := ts\<rparr>)
           | [] \<Rightarrow>
               (case stream_end d of
                  Some e \<Rightarrow> Some (Inl e, d\<lparr>dec_err := Some e\<rparr>)
                | None \<Rightarrow> None)))"

abbreviation Decode :: "Decoder \<Rightarrow> ((ovsdb_error + Response) \<times> Decoder) option" where
  "Decode \<equiv> Decode_with decode_Response"

(* src: ovsdb/internal/jsonrpc/conn.go func Conn.Receive *)
definition Receive :: "Decoder \<Rightarrow> ((ovsdb_error + Response) \<times> Decoder) option" where
  "Receive d =
     (case Decode d of
        None \<Rightarrow> None
      | Some (Inl e, d') \<Rightarrow> Some (Inl (if e = errEOF then e else ErrDecode e), d')
      | Some (Inr r, d') \<Rightarrow> Some (Inr r, d'))"

section \<open>A request is read back\<close>

text \<open>
  The request that the other side reads, which is what the code relies on when it waits for a
  response with the same identifier.
\<close>

definition request_of :: "json \<Rightarrow> (string \<times> string \<times> json) option" where
  "request_of j =
     (case j of
        JObject [(a, JString i), (b, JString m), (c, p)] \<Rightarrow>
          if a = ''id'' \<and> b = ''method'' \<and> c = ''params'' then Some (i, m, p) else None
      | _ \<Rightarrow> None)"

lemma Request_json_clean:
  assumes "Request_json req = Inr j" and "ascii (ID req)" and "ascii (Method req)"
    and "\<And>p. Params req = Some (Inr p) \<Longrightarrow> clean p"
  shows "clean j"
  using assms by (auto simp: Request_json_def ascii_def byte_def split: option.splits sum.splits)

section \<open>The members of a text\<close>

lemma json_value_here:
  assumes "clean v" and "stop s"
  shows "skip (json_text v @ s) = json_text v @ s"
    and "json_value (2 * length (json_text v @ s) + 2) (json_text v @ s) = Some (v, s)"
proof -
  show "skip (json_text v @ s) = json_text v @ s"
    using text_head[OF assms(1)] by (intro skip_token) auto
  show "json_value (2 * length (json_text v @ s) + 2) (json_text v @ s) = Some (v, s)"
    using calls_needed_text[OF assms(1)] by (intro json_value_text assms) simp
qed

lemma raw_members_text:
  assumes "list_all (\<lambda>m. ascii (fst m) \<and> clean (snd m)) ms" and "ms \<noteq> []" and "length ms \<le> n"
  shows "raw_members n (join '','' (map (\<lambda>m. quote (fst m) @ '':'' @ json_text (snd m)) ms) @ CHR ''}'' # s) =
    map (\<lambda>m. (fst m, json_text (snd m))) ms"
  using assms
proof (induction ms arbitrary: n)
  case (Cons p ms)
  obtain k v where p: "p = (k, v)" by (cases p)
  from Cons.prems(3) obtain m where n: "n = Suc m" by (cases n) auto
  let ?rest = "if ms = [] then CHR ''}'' # s
    else CHR '','' # join '','' (map (\<lambda>m. quote (fst m) @ '':'' @ json_text (snd m)) ms) @ CHR ''}'' # s"
  have st: "stop ?rest" by (simp add: stop_def)
  have whole: "join '','' (map (\<lambda>m. quote (fst m) @ '':'' @ json_text (snd m)) (p # ms)) @ CHR ''}'' # s =
      CHR 0x22 # quote_body k @ CHR 0x22 # CHR '':'' # json_text v @ ?rest"
    by (simp add: p quote_def join_Cons)
  have kv: "ascii k" "clean v" using Cons.prems(1) by (simp_all add: p)
  have tl: "raw_members m (tl (skip ?rest)) = map (\<lambda>m. (fst m, json_text (snd m))) ms" if "ms \<noteq> []"
    using Cons.IH[of m] Cons.prems that n by (simp add: skip_Cons json_space_def)
  have sk: "skip (CHR 0x22 # t) = CHR 0x22 # t" "skip (CHR '':'' # t) = CHR '':'' # t" for t
    by (simp_all add: skip_Cons json_space_def)
  have pr: "has_prefix (skip ?rest) '','' \<longleftrightarrow> ms \<noteq> []" by (simp add: skip_Cons json_space_def has_prefix_def)
  show ?case
    unfolding whole n raw_members.simps sk list.sel string_body_quote_rest[OF kv(1)] option.case prod.case
      json_value_here[OF kv(2) st] Let_def pr
    using tl by (simp add: p)
qed simp

lemma object_members_text:
  assumes "clean (JObject ms)"
  shows "object_members (json_text (JObject ms)) = map (\<lambda>m. (fst m, json_text (snd m))) ms"
proof (cases "ms = []")
  case False
  let ?b = "join '','' (map (\<lambda>m. quote (fst m) @ '':'' @ json_text (snd m)) ms) @ ''}''"
  have "length ms \<le> length (join '','' (map (\<lambda>m. quote (fst m) @ '':'' @ json_text (snd m)) ms))"
    by (induction ms) (auto simp: join_Cons quote_def)
  moreover have "\<not> has_prefix (skip ?b) ''}''"
    using False by (cases ms) (auto simp: join_Cons quote_def skip_Cons json_space_def has_prefix_def)
  ultimately show ?thesis
    using raw_members_text[of ms "length (json_text (JObject ms))" "[]"] assms False
    by (simp add: object_members_def skip_Cons json_space_def)
qed (simp add: object_members_def skip_Cons json_space_def has_prefix_def)

end
