(* ===== verification/Ovsdb.thy ===== *)
theory Ovsdb
  imports JsonRpc
begin

text \<open>
  \<open>ovsdb/transact.go\<close>, \<open>ovsdb/result.go\<close> and \<open>ovsdb/rpc.go\<close>: the operations of a transaction and the text
  they are sent as, the reading of a result, and the calls of the client.  A call is given by what
  comes back for it: the response, or the error of a call that got none.  How a response gets to its
  call is in theory \<open>OvsdbClient\<close>.
\<close>

section \<open>The operations of a transaction\<close>

(* src: ovsdb/transact.go type Cond *)
record Cond =
  Column :: string
  Function :: string
  Value :: string

(* src: ovsdb/transact.go func Equal *)
definition Equal :: "string \<Rightarrow> string \<Rightarrow> Cond" where
  "Equal column value = \<lparr>Column = column, Function = ''=='', Value = value\<rparr>"

(* src: ovsdb/transact.go func Cond.MarshalJSON *)
definition Cond_MarshalJSON :: "Cond \<Rightarrow> json" where
  "Cond_MarshalJSON c = JArray [JString (Column c), JString (Function c), JString (Value c)]"

text \<open>The clause is None for a nil slice.\<close>

(* src: ovsdb/transact.go type Select *)
record Select =
  Table :: string
  Where :: "Cond list option"

(* src: ovsdb/transact.go func Select.MarshalJSON *)
definition Select_MarshalJSON :: "Select \<Rightarrow> json" where
  "Select_MarshalJSON s =
     (let whr = (case Where s of None \<Rightarrow> [] | Some cs \<Rightarrow> cs) in
      JObject [(''op'', JString ''select''), (''table'', JString (Table s)),
               (''where'', JArray (map Cond_MarshalJSON whr))])"

text \<open>
  An operation is what its \<open>MarshalJSON\<close> returns: the interface has no other method, and a caller may
  bring operations of its own.
\<close>

(* src: ovsdb/transact.go type TransactOp *)
type_synonym TransactOp = "ovsdb_error + json"

(* src: ovsdb/transact.go type transactArg *)
record transactArg =
  Database :: string
  Ops :: "TransactOp list"

(* src: ovsdb/transact.go func transactArg.MarshalJSON *)
definition transactArg_MarshalJSON :: "transactArg \<Rightarrow> ovsdb_error + json" where
  "transactArg_MarshalJSON t =
     (case mapR (\<lambda>op. op) (Ops t) of
        Inl e \<Rightarrow> Inl e
      | Inr js \<Rightarrow> Inr (JArray (JString (Database t) # js)))"

section \<open>Reading a result\<close>

(* src: ovsdb/result.go type rpcResponse *)
record rpcResponse =
  Result :: string
  Error :: "ovsdb_error option"

(* src: ovsdb/result.go 58-58 errPrefix *)
definition errPrefix :: string where
  "errPrefix = CHR ''{'' # CHR 0x22 # ''error'' @ [CHR 0x22, CHR '':'']"

text \<open>A string field: \<open>null\<close> leaves it as it is, a value of another type is an error.\<close>

definition string_field :: "(string \<Rightarrow> 'r \<Rightarrow> 'r) \<Rightarrow> json \<Rightarrow> 'r \<times> bool \<Rightarrow> 'r \<times> bool" where
  "string_field put v st =
     (case st of (r, ok) \<Rightarrow>
        (case v of JString s \<Rightarrow> (put s r, ok) | JNull \<Rightarrow> (r, ok) | _ \<Rightarrow> (r, False)))"

(* src: ovsdb/result.go 78-82 Error: the fields as they are read *)
definition decode_Error :: "json \<Rightarrow> ovsdb_error + Error" where
  "decode_Error v =
     (case v of
        JObject ms \<Rightarrow>
          (case fold (\<lambda>(k, v). if is_field ''error'' k then string_field (\<lambda>s r. r\<lparr>Err := s\<rparr>) v
                              else if is_field ''details'' k then string_field (\<lambda>s r. r\<lparr>Details := s\<rparr>) v
                              else if is_field ''syntax'' k then string_field (\<lambda>s r. r\<lparr>Syntax := s\<rparr>) v
                              else id) ms (\<lparr>Err = [], Details = [], Syntax = []\<rparr>, True) of
             (e, ok) \<Rightarrow> if ok then Inr e else Inl ErrJSONType)
      | _ \<Rightarrow> Inl ErrJSONType)"

text \<open>
  The reply is read by the function \<open>decode\<close> for the type behind \<open>r.Reply\<close>; None is an error of
  the types.  The result is the error of the server or the reply.
\<close>

(* src: ovsdb/result.go func result.UnmarshalJSON *)
definition result_UnmarshalJSON :: "(json \<Rightarrow> 'a option) \<Rightarrow> string \<Rightarrow> ovsdb_error + (Error + 'a)" where
  "result_UnmarshalJSON decode b =
     (case json_parse b of
        None \<Rightarrow> Inl ErrJSONSyntax
      | Some v \<Rightarrow>
          if \<not> has_prefix b errPrefix then
            (case decode v of None \<Rightarrow> Inl ErrJSONType | Some a \<Rightarrow> Inr (Inr a))
          else (case decode_Error v of Inl e \<Rightarrow> Inl e | Inr e \<Rightarrow> Inr (Inl e)))"

text \<open>
  \<open>json.Unmarshal\<close> gets a pointer to the pointer \<open>r\<close>: it sets \<open>r\<close> to nil when the text is \<open>null\<close>, and
  the use of \<open>r.Err\<close> that follows panics.
\<close>

(* src: ovsdb/result.go func rpcResult *)
definition rpcResult :: "(json \<Rightarrow> 'a option) \<Rightarrow> rpcResponse \<Rightarrow> ovsdb_error + 'a" where
  "rpcResult decode res =
     (case Error res of
        Some e \<Rightarrow> Inl e
      | None \<Rightarrow>
          (case json_parse (Result res) of
             None \<Rightarrow> Inl ErrJSONSyntax
           | Some JNull \<Rightarrow> Inl (Panic ''invalid memory address or nil pointer dereference'')
           | Some _ \<Rightarrow>
               (case result_UnmarshalJSON decode (Result res) of
                  Inl e \<Rightarrow> Inl e
                | Inr (Inl e) \<Rightarrow> Inl (ErrServer e)
                | Inr (Inr a) \<Rightarrow> Inr a)))"

section \<open>The types of the replies\<close>

text \<open>\<open>[1]string\<close>: a missing element is empty, elements after the first are skipped.\<close>

fun decode_one_string :: "json \<Rightarrow> string option" where
  "decode_one_string (JArray []) = Some []"
| "decode_one_string (JArray (v # vs)) = decode_string v"
| "decode_one_string JNull = Some []"
| "decode_one_string _ = None"

text \<open>A row: a column that is given twice has the last value.\<close>

(* src: ovsdb/rpc.go type Row *)
type_synonym Row = "(string, json) map"

fun decode_Row :: "json \<Rightarrow> Row option" where
  "decode_Row (JObject ms) = Some (map_of (rev ms))"
| "decode_Row JNull = Some Map.empty"
| "decode_Row _ = None"

fun decode_Rows :: "json \<Rightarrow> Row list option" where
  "decode_Rows (JArray vs) = all_some (map decode_Row vs)"
| "decode_Rows JNull = Some []"
| "decode_Rows _ = None"

text \<open>
  The result of one operation, of which the field \<open>rows\<close> is read and all others are skipped; the last
  one counts where it is given several times.
\<close>

fun decode_op :: "json \<Rightarrow> Row list option" where
  "decode_op (JObject ms) =
     fold (\<lambda>(k, v) rows. if is_field ''rows'' k
             then (case rows of None \<Rightarrow> None | Some _ \<Rightarrow> decode_Rows v) else rows) ms (Some [])"
| "decode_op JNull = Some []"
| "decode_op _ = None"

(* src: ovsdb/rpc.go 65-68 Client.Transact: the type of out *)
fun decode_out :: "json \<Rightarrow> Row list list option" where
  "decode_out (JArray vs) = all_some (map decode_op vs)"
| "decode_out JNull = Some []"
| "decode_out _ = None"

section \<open>The calls of the client\<close>

text \<open>
  \<open>c.rpc\<close> is the argument of the calls: from the method and the arguments to the response, or to the
  error of a call that was canceled or not sent.
\<close>

type_synonym exchange = "string \<Rightarrow> (ovsdb_error + json) option \<Rightarrow> ovsdb_error + rpcResponse"

definition rpc_reply :: "exchange \<Rightarrow> string \<Rightarrow> (json \<Rightarrow> 'a option) \<Rightarrow> (ovsdb_error + json) option \<Rightarrow> ovsdb_error + 'a" where
  "rpc_reply rpc meth decode arg =
     (case rpc meth arg of Inl e \<Rightarrow> Inl e | Inr res \<Rightarrow> rpcResult decode res)"

(* src: ovsdb/rpc.go func Client.ListDatabases *)
definition ListDatabases :: "exchange \<Rightarrow> ovsdb_error + string list" where
  "ListDatabases rpc = rpc_reply rpc ''list_dbs'' decode_strings None"

definition echo_text :: string where
  "echo_text = ''github.com/digitalocean/go-openvswitch/ovsdb''"

definition echo_params :: "(ovsdb_error + json) option" where
  "echo_params = Some (Inr (JArray [JString echo_text]))"

(* src: ovsdb/rpc.go func Client.Echo *)
definition Echo :: "exchange \<Rightarrow> ovsdb_error option" where
  "Echo rpc =
     (case rpc_reply rpc ''echo'' decode_one_string echo_params of
        Inl e \<Rightarrow> Some e
      | Inr s \<Rightarrow> if s \<noteq> echo_text then Some (ErrEchoResponse s) else None)"

(* src: ovsdb/rpc.go func Client.Transact *)
definition Transact :: "exchange \<Rightarrow> string \<Rightarrow> TransactOp list \<Rightarrow> ovsdb_error + Row list" where
  "Transact rpc db ops =
     (case rpc_reply rpc ''transact'' decode_out (Some (transactArg_MarshalJSON \<lparr>Database = db, Ops = ops\<rparr>)) of
        Inl e \<Rightarrow> Inl e
      | Inr out \<Rightarrow> Inr (concat out))"

section \<open>Values that are sent as a text that is read back\<close>

text \<open>
  The interface \<open>json.Marshaler\<close>, as the client uses it: the text of the value is read as the value.
\<close>

locale json_marshaler =
  fixes marshal :: "'a \<Rightarrow> json" and ok :: "'a \<Rightarrow> bool"
  assumes clean_marshal: "ok x \<Longrightarrow> clean (marshal x)"
begin

lemma read_back: "ok x \<Longrightarrow> json_parse (json_text (marshal x)) = Some (marshal x)"
  by (intro json_parse_text clean_marshal)

lemma marshal_list: "list_all ok xs \<Longrightarrow> clean (JArray (map marshal xs))"
  by (auto simp: list_all_iff intro: clean_marshal)

end

definition ascii_Cond :: "Cond \<Rightarrow> bool" where
  "ascii_Cond c \<longleftrightarrow> ascii (Column c) \<and> ascii (Function c) \<and> ascii (Value c)"

definition ascii_Select :: "Select \<Rightarrow> bool" where
  "ascii_Select s \<longleftrightarrow> ascii (Table s) \<and> (case Where s of None \<Rightarrow> True | Some cs \<Rightarrow> list_all ascii_Cond cs)"

interpretation cond: json_marshaler Cond_MarshalJSON ascii_Cond
  by unfold_locales (auto simp: Cond_MarshalJSON_def ascii_Cond_def)

interpretation select: json_marshaler Select_MarshalJSON ascii_Select
  by unfold_locales
    (auto simp: Select_MarshalJSON_def ascii_Select_def ascii_def byte_def split: option.splits
      dest: cond.marshal_list[simplified])

lemma transactArg_ok:
  "mapR (\<lambda>op. op) ops = Inr js \<Longrightarrow>
   transactArg_MarshalJSON \<lparr>Database = db, Ops = ops\<rparr> = Inr (JArray (JString db # js))"
  by (simp add: transactArg_MarshalJSON_def)

end
