(* ===== verification/OvsdbClient.thy ===== *)
theory OvsdbClient
  imports Ovsdb
begin

text \<open>
  \<open>ovsdb/client.go\<close>: the client as a machine whose steps are those of its goroutines.  A call of the
  client, the listener, the echo loop and the ticker each have a place in their code; a step of one of
  them is the code between two points where another goroutine can see the difference: the sections
  under the mutex of the callbacks, a send or receive on a channel, the use of the connection.  A
  \<open>select\<close> with several ready cases is several steps.

  The world outside takes steps too: callers start calls and cancel their contexts, messages arrive, the
  connection fails or is closed.  Contexts are a flag each; the background calls of the echo loop have the
  context of the client.  The debug log is in theory \<open>OvsdbSetup\<close>.
\<close>

section \<open>State\<close>

text \<open>What a call returns: an error, nil without a response, or a response that \<open>rpcResult\<close> reads.\<close>

datatype (plugins only: code size) outcome =
    Failed ovsdb_error
  | NoReply
  | Replied rpcResponse

text \<open>The place of a call in \<open>rpc\<close>.\<close>

(* src: ovsdb/client.go 203-265 Client.rpc: the points between which it is one step *)
datatype (plugins only: code size) call_pc =
    Starting            \<comment> \<open>before the first \<open>select\<close>\<close>
  | Registering         \<comment> \<open>before \<open>addCallback\<close>\<close>
  | Sending             \<comment> \<open>before \<open>Send\<close>\<close>
  | Waiting             \<comment> \<open>in the last \<open>select\<close>\<close>
  | Cleaning outcome    \<comment> \<open>before the deferred function\<close>
  | Returned outcome

text \<open>A call with its request, its context and its channel, which holds one response at most.\<close>

(* src: ovsdb/client.go type callback *)
record call =
  pc :: call_pc
  req :: Request
  background :: bool
  ctx_done :: bool
  chan :: "rpcResponse option"
  chan_closed :: bool

datatype (plugins only: code size) listen_pc = Receiving | Echoing | Stopped
datatype (plugins only: code size) loop_pc = Idle | Calling nat | Ended
datatype (plugins only: code size) ticker_pc = Ticking | Triggering | TickerEnded

text \<open>The run-time panics of the code; one ends the program.\<close>

datatype (plugins only: code size) crash =
    DuplicateID         \<comment> \<open>\<open>addCallback\<close>: the identifier is registered\<close>
  | ClosedChannel       \<comment> \<open>\<open>doCallback\<close>: send on or close of a closed channel\<close>
  | NilID               \<comment> \<open>\<open>listen\<close>: \<open>*res.ID\<close> of a message without an identifier\<close>
  | NilResult           \<comment> \<open>\<open>rpcResult\<close>: the result is \<open>null\<close>\<close>

text \<open>
  The callbacks map an identifier to the call whose channel is registered.  Two components are not in the
  code: the number of identifiers that were given, of which \<open>rpcID\<close> is the value modulo \<open>2 ^ 64\<close>, and
  the responses that were handed to \<open>doCallback\<close>.
\<close>

(* src: ovsdb/client.go type Client *)
record client =
  rpcID :: "64 word"
  echoOK :: "64 word"
  echoFail :: "64 word"
  enc :: Encoder
  dcd :: Decoder
  callbacks :: "string \<rightharpoonup> nat"
  calls :: "call list"
  listener :: listen_pc
  echo_loop :: loop_pc
  ticker :: ticker_pc
  canceled :: bool
  crashed :: "crash option"
  issued :: nat
  received :: "(string \<times> rpcResponse) list"

definition fresh_decoder :: Decoder where
  "fresh_decoder = \<lparr>texts = [], stream_end = None, dec_err = None\<rparr>"

(* src: ovsdb/client.go func New *)
definition New :: "bool \<Rightarrow> client" where
  "New has_interval =
     \<lparr>rpcID = 0, echoOK = 0, echoFail = 0, enc = \<lparr>written = [], enc_err = None\<rparr>, dcd = fresh_decoder,
      callbacks = Map.empty, calls = [], listener = Receiving, echo_loop = Idle,
      ticker = (if has_interval then Ticking else TickerEnded), canceled = False, crashed = None,
      issued = 0, received = []\<rparr>"

(* src: ovsdb/client.go type ClientStats *)
record ClientStats =
  Current :: nat
  Success :: int
  Failure :: int

(* src: ovsdb/client.go func Client.Stats *)
definition Stats :: "client \<Rightarrow> ClientStats" where
  "Stats c = \<lparr>Current = card (dom (callbacks c)), Success = sint (echoOK c), Failure = sint (echoFail c)\<rparr>"

definition on_call :: "nat \<Rightarrow> (call \<Rightarrow> call) \<Rightarrow> client \<Rightarrow> client" where
  "on_call k f c = c\<lparr>calls := (calls c)[k := f (calls c ! k)]\<rparr>"

section \<open>A call\<close>

definition fresh_call :: "string \<Rightarrow> (ovsdb_error + json) option \<Rightarrow> bool \<Rightarrow> bool \<Rightarrow> call" where
  "fresh_call meth arg bg done =
     \<lparr>pc = Starting, req = \<lparr>ID = [], Method = meth, Params = arg\<rparr>, background = bg, ctx_done = done,
      chan = None, chan_closed = False\<rparr>"

(* src: ovsdb/client.go func Client.requestID *)
definition requestID :: "client \<Rightarrow> string \<times> client" where
  "requestID c =
     (let n = rpcID c + 1 in (itoa (sint n), c\<lparr>rpcID := n, issued := issued c + 1\<rparr>))"

(* src: ovsdb/client.go 205-223 Client.rpc: to the request *)
definition rpc_start :: "nat \<Rightarrow> client \<Rightarrow> client" where
  "rpc_start k c =
     (if ctx_done (calls c ! k) then on_call k (\<lambda>x. x\<lparr>pc := Returned (Failed ErrContext)\<rparr>) c
      else case requestID c of
        (i, c') \<Rightarrow> on_call k (\<lambda>x. x\<lparr>pc := Registering, req := (req x)\<lparr>ID := i\<rparr>\<rparr>) c')"

(* src: ovsdb/client.go func Client.addCallback *)
definition addCallback :: "string \<Rightarrow> nat \<Rightarrow> client \<Rightarrow> client" where
  "addCallback i k c =
     (if callbacks c i \<noteq> None then c\<lparr>crashed := Some DuplicateID\<rparr>
      else c\<lparr>callbacks := (callbacks c)(i \<mapsto> k)\<rparr>)"

(* src: ovsdb/client.go 225-230 Client.rpc: the callback *)
definition rpc_register :: "nat \<Rightarrow> client \<Rightarrow> client" where
  "rpc_register k c = on_call k (\<lambda>x. x\<lparr>pc := Sending\<rparr>) (addCallback (ID (req (calls c ! k))) k c)"

(* src: ovsdb/client.go 244-246 Client.rpc: the request is sent *)
definition rpc_send :: "ovsdb_error option \<Rightarrow> nat \<Rightarrow> client \<Rightarrow> client" where
  "rpc_send net k c =
     (case Send net (req (calls c ! k)) (enc c) of
        (Some e, enc') \<Rightarrow> on_call k (\<lambda>x. x\<lparr>pc := Cleaning (Failed e)\<rparr>) (c\<lparr>enc := enc'\<rparr>)
      | (None, enc') \<Rightarrow> on_call k (\<lambda>x. x\<lparr>pc := Waiting\<rparr>) (c\<lparr>enc := enc'\<rparr>))"

text \<open>\<open>ctx.Err()\<close>, which is nil while the context is not done.\<close>

definition ctx_outcome :: "call \<Rightarrow> outcome" where
  "ctx_outcome x = (if ctx_done x then Failed ErrContext else NoReply)"

text \<open>The last \<open>select\<close>: the context is done, or there is a response, or the channel is closed.\<close>

(* src: ovsdb/client.go 249-254 Client.rpc: the context is done *)
definition rpc_canceled :: "nat \<Rightarrow> client \<Rightarrow> client" where
  "rpc_canceled k c = on_call k (\<lambda>x. x\<lparr>pc := Cleaning (ctx_outcome x)\<rparr>) c"

(* src: ovsdb/client.go 255-261 Client.rpc: something from the channel *)
definition rpc_wake :: "nat \<Rightarrow> client \<Rightarrow> client" where
  "rpc_wake k c =
     on_call k (\<lambda>x. case chan x of
         Some r \<Rightarrow> x\<lparr>pc := Cleaning (Replied r), chan := None\<rparr>
       | None \<Rightarrow> x\<lparr>pc := Cleaning (ctx_outcome x)\<rparr>) c"

(* src: ovsdb/client.go 232-242 Client.rpc: the deferred function *)
definition rpc_clean :: "nat \<Rightarrow> outcome \<Rightarrow> client \<Rightarrow> client" where
  "rpc_clean k out c =
     on_call k (\<lambda>x. x\<lparr>pc := Returned out\<rparr>) (c\<lparr>callbacks := (callbacks c)(ID (req (calls c ! k)) := None)\<rparr>)"

section \<open>The listener\<close>

text \<open>
  \<open>doCallback\<close> either sends the response or sees that the context is done; None: neither is possible
  yet.
\<close>

(* src: ovsdb/client.go func Client.doCallback *)
definition doCallback :: "bool \<Rightarrow> string \<Rightarrow> rpcResponse \<Rightarrow> client \<Rightarrow> client option" where
  "doCallback sent i res c =
     (case callbacks c i of
        None \<Rightarrow> Some c
      | Some k \<Rightarrow>
          (let x = calls c ! k;
               c' = on_call k (\<lambda>x. x\<lparr>chan := (if sent then Some res else chan x), chan_closed := True\<rparr>)
                      (c\<lparr>callbacks := (callbacks c)(i := None)\<rparr>)
           in if chan_closed x then Some (c\<lparr>crashed := Some ClosedChannel\<rparr>)
              else if sent then (if chan x = None then Some c' else None)
              else if ctx_done x then Some c'
              else None))"

(* src: ovsdb/client.go func isClosedNetwork *)
definition closed_text :: string where
  "closed_text = ''use of closed network connection''"

text \<open>
  Whether the text of an error contains it.  The value of a JSON-RPC error is printed by \<open>%#v\<close>,
  which shows its strings with quotes and escapes: the words are in the text when they are in a string.
\<close>

fun json_mentions :: "json \<Rightarrow> string \<Rightarrow> bool" where
  "json_mentions (JString s) p = contains s p"
| "json_mentions (JArray vs) p = list_ex (\<lambda>v. json_mentions v p) vs"
| "json_mentions (JObject ms) p = list_ex (\<lambda>m. contains (fst m) p \<or> json_mentions (snd m) p) ms"
| "json_mentions _ p = False"

fun isClosedNetwork :: "ovsdb_error \<Rightarrow> bool" where
  "isClosedNetwork (ErrEncode e) = isClosedNetwork e"
| "isClosedNetwork (ErrDecode e) = isClosedNetwork e"
| "isClosedNetwork (ErrReceived v) = json_mentions v closed_text"
| "isClosedNetwork (ErrNetwork t) = contains t closed_text"
| "isClosedNetwork (ErrServer e) = contains (Error_Error e) closed_text"
| "isClosedNetwork (ErrEchoResponse s) = contains s closed_text"
| "isClosedNetwork (ErrMarshaler t) = contains t closed_text"
| "isClosedNetwork _ = False"

text \<open>The response that the listener hands on: an error of JSON-RPC or the result.\<close>

(* src: ovsdb/client.go 299-309 Client.listen: the argument of doCallback *)
definition response_for :: "Response \<Rightarrow> rpcResponse" where
  "response_for res =
     (case Response_Err res of
        Some e \<Rightarrow> \<lparr>Result = [], Error = Some e\<rparr>
      | None \<Rightarrow> \<lparr>Result = res_Result res, Error = None\<rparr>)"

(* src: ovsdb/client.go func Client.listen *)
definition listen :: "bool \<Rightarrow> client \<Rightarrow> client option" where
  "listen sent c =
     (case Receive (dcd c) of
        None \<Rightarrow> None
      | Some (r, d) \<Rightarrow>
          (let c = c\<lparr>dcd := d\<rparr> in
           case r of
             Inl e \<Rightarrow> Some (if e = errEOF \<or> isClosedNetwork e then c\<lparr>listener := Stopped\<rparr> else c)
           | Inr res \<Rightarrow>
               if res_Method res = ''echo'' then Some (c\<lparr>listener := Echoing\<rparr>)
               else (case res_ID res of
                 None \<Rightarrow> Some (c\<lparr>crashed := Some NilID\<rparr>)
               | Some i \<Rightarrow>
                   doCallback sent i (response_for res) (c\<lparr>received := received c @ [(i, response_for res)]\<rparr>))))"

section \<open>The echo loop and the ticker\<close>

text \<open>What the loop does when it is triggered.\<close>

(* src: ovsdb/client.go 344-353 Client.echoLoop: to the call of Echo *)
definition echo_trigger :: "client \<Rightarrow> client" where
  "echo_trigger c =
     (if canceled c then c\<lparr>echo_loop := Ended\<rparr>
      else c\<lparr>echo_loop := Calling (length (calls c)),
             calls := calls c @ [fresh_call ''echo'' echo_params True (canceled c)]\<rparr>)"

definition echo_error :: "outcome \<Rightarrow> ovsdb_error option" where
  "echo_error out =
     (case out of
        Failed e \<Rightarrow> Echo (\<lambda>_ _. Inl e)
      | NoReply \<Rightarrow> Some (ErrEchoResponse [])
      | Replied r \<Rightarrow> Echo (\<lambda>_ _. Inr r))"

(* src: ovsdb/client.go 355-371 Client.echoLoop: the result of Echo *)
definition echo_result :: "outcome \<Rightarrow> client \<Rightarrow> client" where
  "echo_result out c =
     (case echo_error out of
        None \<Rightarrow> c\<lparr>echo_loop := Idle, echoOK := echoOK c + 1\<rparr>
      | Some (Panic _) \<Rightarrow> c\<lparr>crashed := Some NilResult\<rparr>
      | Some e \<Rightarrow>
          if isClosedNetwork e then c\<lparr>echo_loop := Idle\<rparr>
          else c\<lparr>echo_loop := Idle, echoFail := echoFail c + 1\<rparr>)"

section \<open>The machine\<close>

text \<open>The steps: of a call, of the three goroutines, of \<open>Close\<close>, of the callers and of the connection.\<close>

datatype (plugins only: code size) event =
    Start nat | Register nat | Transmit nat "ovsdb_error option" | Canceled nat | Wake nat | Clean nat
  | Listen bool | ListenGivesUp | ListenTriggers
  | EchoDone | EchoStops
  | Tick | TickerTriggers | TickerStops
  | CloseCancel | CloseConn nat
  | NewCall string "(ovsdb_error + json) option" bool | CancelCall nat
  | Arrive string | ConnEnds ovsdb_error

definition at :: "nat \<Rightarrow> call_pc \<Rightarrow> client \<Rightarrow> bool" where
  "at k p c \<longleftrightarrow> k < length (calls c) \<and> pc (calls c ! k) = p"

definition guarded :: "bool \<Rightarrow> client \<Rightarrow> client option" where
  "guarded b c = (if b then Some c else None)"

text \<open>The steps of a call.\<close>

(* src: ovsdb/client.go func Client.rpc *)
fun rpc_next :: "event \<Rightarrow> client \<Rightarrow> client option" where
  "rpc_next (Start k) c = guarded (at k Starting c) (rpc_start k c)"
| "rpc_next (Register k) c = guarded (at k Registering c) (rpc_register k c)"
| "rpc_next (Transmit k net) c = guarded (at k Sending c) (rpc_send net k c)"
| "rpc_next (Canceled k) c = guarded (at k Waiting c \<and> ctx_done (calls c ! k)) (rpc_canceled k c)"
| "rpc_next (Wake k) c =
     guarded (at k Waiting c \<and> (chan (calls c ! k) \<noteq> None \<or> chan_closed (calls c ! k))) (rpc_wake k c)"
| "rpc_next (Clean k) c =
     (if k < length (calls c)
      then (case pc (calls c ! k) of Cleaning out \<Rightarrow> Some (rpc_clean k out c) | _ \<Rightarrow> None)
      else None)"
| "rpc_next _ c = None"

text \<open>The steps of the listener.\<close>

fun listen_next :: "event \<Rightarrow> client \<Rightarrow> client option" where
  "listen_next (Listen sent) c = (if listener c = Receiving then listen sent c else None)"
| "listen_next ListenGivesUp c =
     guarded (listener c = Echoing \<and> canceled c) (c\<lparr>listener := Receiving\<rparr>)"
| "listen_next ListenTriggers c =
     guarded (listener c = Echoing \<and> echo_loop c = Idle) (echo_trigger (c\<lparr>listener := Receiving\<rparr>))"
| "listen_next _ c = None"

text \<open>The steps of the echo loop.\<close>

(* src: ovsdb/client.go func Client.echoLoop *)
fun echo_next :: "event \<Rightarrow> client \<Rightarrow> client option" where
  "echo_next EchoDone c =
     (case echo_loop c of
        Calling k \<Rightarrow> (case pc (calls c ! k) of Returned out \<Rightarrow> Some (echo_result out c) | _ \<Rightarrow> None)
      | _ \<Rightarrow> None)"
| "echo_next EchoStops c = guarded (echo_loop c = Idle \<and> canceled c) (c\<lparr>echo_loop := Ended\<rparr>)"
| "echo_next _ c = None"

text \<open>The steps of the ticker.\<close>

(* src: ovsdb/client.go func Client.echoTicker *)
fun ticker_next :: "event \<Rightarrow> client \<Rightarrow> client option" where
  "ticker_next Tick c =
     guarded (ticker c = Ticking) (if canceled c then c\<lparr>ticker := TickerEnded\<rparr> else c\<lparr>ticker := Triggering\<rparr>)"
| "ticker_next TickerTriggers c =
     guarded (ticker c = Triggering \<and> echo_loop c = Idle) (echo_trigger (c\<lparr>ticker := Ticking\<rparr>))"
| "ticker_next TickerStops c = guarded (ticker c \<noteq> TickerEnded \<and> canceled c) (c\<lparr>ticker := TickerEnded\<rparr>)"
| "ticker_next _ c = None"

text \<open>
  \<open>Close\<close> cancels the context, closes the connection and waits for the goroutines.  When the
  connection is closed, the decoder has a part of what arrived at most.
\<close>

(* src: ovsdb/client.go func Client.Close *)
fun close_next :: "event \<Rightarrow> client \<Rightarrow> client option" where
  "close_next CloseCancel c =
     Some (c\<lparr>canceled := True,
             calls := map (\<lambda>x. if background x then x\<lparr>ctx_done := True\<rparr> else x) (calls c)\<rparr>)"
| "close_next (CloseConn n) c =
     guarded (canceled c)
       (c\<lparr>dcd := (dcd c)\<lparr>texts := take n (texts (dcd c)), stream_end := Some (ErrNetwork closed_text)\<rparr>\<rparr>)"
| "close_next _ c = None"

(* src: ovsdb/client.go 168-168 Client.Close: what it waits for *)
definition all_ended :: "client \<Rightarrow> bool" where
  "all_ended c \<longleftrightarrow> listener c = Stopped \<and> echo_loop c = Ended \<and> ticker c = TickerEnded"

text \<open>The steps of the world.\<close>

fun world_next :: "event \<Rightarrow> client \<Rightarrow> client option" where
  "world_next (NewCall meth arg done) c = Some (c\<lparr>calls := calls c @ [fresh_call meth arg False done]\<rparr>)"
| "world_next (CancelCall k) c =
     guarded (k < length (calls c) \<and> \<not> background (calls c ! k)) (on_call k (\<lambda>x. x\<lparr>ctx_done := True\<rparr>) c)"
| "world_next (Arrive t) c =
     guarded (stream_end (dcd c) = None) (c\<lparr>dcd := (dcd c)\<lparr>texts := texts (dcd c) @ [t]\<rparr>\<rparr>)"
| "world_next (ConnEnds e) c =
     guarded (stream_end (dcd c) = None) (c\<lparr>dcd := (dcd c)\<lparr>stream_end := Some e\<rparr>\<rparr>)"
| "world_next _ c = None"

text \<open>A step of the client; a crashed program takes none.\<close>

definition client_next :: "event \<Rightarrow> client \<Rightarrow> client option" where
  "client_next ev c =
     (if crashed c \<noteq> None then None
      else case ev of
        Start _ \<Rightarrow> rpc_next ev c | Register _ \<Rightarrow> rpc_next ev c | Transmit _ _ \<Rightarrow> rpc_next ev c
      | Canceled _ \<Rightarrow> rpc_next ev c | Wake _ \<Rightarrow> rpc_next ev c | Clean _ \<Rightarrow> rpc_next ev c
      | Listen _ \<Rightarrow> listen_next ev c | ListenGivesUp \<Rightarrow> listen_next ev c | ListenTriggers \<Rightarrow> listen_next ev c
      | EchoDone \<Rightarrow> echo_next ev c | EchoStops \<Rightarrow> echo_next ev c
      | Tick \<Rightarrow> ticker_next ev c | TickerTriggers \<Rightarrow> ticker_next ev c | TickerStops \<Rightarrow> ticker_next ev c
      | CloseCancel \<Rightarrow> close_next ev c | CloseConn _ \<Rightarrow> close_next ev c
      | NewCall _ _ _ \<Rightarrow> world_next ev c | CancelCall _ \<Rightarrow> world_next ev c
      | Arrive _ \<Rightarrow> world_next ev c | ConnEnds _ \<Rightarrow> world_next ev c)"

inductive client_step :: "client \<Rightarrow> client \<Rightarrow> bool" where
  step: "client_next ev c = Some c' \<Longrightarrow> client_step c c'"

inductive client_steps :: "client \<Rightarrow> client \<Rightarrow> bool" where
  refl: "client_steps c c"
| further: "client_steps c c' \<Longrightarrow> client_step c' c'' \<Longrightarrow> client_steps c c''"

fun run :: "event list \<Rightarrow> client \<Rightarrow> client option" where
  "run [] c = Some c"
| "run (ev # evs) c = (case client_next ev c of None \<Rightarrow> None | Some c' \<Rightarrow> run evs c')"

inductive_cases client_stepE: "client_step c c'"

end
