(* ===== verification/OvsdbClientInv.thy ===== *)
theory OvsdbClientInv
  imports OvsdbClient
begin

text \<open>
  The invariant of the client: what is registered, the identifiers, and what each call may hold or
  have returned.  It holds in every reachable state while less than \<open>2 ^ 64\<close> requests were made.
\<close>

section \<open>Identifiers\<close>

definition id_of :: "nat \<Rightarrow> string" where
  "id_of n = itoa (sint (word_of_nat n :: 64 word))"

lemma id_of_not_Nil [simp]: "id_of n \<noteq> []"
  by (simp add: id_of_def itoa_not_Nil)

lemma id_of_inject:
  assumes "id_of m = id_of n" and "m < 2 ^ 64" and "n < 2 ^ 64" shows "m = n"
proof -
  let ?s = "\<lambda>n. sint (word_of_nat n :: 64 word)"
  have r: "- (2 ^ 63) \<le> ?s n \<and> ?s n < 2 ^ 63" for n
    using sint_ge[of "word_of_nat n :: 64 word"] sint_lt[of "word_of_nat n :: 64 word"] by simp
  have "Atoi (itoa (?s n)) = Inr (?s n)" for n by (rule Atoi_itoa) (use r[of n] in \<open>simp add: int_range_def\<close>)
  then have "Inr (?s m) = (Inr (?s n) :: int result)" using assms(1) unfolding id_of_def by metis
  then have "?s m = ?s n" by (rule sum.inject(2)[THEN iffD1])
  then have "(word_of_nat m :: 64 word) = word_of_nat n" by (simp only: signed_word_eqI)
  with assms(2,3) show ?thesis by (simp add: word_of_nat_eq_iff take_bit_nat_eq_self)
qed

section \<open>The invariant\<close>

definition outcome_ok :: "string \<Rightarrow> (string \<times> rpcResponse) list \<Rightarrow> outcome \<Rightarrow> bool" where
  "outcome_ok i rs out =
     (case out of Failed _ \<Rightarrow> True | NoReply \<Rightarrow> False | Replied r \<Rightarrow> (i, r) \<in> set rs)"

text \<open>The channel of a call that is registered or was: a response in it came for the call.\<close>

definition chan_ok :: "(string \<times> rpcResponse) list \<Rightarrow> call \<Rightarrow> bool" where
  "chan_ok rs x \<longleftrightarrow>
     (case chan x of
        Some r \<Rightarrow> chan_closed x \<and> (ID (req x), r) \<in> set rs
      | None \<Rightarrow> chan_closed x \<longrightarrow> ctx_done x)"

definition call_ok :: "(string \<times> rpcResponse) list \<Rightarrow> call \<Rightarrow> bool" where
  "call_ok rs x \<longleftrightarrow>
     (case pc x of
        Starting \<Rightarrow> ID (req x) = []
      | Registering \<Rightarrow> ID (req x) \<noteq> [] \<and> chan x = None \<and> \<not> chan_closed x
      | Sending \<Rightarrow> ID (req x) \<noteq> [] \<and> chan_ok rs x
      | Waiting \<Rightarrow> ID (req x) \<noteq> [] \<and> chan_ok rs x
      | Cleaning out \<Rightarrow> ID (req x) \<noteq> [] \<and> outcome_ok (ID (req x)) rs out
      | Returned out \<Rightarrow> outcome_ok (ID (req x)) rs out) \<and>
     (pc x = Starting \<longrightarrow> chan x = None \<and> \<not> chan_closed x)"

text \<open>The places between registration and clean-up.\<close>

fun active :: "call_pc \<Rightarrow> bool" where
  "active Sending = True" | "active Waiting = True" | "active _ = False"

fun registered :: "call_pc \<Rightarrow> bool" where
  "registered (Cleaning _) = True" | "registered p = active p"

definition ids_ok :: "nat \<Rightarrow> call list \<Rightarrow> bool" where
  "ids_ok n xs \<longleftrightarrow>
     (\<forall>x \<in> set xs. ID (req x) = [] \<or> (\<exists>m. 0 < m \<and> m \<le> n \<and> ID (req x) = id_of m)) \<and>
     (\<forall>j < length xs. \<forall>k < length xs. ID (req (xs ! j)) = ID (req (xs ! k)) \<longrightarrow> ID (req (xs ! j)) \<noteq> [] \<longrightarrow> j = k)"

definition callbacks_ok :: "(string \<rightharpoonup> nat) \<Rightarrow> call list \<Rightarrow> bool" where
  "callbacks_ok cb xs \<longleftrightarrow>
     (\<forall>i k. cb i = Some k \<longrightarrow>
        k < length xs \<and> ID (req (xs ! k)) = i \<and> \<not> chan_closed (xs ! k) \<and> chan (xs ! k) = None \<and>
        registered (pc (xs ! k))) \<and>
     (\<forall>k < length xs. active (pc (xs ! k)) \<longrightarrow> \<not> chan_closed (xs ! k) \<longrightarrow> cb (ID (req (xs ! k))) = Some k)"

definition client_inv :: "client \<Rightarrow> bool" where
  "client_inv c \<longleftrightarrow>
     rpcID c = word_of_nat (issued c) \<and> crashed c \<noteq> Some DuplicateID \<and> crashed c \<noteq> Some ClosedChannel \<and>
     list_all (call_ok (received c)) (calls c) \<and> ids_ok (issued c) (calls c) \<and>
     callbacks_ok (callbacks c) (calls c)"

lemma client_inv_New: "client_inv (New b)"
  by (simp add: client_inv_def New_def ids_ok_def callbacks_ok_def)

section \<open>One call changes\<close>

lemma outcome_ok_more: "outcome_ok i rs out \<Longrightarrow> outcome_ok i (rs @ ss) out"
  by (cases out) (simp_all add: outcome_ok_def)

lemma chan_ok_more: "chan_ok rs x \<Longrightarrow> chan_ok (rs @ ss) x"
  by (cases "chan x") (simp_all add: chan_ok_def)

lemma call_ok_more: "call_ok rs x \<Longrightarrow> call_ok (rs @ ss) x"
  by (cases "pc x"; simp add: call_ok_def outcome_ok_more chan_ok_more)

lemma calls_ok_more: "list_all (call_ok rs) xs \<Longrightarrow> list_all (call_ok (rs @ ss)) xs"
  by (auto simp: list_all_iff intro: call_ok_more)

lemma ids_ok_update:
  assumes "ids_ok n xs" and "k < length xs" and "ID (req y) = ID (req (xs ! k))"
  shows "ids_ok n (xs[k := y])"
proof -
  have i: "ID (req (xs[k := y] ! j)) = ID (req (xs ! j))" if "j < length xs" for j
    using assms(2,3) that by (simp add: nth_list_update)
  have "ID (req x) = [] \<or> (\<exists>m. 0 < m \<and> m \<le> n \<and> ID (req x) = id_of m)" if "x \<in> set (xs[k := y])" for x
  proof -
    have "x = y \<or> x \<in> set xs" using that set_update_subset_insert[of xs k y] by auto
    moreover have "xs ! k \<in> set xs" using assms(2) by simp
    ultimately obtain z where "z \<in> set xs" "ID (req x) = ID (req z)" using assms(3) by auto
    moreover from assms(1) have "\<forall>z \<in> set xs. ID (req z) = [] \<or> (\<exists>m. 0 < m \<and> m \<le> n \<and> ID (req z) = id_of m)"
      unfolding ids_ok_def by (rule conjunct1)
    ultimately show ?thesis by simp
  qed
  with assms(1) i show ?thesis by (simp add: ids_ok_def)
qed

text \<open>A registered identifier is that of its call, and no other call has it.\<close>

lemma callbacks_ok_update:
  assumes "callbacks_ok cb xs" and "ids_ok n xs" and "k < length xs" and "ID (req y) = ID (req (xs ! k))"
    and same: "ID (req y) \<noteq> [] \<or> cb (ID (req y)) = m" and m: "m = None \<or> m = Some k"
    and reg: "m = Some k \<Longrightarrow> \<not> chan_closed y \<and> chan y = None \<and> registered (pc y)"
    and act: "active (pc y) \<Longrightarrow> \<not> chan_closed y \<Longrightarrow> m = Some k"
  shows "callbacks_ok (cb(ID (req y) := m)) (xs[k := y])"
proof -
  have other: "ID (req (xs ! j)) \<noteq> ID (req y)" if "j < length xs" "j \<noteq> k" "ID (req y) \<noteq> []" for j
  proof
    assume "ID (req (xs ! j)) = ID (req y)"
    with assms(2-4) that have "j = k" unfolding ids_ok_def by simp
    with that show False by simp
  qed
  have "j < length xs \<and> ID (req (xs[k := y] ! j)) = i \<and> \<not> chan_closed (xs[k := y] ! j) \<and>
      chan (xs[k := y] ! j) = None \<and> registered (pc (xs[k := y] ! j))"
    if "(cb(ID (req y) := m)) i = Some j" for i j
  proof (cases "i = ID (req y)")
    case True
    with that m have "j = k" "m = Some k" by auto
    with reg True assms(3) show ?thesis by simp
  next
    case False
    with that have c: "cb i = Some j" by simp
    with assms(1) have "j < length xs \<and> ID (req (xs ! j)) = i \<and> \<not> chan_closed (xs ! j) \<and>
        chan (xs ! j) = None \<and> registered (pc (xs ! j))"
      by (simp add: callbacks_ok_def)
    moreover with False assms(4) have "j \<noteq> k" by auto
    ultimately show ?thesis by simp
  qed
  moreover have "(cb(ID (req y) := m)) (ID (req (xs[k := y] ! j))) = Some j"
    if "j < length xs" "active (pc (xs[k := y] ! j))" "\<not> chan_closed (xs[k := y] ! j)" for j
  proof (cases "j = k")
    case True
    with that act assms(3) show ?thesis by simp
  next
    case False
    with that assms(1) have "cb (ID (req (xs ! j))) = Some j" by (simp add: callbacks_ok_def)
    moreover have "(cb(ID (req y) := m)) (ID (req (xs ! j))) = cb (ID (req (xs ! j)))"
    proof (cases "ID (req y) = []")
      case True
      then have "cb(ID (req y) := m) = cb" using same by (intro fun_upd_idem) simp
      then show ?thesis by simp
    next
      case neq: False
      then show ?thesis using other[of j] False that(1) by simp
    qed
    ultimately show ?thesis using False by simp
  qed
  ultimately show ?thesis by (simp add: callbacks_ok_def)
qed

text \<open>
  The step of one call: it has the same identifier after it, and it is registered where it was, or not
  any more.
\<close>

lemma client_inv_update:
  assumes "client_inv c" and "k < length (calls c)" and "ID (req y) = ID (req (calls c ! k))"
    and "ID (req y) \<noteq> [] \<or> callbacks c (ID (req y)) = m" and "call_ok (received c) y" and "m = None \<or> m = Some k"
    and "m = Some k \<Longrightarrow> \<not> chan_closed y \<and> chan y = None \<and> registered (pc y)"
    and "active (pc y) \<Longrightarrow> \<not> chan_closed y \<Longrightarrow> m = Some k"
  shows "client_inv (c\<lparr>callbacks := (callbacks c)(ID (req y) := m), calls := (calls c)[k := y]\<rparr>)"
proof -
  have "ids_ok (issued c) ((calls c)[k := y])"
    using assms(1-3) by (intro ids_ok_update) (simp_all add: client_inv_def)
  moreover have "callbacks_ok ((callbacks c)(ID (req y) := m)) ((calls c)[k := y])"
    by (rule callbacks_ok_update[of _ _ "issued c"]) (use assms in \<open>simp_all add: client_inv_def\<close>)
  moreover have "list_all (call_ok (received c)) ((calls c)[k := y])"
    using assms(1,5) set_update_subset_insert[of "calls c" k y]
    by (auto simp: client_inv_def list_all_iff)
  ultimately show ?thesis using assms(1) by (simp add: client_inv_def)
qed

lemma inv_call: "client_inv c \<Longrightarrow> k < length (calls c) \<Longrightarrow> call_ok (received c) (calls c ! k)"
  by (simp add: client_inv_def list_all_length)

lemma inv_callback:
  assumes "client_inv c" and "callbacks c i = Some k"
  shows "k < length (calls c)" "ID (req (calls c ! k)) = i" "\<not> chan_closed (calls c ! k)"
    "chan (calls c ! k) = None" "registered (pc (calls c ! k))"
  using assms by (auto simp: client_inv_def callbacks_ok_def)

lemma registered_id: "registered (pc x) \<Longrightarrow> call_ok rs x \<Longrightarrow> ID (req x) \<noteq> []"
  by (cases "pc x") (simp_all add: call_ok_def)

lemma inv_callback_same:
  assumes "client_inv c" and "callbacks c (ID (req (calls c ! k))) = Some j" and "k < length (calls c)"
  shows "j = k"
proof -
  note cb = inv_callback[OF assms(1,2)]
  have "ID (req (calls c ! j)) \<noteq> []" using registered_id[OF cb(5) inv_call[OF assms(1) cb(1)]] .
  then show ?thesis
    using assms(1,3) cb(1,2) unfolding client_inv_def ids_ok_def by simp
qed

text \<open>A step that leaves the registration as it is.\<close>

lemma client_inv_on_call:
  assumes "client_inv c" and "k < length (calls c)" and "ID (req (f (calls c ! k))) = ID (req (calls c ! k))"
    and "call_ok (received c) (f (calls c ! k))"
    and "callbacks c (ID (req (calls c ! k))) = Some k \<Longrightarrow>
      \<not> chan_closed (f (calls c ! k)) \<and> chan (f (calls c ! k)) = None \<and> registered (pc (f (calls c ! k)))"
    and "active (pc (f (calls c ! k))) \<Longrightarrow> \<not> chan_closed (f (calls c ! k)) \<Longrightarrow>
      callbacks c (ID (req (calls c ! k))) = Some k"
  shows "client_inv (on_call k f c)"
proof -
  let ?x = "calls c ! k" and ?m = "callbacks c (ID (req (calls c ! k)))"
  have m: "?m = None \<or> ?m = Some k" using inv_callback_same[OF assms(1) _ assms(2)] by (cases ?m) auto
  have "client_inv (c\<lparr>callbacks := (callbacks c)(ID (req (f ?x)) := ?m), calls := (calls c)[k := f ?x]\<rparr>)"
    by (rule client_inv_update) (use assms m in simp_all)
  then show ?thesis using assms(3) by (simp add: on_call_def fun_upd_triv)
qed

section \<open>The steps keep the invariant\<close>

lemma not_registered:
  assumes "client_inv c" and "k < length (calls c)" and "\<not> registered (pc (calls c ! k))"
  shows "callbacks c i \<noteq> Some k"
  using inv_callback(5)[OF assms(1), of i k] assms(3) by auto

lemma active_registered: "active p \<Longrightarrow> registered p"
  by (cases p) simp_all

lemma active_callback:
  assumes "client_inv c" and "k < length (calls c)" and "active (pc (calls c ! k))" and "\<not> chan_closed (calls c ! k)"
  shows "callbacks c (ID (req (calls c ! k))) = Some k"
  using assms by (simp add: client_inv_def callbacks_ok_def)

lemma callbacks_ok_unregistered:
  assumes "callbacks_ok cb xs" and "k < length xs" and "\<not> registered (pc (xs ! k))" and "\<not> active (pc y)"
  shows "callbacks_ok cb (xs[k := y])"
proof -
  have "cb i \<noteq> Some k" for i using assms(1,3) by (auto simp: callbacks_ok_def)
  with assms show ?thesis by (simp add: callbacks_ok_def nth_list_update)
qed

text \<open>A new identifier is not in use.\<close>

lemma ids_ok_fresh:
  assumes "ids_ok n xs" and "k < length xs" and "ID (req y) = id_of (Suc n)" and "Suc n < 2 ^ 64"
  shows "ids_ok (Suc n) (xs[k := y])"
proof -
  have old: "ID (req z) = [] \<or> (\<exists>m. 0 < m \<and> m \<le> n \<and> ID (req z) = id_of m)" if "z \<in> set xs" for z
    using assms(1) that unfolding ids_ok_def by blast
  have new: "ID (req z) \<noteq> ID (req y)" if "z \<in> set xs" for z
  proof
    assume "ID (req z) = ID (req y)"
    with old[OF that] assms(3) obtain m where "m \<le> n" "id_of m = id_of (Suc n)" by auto
    with id_of_inject[of m "Suc n"] assms(4) show False by simp
  qed
  have "ID (req z) = [] \<or> (\<exists>m. 0 < m \<and> m \<le> Suc n \<and> ID (req z) = id_of m)" if "z \<in> set (xs[k := y])" for z
  proof -
    from that have "z = y \<or> z \<in> set xs" using set_update_subset_insert[of xs k y] by auto
    then show ?thesis
    proof
      assume "z = y"
      then show ?thesis using assms(3) by (intro disjI2 exI[of _ "Suc n"]) simp
    next
      assume "z \<in> set xs"
      then show ?thesis using old[of z] le_SucI by blast
    qed
  qed
  moreover have "i = j"
    if "i < length xs" "j < length xs" "ID (req (xs[k := y] ! i)) = ID (req (xs[k := y] ! j))"
      "ID (req (xs[k := y] ! i)) \<noteq> []" for i j
  proof (cases "i = k \<or> j = k")
    case True
    show ?thesis
    proof (rule ccontr)
      assume "i \<noteq> j"
      with True that assms(2) new[OF nth_mem, of i] new[OF nth_mem, of j] show False by auto
    qed
  next
    case False
    with that have "ID (req (xs ! i)) = ID (req (xs ! j))" "ID (req (xs ! i)) \<noteq> []" by simp_all
    with assms(1) that(1,2) show ?thesis unfolding ids_ok_def by blast
  qed
  ultimately show ?thesis by (simp add: ids_ok_def)
qed

lemma list_all_update: "list_all P xs \<Longrightarrow> P y \<Longrightarrow> list_all P (xs[k := y])"
  using set_update_subset_insert[of xs k y] by (auto simp: list_all_iff)

lemma inv_start:
  assumes inv: "client_inv c" and k: "at k Starting c" and n: "issued (rpc_start k c) < 2 ^ 64"
  shows "client_inv (rpc_start k c)"
proof -
  let ?x = "calls c ! k"
  have x: "k < length (calls c)" "pc ?x = Starting" "call_ok (received c) ?x" "ID (req ?x) = []"
    using k inv_call[OF inv, of k] by (auto simp: at_def call_ok_def)
  show ?thesis
  proof (cases "ctx_done ?x")
    case True
    have "client_inv (on_call k (\<lambda>x. x\<lparr>pc := Returned (Failed ErrContext)\<rparr>) c)"
      using inv x not_registered[OF inv x(1)]
      by (intro client_inv_on_call) (simp_all add: call_ok_def outcome_ok_def)
    with True show ?thesis by (simp add: rpc_start_def)
  next
    case False
    let ?n = "Suc (issued c)"
    let ?y = "?x\<lparr>pc := Registering, req := (req ?x)\<lparr>ID := id_of ?n\<rparr>\<rparr>"
    have w: "rpcID c + 1 = word_of_nat ?n" using inv by (simp add: client_inv_def)
    then have i: "itoa (sint (rpcID c + 1)) = id_of ?n" by (simp only: id_of_def)
    have c': "rpc_start k c = c\<lparr>rpcID := rpcID c + 1, issued := ?n, calls := (calls c)[k := ?y]\<rparr>"
      using False i by (simp add: rpc_start_def requestID_def on_call_def Let_def)
    have "ids_ok ?n ((calls c)[k := ?y])"
      using inv n x(1) c' by (intro ids_ok_fresh) (simp_all add: client_inv_def)
    moreover have "callbacks_ok (callbacks c) ((calls c)[k := ?y])"
      using inv x by (intro callbacks_ok_unregistered) (simp_all add: client_inv_def)
    moreover have "list_all (call_ok (received c)) ((calls c)[k := ?y])"
      using inv x by (intro list_all_update) (simp_all add: client_inv_def call_ok_def)
    ultimately show ?thesis using inv unfolding c' w by (simp add: client_inv_def)
  qed
qed

lemma inv_register:
  assumes inv: "client_inv c" and k: "at k Registering c"
  shows "client_inv (rpc_register k c)"
proof -
  let ?x = "calls c ! k"
  have x: "k < length (calls c)" "pc ?x = Registering" "ID (req ?x) \<noteq> []" "chan ?x = None" "\<not> chan_closed ?x"
    using k inv_call[OF inv, of k] by (auto simp: at_def call_ok_def)
  have "callbacks c (ID (req ?x)) = None"
    using inv_callback_same[OF inv _ x(1)] not_registered[OF inv x(1), of "ID (req ?x)"] x(2)
    by (cases "callbacks c (ID (req ?x))") auto
  then have "rpc_register k c = c\<lparr>callbacks := (callbacks c)(ID (req (?x\<lparr>pc := Sending\<rparr>)) := Some k),
      calls := (calls c)[k := ?x\<lparr>pc := Sending\<rparr>]\<rparr>"
    by (simp add: rpc_register_def addCallback_def on_call_def)
  moreover have "client_inv \<dots>"
    using inv x by (intro client_inv_update) (simp_all add: call_ok_def chan_ok_def)
  ultimately show ?thesis by simp
qed

lemma client_inv_enc [simp]: "client_inv (c\<lparr>enc := e\<rparr>) = client_inv c"
  by (simp add: client_inv_def)

lemma inv_send:
  assumes inv: "client_inv c" and k: "at k Sending c"
  shows "client_inv (rpc_send net k c)"
proof -
  let ?x = "calls c ! k"
  have x: "k < length (calls c)" "pc ?x = Sending" "ID (req ?x) \<noteq> []" "chan_ok (received c) ?x"
    using k inv_call[OF inv, of k] by (auto simp: at_def call_ok_def)
  note act = active_callback[OF inv x(1)] and reg = inv_callback[OF inv, of "ID (req ?x)" k]
  have "client_inv (on_call k (\<lambda>x. x\<lparr>pc := p\<rparr>) (c\<lparr>enc := e\<rparr>))"
    if "p = Waiting \<or> (\<exists>er. p = Cleaning (Failed er))" for p e
    using that inv x act reg
    by (intro client_inv_on_call) (auto simp: call_ok_def chan_ok_def outcome_ok_def split: option.splits)
  then show ?thesis by (auto simp: rpc_send_def split: prod.split option.split)
qed

lemma inv_canceled:
  assumes inv: "client_inv c" and k: "at k Waiting c" "ctx_done (calls c ! k)"
  shows "client_inv (rpc_canceled k c)"
proof -
  let ?x = "calls c ! k"
  have x: "k < length (calls c)" "pc ?x = Waiting" "ID (req ?x) \<noteq> []" "chan_ok (received c) ?x"
    using k inv_call[OF inv, of k] by (auto simp: at_def call_ok_def)
  show ?thesis
    unfolding rpc_canceled_def using inv x k(2) inv_callback[OF inv, of "ID (req ?x)" k]
    by (intro client_inv_on_call) (auto simp: call_ok_def outcome_ok_def ctx_outcome_def)
qed

lemma inv_wake:
  assumes inv: "client_inv c" and k: "at k Waiting c" "chan (calls c ! k) \<noteq> None \<or> chan_closed (calls c ! k)"
  shows "client_inv (rpc_wake k c)"
proof -
  let ?x = "calls c ! k"
  have x: "k < length (calls c)" "pc ?x = Waiting" "ID (req ?x) \<noteq> []" "chan_ok (received c) ?x"
    using k inv_call[OF inv, of k] by (auto simp: at_def call_ok_def)
  show ?thesis
    unfolding rpc_wake_def using inv x k(2) inv_callback[OF inv, of "ID (req ?x)" k]
    by (intro client_inv_on_call)
      (auto simp: call_ok_def outcome_ok_def ctx_outcome_def chan_ok_def split: option.splits)
qed

lemma inv_clean:
  assumes inv: "client_inv c" and k: "k < length (calls c)" "pc (calls c ! k) = Cleaning out"
  shows "client_inv (rpc_clean k out c)"
proof -
  let ?x = "calls c ! k"
  have x: "ID (req ?x) \<noteq> []" "outcome_ok (ID (req ?x)) (received c) out"
    using k inv_call[OF inv, of k] by (auto simp: call_ok_def)
  have "rpc_clean k out c = c\<lparr>callbacks := (callbacks c)(ID (req (?x\<lparr>pc := Returned out\<rparr>)) := None),
      calls := (calls c)[k := ?x\<lparr>pc := Returned out\<rparr>]\<rparr>"
    by (simp add: rpc_clean_def on_call_def)
  moreover have "client_inv \<dots>"
    using inv k x by (intro client_inv_update) (simp_all add: call_ok_def)
  ultimately show ?thesis by simp
qed

lemma inv_received: "client_inv c \<Longrightarrow> client_inv (c\<lparr>received := received c @ ms\<rparr>)"
  by (simp add: client_inv_def calls_ok_more)

text \<open>The listener never finds a closed channel, nor one that is full.\<close>

lemma inv_doCallback:
  assumes inv: "client_inv c" and m: "(i, res) \<in> set (received c)" and c': "doCallback sent i res c = Some c'"
  shows "client_inv c'"
proof (cases "callbacks c i")
  case None
  with c' inv show ?thesis by (simp add: doCallback_def)
next
  case (Some k)
  let ?x = "calls c ! k"
  let ?y = "?x\<lparr>chan := (if sent then Some res else chan ?x), chan_closed := True\<rparr>"
  note cb = inv_callback[OF inv Some]
  have ok: "call_ok (received c) ?x" by (rule inv_call[OF inv cb(1)])
  have e: "c' = c\<lparr>callbacks := (callbacks c)(ID (req ?y) := None), calls := (calls c)[k := ?y]\<rparr>"
    and d: "sent \<or> ctx_done ?x"
    using c' Some cb(2-4) by (auto simp: doCallback_def Let_def on_call_def split: if_splits)
  have "call_ok (received c) ?y"
    using ok cb m d by (cases "pc ?x") (auto simp: call_ok_def chan_ok_def)
  moreover have "ID (req ?x) \<noteq> []" by (rule registered_id[OF cb(5) ok])
  ultimately show ?thesis
    unfolding e using inv cb by (intro client_inv_update) simp_all
qed

lemma inv_listen:
  assumes inv: "client_inv c" and c': "listen sent c = Some c'"
  shows "client_inv c'"
proof -
  have d: "client_inv (c\<lparr>dcd := d\<rparr>)" for d using inv by (simp add: client_inv_def)
  obtain r d where r: "Receive (dcd c) = Some (r, d)" using c' by (auto simp: listen_def split: option.splits)
  show ?thesis
  proof (cases r)
    case (Inl e)
    with r c' inv show ?thesis by (auto simp: listen_def Let_def client_inv_def split: if_splits)
  next
    case (Inr res)
    show ?thesis
    proof (cases "res_Method res = ''echo'' \<or> res_ID res = None")
      case True
      with r Inr c' inv show ?thesis by (auto simp: listen_def Let_def client_inv_def split: if_splits option.splits)
    next
      case False
      then obtain i where i: "res_ID res = Some i" by auto
      let ?c = "c\<lparr>dcd := d, received := received c @ [(i, response_for res)]\<rparr>"
      have "client_inv ?c" using inv_received[OF d[of d], of "[(i, response_for res)]"] by simp
      moreover have "doCallback sent i (response_for res) ?c = Some c'"
        using r Inr c' False i by (simp add: listen_def Let_def)
      ultimately show ?thesis by (elim inv_doCallback[rotated 2]) simp_all
    qed
  qed
qed

lemma inv_append:
  assumes "client_inv c" shows "client_inv (c\<lparr>calls := calls c @ [fresh_call meth arg bg done]\<rparr>)"
proof -
  let ?x = "fresh_call meth arg bg done"
  have x: "call_ok (received c) ?x" "ID (req ?x) = []" "\<not> active (pc ?x)"
    by (simp_all add: fresh_call_def call_ok_def)
  have ids: "ids_ok n (xs @ [?x])" if "ids_ok n xs" for n xs
    using that x(2) by (auto simp: ids_ok_def nth_append less_Suc_eq)
  have cbs: "callbacks_ok cb (xs @ [?x])" if "callbacks_ok cb xs" for cb xs
    using that x(3) by (auto simp: callbacks_ok_def nth_append less_Suc_eq)
  show ?thesis using assms x(1) ids cbs by (simp add: client_inv_def)
qed

text \<open>A context is done.\<close>

definition later_context :: "call \<Rightarrow> call \<Rightarrow> bool" where
  "later_context x y \<longleftrightarrow> pc y = pc x \<and> req y = req x \<and> chan y = chan x \<and> chan_closed y = chan_closed x \<and>
     (ctx_done x \<longrightarrow> ctx_done y)"

lemma later_context_ok: "later_context x y \<Longrightarrow> call_ok rs x \<Longrightarrow> call_ok rs y"
  by (cases "pc x"; cases "chan x") (auto simp: later_context_def call_ok_def chan_ok_def)

lemma inv_contexts:
  assumes "client_inv c" and l: "list_all2 later_context (calls c) ys"
  shows "client_inv (c\<lparr>calls := ys\<rparr>)"
proof -
  have len: "length ys = length (calls c)" using l by (simp add: list_all2_lengthD)
  have nth: "later_context (calls c ! k) (ys ! k)" if "k < length (calls c)" for k
    using l that by (rule list_all2_nthD)
  have same: "pc (ys ! k) = pc (calls c ! k)" "req (ys ! k) = req (calls c ! k)"
    "chan (ys ! k) = chan (calls c ! k)" "chan_closed (ys ! k) = chan_closed (calls c ! k)"
    if "k < length (calls c)" for k
    using nth[OF that] by (simp_all add: later_context_def)
  have "list_all (call_ok (received c)) ys"
    using assms(1) nth len by (auto simp: list_all_length client_inv_def intro: later_context_ok)
  moreover have "ids_ok (issued c) ys"
  proof -
    have "\<forall>y \<in> set ys. \<exists>x \<in> set (calls c). req y = req x"
      using same(2) len by (metis in_set_conv_nth)
    then show ?thesis using assms(1) same(2) len unfolding client_inv_def ids_ok_def by simp (metis (no_types))
  qed
  moreover have "callbacks_ok (callbacks c) ys"
    using assms(1) same len unfolding client_inv_def callbacks_ok_def by simp
  ultimately show ?thesis using assms(1) by (simp add: client_inv_def)
qed

lemma later_update: "k < length xs \<Longrightarrow> list_all2 later_context xs (xs[k := (xs ! k)\<lparr>ctx_done := True\<rparr>])"
  by (auto simp: list_all2_conv_all_nth nth_list_update later_context_def)

lemma later_map: "list_all2 later_context xs (map (\<lambda>x. if p x then x\<lparr>ctx_done := True\<rparr> else x) xs)"
  by (auto simp: list_all2_conv_all_nth later_context_def)

lemma inv_trigger: "client_inv c \<Longrightarrow> client_inv (echo_trigger c)"
  using inv_append[of c "''echo''" echo_params True False]
  by (simp add: echo_trigger_def) (simp add: client_inv_def)

lemma inv_result: "client_inv c \<Longrightarrow> client_inv (echo_result out c)"
  by (simp add: echo_result_def client_inv_def split: option.split ovsdb_error.split)

lemma client_inv_fields [simp]:
  "client_inv (c\<lparr>listener := l\<rparr>) = client_inv c" "client_inv (c\<lparr>echo_loop := p\<rparr>) = client_inv c"
  "client_inv (c\<lparr>ticker := t\<rparr>) = client_inv c" "client_inv (c\<lparr>canceled := b\<rparr>) = client_inv c"
  "client_inv (c\<lparr>dcd := d\<rparr>) = client_inv c"
  by (simp_all add: client_inv_def)

lemma guarded_Some [simp]: "guarded b c = Some c' \<longleftrightarrow> b \<and> c' = c"
  by (auto simp: guarded_def)

lemma client_next_inv:
  assumes inv: "client_inv c" and n: "client_next ev c = Some c'" and i: "issued c' < 2 ^ 64"
  shows "client_inv c'"
proof (cases ev)
  case (Start k)
  with n i inv show ?thesis by (auto simp: client_next_def intro: inv_start split: if_splits)
next
  case (Register k)
  with n inv show ?thesis by (auto simp: client_next_def intro: inv_register split: if_splits)
next
  case (Transmit k net)
  with n inv show ?thesis by (auto simp: client_next_def intro: inv_send split: if_splits)
next
  case (Canceled k)
  with n inv show ?thesis by (auto simp: client_next_def intro: inv_canceled split: if_splits)
next
  case (Wake k)
  with n inv inv_wake[OF inv, of k] show ?thesis by (auto simp: client_next_def split: if_splits)
next
  case (Clean k)
  with n inv show ?thesis by (auto simp: client_next_def intro: inv_clean split: if_splits call_pc.splits)
next
  case (Listen sent)
  with n inv show ?thesis by (auto simp: client_next_def intro: inv_listen split: if_splits)
next
  case CloseCancel
  with n inv inv_contexts[OF inv later_map] show ?thesis
    by (auto simp: client_next_def split: if_splits) (simp add: client_inv_def)
next
  case (CancelCall k)
  with n inv inv_contexts[OF inv later_update, of k] show ?thesis
    by (auto simp: client_next_def on_call_def split: if_splits)
qed (use n inv in \<open>auto simp: client_next_def intro: inv_trigger inv_result inv_append
  split: if_splits loop_pc.splits call_pc.splits\<close>)

section \<open>Every reachable state\<close>

lemma issued_on_call [simp]: "issued (on_call k f c) = issued c"
  by (simp add: on_call_def)

lemma issued_doCallback: "doCallback sent i r c = Some c' \<Longrightarrow> issued c' = issued c"
  by (auto simp: doCallback_def Let_def split: option.splits if_splits)

lemma issued_listen: "listen sent c = Some c' \<Longrightarrow> issued c' = issued c"
  by (auto simp: listen_def Let_def split: option.splits sum.splits if_splits prod.splits dest: issued_doCallback)

lemma issued_mono: "client_next ev c = Some c' \<Longrightarrow> issued c \<le> issued c'"
  by (cases ev)
    (auto simp: client_next_def rpc_start_def requestID_def rpc_register_def addCallback_def rpc_send_def
      rpc_canceled_def rpc_wake_def rpc_clean_def echo_trigger_def echo_result_def Let_def
      split: if_splits call_pc.splits loop_pc.splits option.splits ovsdb_error.splits prod.splits
      dest: issued_listen)

lemma reachable_inv: "client_steps c c' \<Longrightarrow> client_inv c \<Longrightarrow> issued c' < 2 ^ 64 \<Longrightarrow> client_inv c'"
proof (induction rule: client_steps.induct)
  case (further c c' c'')
  from further.hyps(2) obtain ev where ev: "client_next ev c' = Some c''" by (rule client_stepE)
  with issued_mono[OF ev] further show ?case by (auto intro: client_next_inv)
qed

end
