(* ===== verification/OvsdbProps.thy ===== *)
theory OvsdbProps
  imports OvsdbClientInv
begin

text \<open>
  What holds of the OVSDB client: a call gets the response to its own request, no callback is left
  behind, the requests and the responses are read as they were meant, and the two ways in which the
  client comes to a halt.
\<close>

section \<open>Texts of the server\<close>

text \<open>A message with its members, as a server writes it.\<close>

lemma decode_members:
  assumes "clean (JObject ms)"
  shows "decode_Response (json_text (JObject ms)) =
    (case fold decode_field (map (\<lambda>m. (fst m, json_text (snd m))) ms) (zero_Response, True) of
       (r, ok) \<Rightarrow> if ok then Inr r else Inl ErrJSONType)"
  by (simp only: decode_Response_def json_parse_text[OF assms] object_members_text[OF assms] option.case json.case)

lemma fold_key_plain: "list_all (\<lambda>c. 91 \<le> byte c \<and> byte c < 128) s \<Longrightarrow> fold_key s = s"
  by (induction s) (auto simp: fold_key.simps[of "_ # _"] fold_key.simps[of "[]"] has_prefix_def byte_def)

definition plain_key :: "string \<Rightarrow> bool" where
  "plain_key k \<longleftrightarrow> list_all (\<lambda>c. 91 \<le> byte c \<and> byte c < 128) k"

lemma is_field_plain: "plain_key k \<Longrightarrow> is_field name k \<longleftrightarrow> name = k"
  by (auto simp: is_field_def plain_key_def fold_key_plain)

lemma plain_keys [simp]:
  "plain_key ''id''" "plain_key ''result''" "plain_key ''error''" "plain_key ''method''" "plain_key ''params''"
  "plain_key ''rows''" "plain_key ''details''" "plain_key ''syntax''"
  by (simp_all add: plain_key_def byte_def)

text \<open>The answer to a request and the request of an echo.\<close>

definition answer :: "string \<Rightarrow> json \<Rightarrow> string" where
  "answer i v = json_text (JObject [(''id'', JString i), (''result'', v), (''error'', JNull)])"

definition notification :: "string \<Rightarrow> json \<Rightarrow> string" where
  "notification m v = json_text (JObject [(''id'', JNull), (''method'', JString m), (''params'', v)])"

lemma ascii_names: "ascii ''id''" "ascii ''result''" "ascii ''error''" "ascii ''method''" "ascii ''params''"
  by (simp_all add: ascii_def byte_def)

lemma clean_answer: "ascii i \<Longrightarrow> clean v \<Longrightarrow> clean (JObject [(''id'', JString i), (''result'', v), (''error'', JNull)])"
  by (simp add: ascii_names[simplified ascii_def] ascii_def byte_def)

lemma clean_notification:
  "ascii m \<Longrightarrow> clean v \<Longrightarrow> clean (JObject [(''id'', JNull), (''method'', JString m), (''params'', v)])"
  by (simp add: ascii_names[simplified ascii_def] ascii_def byte_def)

lemma decode_answer:
  assumes "ascii i" and "clean v"
  shows "decode_Response (answer i v) =
    Inr \<lparr>res_ID = Some i, res_Result = json_text v, res_Error = None, res_Method = [], res_Params = []\<rparr>"
proof -
  have "json_parse (json_text (JString i)) = Some (JString i)" "json_parse (json_text JNull) = Some JNull"
    using assms by (intro json_parse_text; simp)+
  then show ?thesis
    unfolding answer_def decode_members[OF clean_answer[OF assms]]
    by (simp only: list.map fst_conv snd_conv fold_simps decode_field_def is_field_plain plain_keys prod.case
        option.case json.case) (simp add: zero_Response_def)
qed

lemma decode_notification:
  assumes "ascii m" and "clean v"
  shows "decode_Response (notification m v) =
    Inr \<lparr>res_ID = None, res_Result = [], res_Error = None, res_Method = m, res_Params = json_text v\<rparr>"
proof -
  have "json_parse (json_text (JString m)) = Some (JString m)" "json_parse (json_text JNull) = Some JNull"
    using assms by (intro json_parse_text; simp)+
  then show ?thesis
    unfolding notification_def decode_members[OF clean_notification[OF assms]]
    by (simp only: list.map fst_conv snd_conv fold_simps decode_field_def is_field_plain plain_keys prod.case
        option.case json.case) (simp add: zero_Response_def)
qed

lemma parse_answer:
  "ascii i \<Longrightarrow> clean v \<Longrightarrow> json_parse (answer i v) = Some (JObject [(''id'', JString i), (''result'', v), (''error'', JNull)])"
  unfolding answer_def by (intro json_parse_text clean_answer)

lemma parse_notification:
  "ascii m \<Longrightarrow> clean v \<Longrightarrow>
   json_parse (notification m v) = Some (JObject [(''id'', JNull), (''method'', JString m), (''params'', v)])"
  unfolding notification_def by (intro json_parse_text clean_notification)

section \<open>Runs\<close>

lemma steps_trans: "client_steps b c \<Longrightarrow> client_steps a b \<Longrightarrow> client_steps a c"
  by (induction rule: client_steps.induct) (auto intro: client_steps.further)

lemma run_steps: "run evs c = Some c' \<Longrightarrow> client_steps c c'"
proof (induction evs arbitrary: c)
  case (Cons ev evs)
  then obtain d where "client_next ev c = Some d" "client_steps d c'" by (auto split: option.splits)
  then show ?case by (meson client_step.step client_steps.further client_steps.refl steps_trans)
qed (simp add: client_steps.refl)

lemmas client_eval =
  client_next_def rpc_start_def requestID_def on_call_def rpc_register_def addCallback_def rpc_send_def
  rpc_canceled_def rpc_wake_def rpc_clean_def ctx_outcome_def doCallback_def listen_def echo_trigger_def
  guarded_def at_def fresh_call_def Let_def Receive_def Decode_with_def Send_def Encode_defs Request_json_def
  response_for_def Response_Err_def itoa_not_Nil

section \<open>The invariant of the calls\<close>

text \<open>What a call that is registered returns in the end.\<close>

lemma reachable_call:
  assumes "client_steps (New b) c" and "issued c < 2 ^ 64" and "k < length (calls c)"
  shows "call_ok (received c) (calls c ! k)"
  using inv_call[OF reachable_inv[OF assms(1) client_inv_New assms(2)] assms(3)] .

lemma reachable_ids:
  assumes "client_steps (New b) c" and "issued c < 2 ^ 64" and "j < length (calls c)" and "k < length (calls c)"
    and "ID (req (calls c ! j)) = ID (req (calls c ! k))" and "ID (req (calls c ! j)) \<noteq> []"
  shows "j = k"
  using reachable_inv[OF assms(1) client_inv_New assms(2)] assms(3-) unfolding client_inv_def ids_ok_def by blast

text \<open>
  C7.  A call never returns the response to another request, and never returns without an error and without
  a response: what it returns is an error, or a response that the server sent with the identifier of its
  request, and no other call has that identifier.  This holds in every state that the client can reach by
  any interleaving of its goroutines, as long as less than \<open>2 ^ 64\<close> requests were made.
\<close>

theorem response_matching:
  assumes "client_steps (New b) c" and "issued c < 2 ^ 64" and "k < length (calls c)"
    and "pc (calls c ! k) = Returned out"
  shows "(case out of
       Failed e \<Rightarrow> True
     | NoReply \<Rightarrow> False
     | Replied r \<Rightarrow> (ID (req (calls c ! k)), r) \<in> set (received c)) \<and>
   (\<forall>j < length (calls c). ID (req (calls c ! j)) = ID (req (calls c ! k)) \<longrightarrow>
      ID (req (calls c ! j)) \<noteq> [] \<longrightarrow> j = k)"
proof
  have "outcome_ok (ID (req (calls c ! k))) (received c) out"
    using reachable_call[OF assms(1-3)] assms(4) by (simp add: call_ok_def)
  then show "case out of Failed e \<Rightarrow> True | NoReply \<Rightarrow> False
     | Replied r \<Rightarrow> (ID (req (calls c ! k)), r) \<in> set (received c)"
    by (simp add: outcome_ok_def)
qed (use reachable_ids[OF assms(1,2) _ assms(3)] in blast)

text \<open>Two calls whose responses come in the other order.\<close>

definition crossed_run :: "event list" where
  "crossed_run =
     [NewCall ''list_dbs'' None False, NewCall ''list_dbs'' None False, Start 0, Start 1,
      Register 1, Register 0, Transmit 0 None, Transmit 1 None,
      Arrive (answer ''2'' (JArray [])), Arrive (answer ''1'' JNull), Listen True, Listen True,
      Wake 0, Wake 1, Clean 1, Clean 0]"

lemma id_texts: "itoa 1 = ''1''" "itoa 2 = ''2''"
  by (simp_all add: print_eval)

lemma crossed_run_ends:
  "\<exists>c. run crossed_run (New False) = Some c \<and> issued c < 2 ^ 64 \<and> 0 < length (calls c) \<and>
     pc (calls c ! 0) = Returned (Replied \<lparr>Result = ''null'', Error = None\<rparr>)"
proof -
  have a: "ascii ''1''" "ascii ''2''" by (simp_all add: ascii_def byte_def)
  note p = parse_answer[OF a(1), of JNull] parse_answer[OF a(2), of "JArray []"]
    decode_answer[OF a(1), of JNull] decode_answer[OF a(2), of "JArray []"]
  show ?thesis
    by (simp add: crossed_run_def New_def fresh_decoder_def client_eval id_texts p)
qed

lemma response_matching_witness:
  "\<exists>c. run crossed_run (New False) = Some c \<and>
     (ID (req (calls c ! 0)), \<lparr>Result = ''null'', Error = None\<rparr>) \<in> set (received c)"
proof -
  obtain c where c: "run crossed_run (New False) = Some c" "issued c < 2 ^ 64" "0 < length (calls c)"
    "pc (calls c ! 0) = Returned (Replied \<lparr>Result = ''null'', Error = None\<rparr>)"
    using crossed_run_ends by blast
  from response_matching[OF run_steps[OF c(1)] c(2-4)] c(1) show ?thesis by auto
qed

text \<open>
  C8.  In no reachable state has the client panicked because an identifier was registered twice or
  because a channel was closed twice, and the listener never blocks while it holds the mutex of the
  callbacks: when a message is there to be received, the step that hands it on is possible.
\<close>

theorem callbacks_never_block:
  assumes "client_steps (New b) c" and "issued c < 2 ^ 64"
  shows "crashed c \<noteq> Some DuplicateID \<and> crashed c \<noteq> Some ClosedChannel \<and>
    (crashed c = None \<and> listener c = Receiving \<and> Receive (dcd c) \<noteq> None \<longrightarrow>
       client_next (Listen True) c \<noteq> None)"
proof -
  have inv: "client_inv c" by (rule reachable_inv[OF assms(1) client_inv_New assms(2)])
  have cb: "doCallback True i r (c\<lparr>dcd := d, received := rs\<rparr>) \<noteq> None" for i r d rs
    using inv_callback[OF inv, of i] by (auto simp: doCallback_def Let_def split: option.split)
  have "client_next (Listen True) c \<noteq> None"
    if "crashed c = None" "listener c = Receiving" "Receive (dcd c) \<noteq> None"
    using that cb by (auto simp: client_next_def listen_def Let_def split: sum.split option.split prod.split)
  with inv show ?thesis by (simp add: client_inv_def)
qed

lemma callbacks_never_block_witness:
  "\<exists>c. run (take 10 crossed_run) (New False) = Some c \<and> client_next (Listen True) c \<noteq> None"
proof -
  have a: "ascii ''1''" "ascii ''2''" by (simp_all add: ascii_def byte_def)
  note p = parse_answer[OF a(1), of JNull] parse_answer[OF a(2), of "JArray []"]
    decode_answer[OF a(1), of JNull] decode_answer[OF a(2), of "JArray []"]
  have "\<exists>c. run (take 10 crossed_run) (New False) = Some c \<and> issued c < 2 ^ 64 \<and> crashed c = None \<and>
      listener c = Receiving \<and> Receive (dcd c) \<noteq> None"
    by (simp add: crossed_run_def New_def fresh_decoder_def client_eval id_texts p)
  then obtain c where c: "run (take 10 crossed_run) (New False) = Some c" "issued c < 2 ^ 64" "crashed c = None"
    "listener c = Receiving" "Receive (dcd c) \<noteq> None" by blast
  from callbacks_never_block[OF run_steps[OF c(1)] c(2)] c show ?thesis by auto
qed

section \<open>No callback is left behind\<close>

text \<open>The calls that have a callback or may have one.\<close>

definition in_flight :: "client \<Rightarrow> call list" where
  "in_flight c = filter (\<lambda>x. registered (pc x)) (calls c)"

text \<open>
  C26.  The number of callbacks that \<open>Stats\<close> reports is at most the number of calls that are between the
  registration and the clean-up; when all calls have returned, by a response, by an error or because
  their context was done, there is none.
\<close>

theorem no_callback_leaks:
  assumes "client_steps (New b) c" and "issued c < 2 ^ 64"
  shows "Current (Stats c) \<le> length (in_flight c)"
proof -
  have inv: "client_inv c" by (rule reachable_inv[OF assms(1) client_inv_New assms(2)])
  have "dom (callbacks c) \<subseteq> (\<lambda>x. ID (req x)) ` set (in_flight c)"
  proof
    fix i assume "i \<in> dom (callbacks c)"
    then obtain k where "callbacks c i = Some k" by blast
    from inv_callback[OF inv this] show "i \<in> (\<lambda>x. ID (req x)) ` set (in_flight c)"
      by (auto simp: in_flight_def intro!: image_eqI[where x = "calls c ! k"])
  qed
  then have "card (dom (callbacks c)) \<le> card (set (in_flight c))" by (rule surj_card_le[OF finite_set])
  also have "\<dots> \<le> length (in_flight c)" by (rule card_length)
  finally show ?thesis by (simp add: Stats_def)
qed

lemma no_callback_leaks_witness:
  "\<exists>c. run crossed_run (New False) = Some c \<and> in_flight c = [] \<and> Current (Stats c) = 0"
proof -
  have a: "ascii ''1''" "ascii ''2''" by (simp_all add: ascii_def byte_def)
  note p = parse_answer[OF a(1), of JNull] parse_answer[OF a(2), of "JArray []"]
    decode_answer[OF a(1), of JNull] decode_answer[OF a(2), of "JArray []"]
  have "\<exists>c. run crossed_run (New False) = Some c \<and> issued c < 2 ^ 64 \<and> in_flight c = []"
    by (simp add: crossed_run_def New_def fresh_decoder_def client_eval id_texts p in_flight_def)
  then obtain c where c: "run crossed_run (New False) = Some c" "issued c < 2 ^ 64" "in_flight c = []" by blast
  from no_callback_leaks[OF run_steps[OF c(1)] c(2)] c(1,3) show ?thesis by auto
qed

section \<open>The client comes to a halt\<close>

lemma canceled_on_call [simp]: "canceled (on_call k f c) = canceled c"
  by (simp add: on_call_def)

lemma canceled_doCallback: "doCallback sent i r c = Some c' \<Longrightarrow> canceled c' = canceled c"
  by (auto simp: doCallback_def Let_def split: option.splits if_splits)

lemma canceled_listen: "listen sent c = Some c' \<Longrightarrow> canceled c' = canceled c"
  by (auto simp: listen_def Let_def split: option.splits sum.splits if_splits prod.splits dest: canceled_doCallback)

lemma canceled_stays: "client_next ev c = Some c' \<Longrightarrow> canceled c \<Longrightarrow> canceled c'"
  by (cases ev)
    (auto simp: client_next_def rpc_start_def requestID_def rpc_register_def addCallback_def rpc_send_def
      rpc_canceled_def rpc_wake_def rpc_clean_def echo_trigger_def echo_result_def Let_def
      split: if_splits call_pc.splits loop_pc.splits option.splits ovsdb_error.splits prod.splits
      dest: canceled_listen)

text \<open>
  The listener waits for the echo loop to take an echo, and the echo loop waits for the response to the
  one before.
\<close>

definition deadlocked :: "client \<Rightarrow> bool" where
  "deadlocked c \<longleftrightarrow> listener c = Echoing \<and>
     (case echo_loop c of
        Calling k \<Rightarrow> at k Waiting c \<and> background (calls c ! k) \<and> \<not> ctx_done (calls c ! k) \<and>
          chan (calls c ! k) = None \<and> \<not> chan_closed (calls c ! k)
      | _ \<Rightarrow> False)"

text \<open>A step of another call, and a new call, leave a call as it is.\<close>

lemma deadlocked_other:
  assumes "deadlocked c" and "listener c' = listener c" and "echo_loop c' = echo_loop c"
    and "\<And>k. echo_loop c = Calling k \<Longrightarrow> k < length (calls c) \<Longrightarrow> k < length (calls c') \<and> calls c' ! k = calls c ! k"
  shows "deadlocked c'"
  using assms by (auto simp: deadlocked_def at_def split: loop_pc.splits)

definition same_but :: "nat \<Rightarrow> client \<Rightarrow> client \<Rightarrow> bool" where
  "same_but k c c' \<longleftrightarrow> listener c' = listener c \<and> echo_loop c' = echo_loop c \<and> received c' = received c \<and>
     canceled c' = canceled c \<and> dcd c' = dcd c \<and> ticker c' = ticker c \<and>
     (\<exists>y. calls c' = (calls c)[k := y] \<and> background y = background (calls c ! k) \<and>
        ctx_done y = ctx_done (calls c ! k))"

lemma same_but_ops:
  "same_but k c (rpc_start k c)" "same_but k c (rpc_register k c)" "same_but k c (rpc_send net k c)"
  "same_but k c (rpc_canceled k c)" "same_but k c (rpc_wake k c)" "same_but k c (rpc_clean k out c)"
  by (auto simp: same_but_def rpc_start_def requestID_def on_call_def rpc_register_def addCallback_def rpc_send_def
      rpc_canceled_def rpc_wake_def rpc_clean_def Let_def split: prod.split option.split)

lemma rpc_next_call:
  assumes "rpc_next ev c = Some c'"
  shows "\<exists>k. same_but k c c' \<and> k < length (calls c) \<and>
    (pc (calls c ! k) = Waiting \<longrightarrow> ctx_done (calls c ! k) \<or> chan (calls c ! k) \<noteq> None \<or> chan_closed (calls c ! k))"
proof (cases ev)
  case (Clean k)
  with assms show ?thesis
    by (intro exI[of _ k]) (auto simp: same_but_ops split: if_splits call_pc.splits)
next
  case (Transmit k net)
  with assms show ?thesis by (intro exI[of _ k]) (auto simp: same_but_ops at_def)
next
  case (Start k)
  with assms show ?thesis by (intro exI[of _ k]) (auto simp: same_but_ops at_def)
next
  case (Register k)
  with assms show ?thesis by (intro exI[of _ k]) (auto simp: same_but_ops at_def)
next
  case (Canceled k)
  with assms show ?thesis by (intro exI[of _ k]) (auto simp: same_but_ops at_def)
next
  case (Wake k)
  with assms show ?thesis by (intro exI[of _ k]) (auto simp: same_but_ops at_def)
qed (use assms in simp_all)

lemma deadlocked_rpc:
  assumes "deadlocked c" and "rpc_next ev c = Some c'"
  shows "deadlocked c' \<and> received c' = received c"
proof -
  from rpc_next_call[OF assms(2)] obtain j y where c': "listener c' = listener c" "echo_loop c' = echo_loop c"
    "received c' = received c" "calls c' = (calls c)[j := y]" "j < length (calls c)"
    and w: "pc (calls c ! j) = Waiting \<longrightarrow> ctx_done (calls c ! j) \<or> chan (calls c ! j) \<noteq> None \<or> chan_closed (calls c ! j)"
    unfolding same_but_def by blast
  have "j \<noteq> k" if "echo_loop c = Calling k" for k
    using assms(1) that w by (auto simp: deadlocked_def at_def)
  then have "deadlocked c'" using c' by (intro deadlocked_other[OF assms(1)]) auto
  with c'(3) show ?thesis by simp
qed

lemma deadlocked_next:
  assumes d: "deadlocked c" and n: "client_next ev c = Some c'" and "\<not> canceled c'"
  shows "deadlocked c' \<and> received c' = received c"
proof -
  have can: "\<not> canceled c" using canceled_stays[OF n] assms(3) by blast
  have l: "listener c = Echoing" "echo_loop c \<noteq> Idle" "echo_loop c \<noteq> Ended"
    using d by (auto simp: deadlocked_def split: loop_pc.splits)
  consider (rpc) "rpc_next ev c = Some c'" | (ret) "ev = EchoDone" | (tick) "ev = Tick"
    | (new) m a b where "ev = NewCall m a b" | (cancel) k where "ev = CancelCall k"
    | (arrive) t where "ev = Arrive t" | (ends) e where "ev = ConnEnds e"
    using n can l assms(3) by (cases ev) (auto simp: client_next_def split: if_splits)
  then show ?thesis
  proof cases
    case rpc
    then show ?thesis by (rule deadlocked_rpc[OF d])
  next
    case ret
    with n d show ?thesis
      by (auto simp: client_next_def deadlocked_def at_def split: if_splits loop_pc.splits)
  next
    case cancel
    with n d show ?thesis
      by (auto simp: client_next_def deadlocked_def at_def on_call_def nth_list_update split: if_splits loop_pc.splits)
  next
    case new
    with n d show ?thesis
      by (auto simp: client_next_def deadlocked_def at_def nth_append split: if_splits loop_pc.splits)
  qed (use n d can in \<open>auto simp: client_next_def deadlocked_def at_def split: if_splits loop_pc.splits\<close>)
qed

lemma deadlocked_steps:
  "client_steps c c' \<Longrightarrow> deadlocked c \<Longrightarrow> \<not> canceled c' \<Longrightarrow> deadlocked c' \<and> received c' = received c"
proof (induction rule: client_steps.induct)
  case (further c c' c'')
  from further.hyps(2) obtain ev where ev: "client_next ev c' = Some c''" by (rule client_stepE)
  from canceled_stays[OF ev] further.prems(2) have "\<not> canceled c'" by blast
  with further.IH further.prems(1) have "deadlocked c'" "received c' = received c" by auto
  with deadlocked_next[OF _ ev further.prems(2)] show ?case by simp
qed simp

text \<open>
  C21.  When the server sends an echo request while the echo loop waits for the response to its own
  request, the listener waits for the echo loop, which waits for the listener: from then on no response is
  handed to any call, whatever arrives and whatever the callers do, until the client is closed.
\<close>

theorem echo_deadlock:
  assumes "deadlocked c" and "client_steps c c'" and "\<not> canceled c'"
  shows "deadlocked c' \<and> received c' = received c"
  using deadlocked_steps[OF assms(2,1,3)] .

text \<open>
  The server sends an echo request, the client answers by a request of its own, and before the response to
  it comes another echo request.
\<close>

definition deadlock_run :: "event list" where
  "deadlock_run =
     [Arrive (notification ''echo'' (JArray [])), Listen True, ListenTriggers,
      Start 0, Register 0, Transmit 0 None,
      Arrive (notification ''echo'' (JArray [])), Listen True]"

lemma echo_deadlock_witness:
  "\<exists>c c'. run deadlock_run (New False) = Some c \<and> run [Arrive (answer ''1'' (JArray [JString echo_text]))] c = Some c' \<and>
     deadlocked c' \<and> received c' = received c"
proof -
  have a: "ascii ''echo''" "clean (JArray [])" by (simp_all add: ascii_def byte_def)
  have p: "Request_json \<lparr>ID = ''1'', Method = ''echo'', Params = echo_params\<rparr> =
      Inr (JObject [(''id'', JString ''1''), (''method'', JString ''echo''), (''params'', JArray [JString echo_text])])"
    by (simp add: Request_json_def echo_params_def)
  have "\<exists>c. run deadlock_run (New False) = Some c \<and> deadlocked c \<and> \<not> canceled c \<and> crashed c = None \<and> stream_end (dcd c) = None"
    by (simp add: deadlock_run_def New_def fresh_decoder_def client_eval id_texts echo_params_def deadlocked_def
        parse_notification[OF a] decode_notification[OF a])
  then obtain c where c: "run deadlock_run (New False) = Some c" "deadlocked c" "\<not> canceled c" "crashed c = None"
    "stream_end (dcd c) = None" by blast
  then obtain c' where c': "run [Arrive (answer ''1'' (JArray [JString echo_text]))] c = Some c'" "\<not> canceled c'"
    by (simp add: client_next_def guarded_def)
  from echo_deadlock[OF c(2) run_steps[OF c'(1)] c'(2)] c(1) c'(1) show ?thesis by blast
qed

text \<open>The decoder has met a malformed text or an error of the connection that is not taken for its end.\<close>

definition spinning :: "client \<Rightarrow> bool" where
  "spinning c \<longleftrightarrow> listener c \<noteq> Stopped \<and>
     (case dec_err (dcd c) of None \<Rightarrow> False | Some e \<Rightarrow> e \<noteq> errEOF \<and> \<not> isClosedNetwork e)"

lemma spinning_rpc: "rpc_next ev c = Some c' \<Longrightarrow> dcd c' = dcd c \<and> listener c' = listener c"
  by (cases "(ev, c)" rule: rpc_next.cases)
    (auto simp: at_def rpc_start_def requestID_def on_call_def rpc_register_def addCallback_def rpc_send_def
      rpc_canceled_def rpc_wake_def rpc_clean_def Let_def split: if_splits prod.splits option.splits call_pc.splits)

lemma spinning_listen:
  assumes "spinning c" and "listen sent c = Some c'"
  shows "spinning c'"
proof -
  obtain e where "dec_err (dcd c) = Some e" "e \<noteq> errEOF" "\<not> isClosedNetwork e"
    using assms(1) by (auto simp: spinning_def split: option.splits)
  with assms show ?thesis by (auto simp: spinning_def listen_def Receive_def Decode_with_def)
qed

lemma echo_result_frame:
  "dcd (echo_result out c) = dcd c" "listener (echo_result out c) = listener c"
  "calls (echo_result out c) = calls c" "canceled (echo_result out c) = canceled c"
  "ticker (echo_result out c) = ticker c"
  by (cases "echo_error out"; cases "the (echo_error out)"; simp add: echo_result_def)+

lemma spinningI:
  "spinning c \<Longrightarrow> dec_err (dcd c') = dec_err (dcd c) \<Longrightarrow> listener c' \<noteq> Stopped \<Longrightarrow> spinning c'"
  by (simp add: spinning_def)

lemma spinning_next:
  assumes s: "spinning c" and n: "client_next ev c = Some c'"
  shows "spinning c'"
proof (cases "\<exists>b. ev = Listen b")
  case True
  with n spinning_listen[OF s] show ?thesis by (auto simp: client_next_def split: if_splits)
next
  case False
  have l: "listener c \<noteq> Stopped" using s by (simp add: spinning_def)
  have "dec_err (dcd c') = dec_err (dcd c) \<and> listener c' \<noteq> Stopped"
  proof (cases "rpc_next ev c = Some c'")
    case True
    with l spinning_rpc[OF True] show ?thesis by simp
  next
    case no: False
    with False n l show ?thesis
      by (cases ev) (auto simp: client_next_def echo_result_frame echo_trigger_def on_call_def
        split: if_splits loop_pc.splits call_pc.splits)
  qed
  then show ?thesis by (intro spinningI[OF s]) simp_all
qed

text \<open>
  C30.  Once the decoder has met a text that is not JSON, or any error of the connection other than its
  regular end, the listener never stops: it reads the same error again and again, and \<open>Close\<close>, which
  waits for it, does not return, whatever happens in between.
\<close>

theorem listener_never_stops:
  assumes "spinning c" and "client_steps c c'"
  shows "\<not> all_ended c'"
proof -
  from assms(2,1) have "spinning c'"
    by (induction rule: client_steps.induct) (auto elim: client_stepE intro: spinning_next)
  then show ?thesis by (simp add: spinning_def all_ended_def)
qed

lemma listener_never_stops_witness:
  "\<exists>c c'. run [Arrive ''}'', Listen True] (New False) = Some c \<and>
     run [Listen True, CloseCancel, CloseConn 0, Listen True, EchoStops, Listen True] c = Some c' \<and> \<not> all_ended c'"
proof -
  have p: "json_parse ''}'' = None"
    by (simp add: json_parse_def skip_Cons json_space_def has_prefix_def number_def number_int_def is_digit_def byte_def
        eval_nat_numeral)
  have "\<exists>c. run [Arrive ''}'', Listen True] (New False) = Some c \<and> spinning c \<and>
      run [Listen True, CloseCancel, CloseConn 0, Listen True, EchoStops, Listen True] c \<noteq> None"
    by (simp add: New_def fresh_decoder_def client_eval p spinning_def)
  then obtain c c' where c: "run [Arrive ''}'', Listen True] (New False) = Some c" "spinning c"
    "run [Listen True, CloseCancel, CloseConn 0, Listen True, EchoStops, Listen True] c = Some c'" by blast
  from listener_never_stops[OF c(2) run_steps[OF c(3)]] c(1,3) show ?thesis by blast
qed

section \<open>Closing\<close>

text \<open>The background calls have the context of the client, and the echo loop waits for one of them.\<close>

definition background_inv :: "client \<Rightarrow> bool" where
  "background_inv c \<longleftrightarrow> (\<forall>x \<in> set (calls c). background x \<longrightarrow> ctx_done x = canceled c) \<and>
     (\<forall>k. echo_loop c = Calling k \<longrightarrow> k < length (calls c) \<and> background (calls c ! k))"

lemma background_inv_same_but:
  assumes "background_inv c" and "same_but k c c'" and "k < length (calls c)"
  shows "background_inv c'"
proof -
  obtain y where y: "calls c' = (calls c)[k := y]" "background y = background (calls c ! k)"
    "ctx_done y = ctx_done (calls c ! k)" "canceled c' = canceled c" "echo_loop c' = echo_loop c"
    using assms(2) by (auto simp: same_but_def)
  have "background x \<longrightarrow> ctx_done x = canceled c" if "x \<in> set ((calls c)[k := y])" for x
  proof -
    have "x = y \<or> x \<in> set (calls c)" using that set_update_subset_insert[of "calls c" k y] by auto
    with assms(1,3) y(2,3) nth_mem[OF assms(3)] show ?thesis by (auto simp: background_inv_def)
  qed
  moreover have "background ((calls c)[k := y] ! j) = background (calls c ! j)" for j
    using y(2) assms(3) by (cases "j = k") simp_all
  ultimately show ?thesis using assms(1) y(1,4,5) by (simp add: background_inv_def)
qed

lemma same_but_callback:
  "callbacks c i = Some k \<Longrightarrow> doCallback sent i r c = Some c' \<Longrightarrow>
   listener c' = listener c \<and> echo_loop c' = echo_loop c \<and> canceled c' = canceled c \<and> dcd c' = dcd c \<and>
   ticker c' = ticker c \<and> (c' = c\<lparr>crashed := Some ClosedChannel\<rparr> \<or> same_but k c c')"
  by (auto simp: doCallback_def Let_def on_call_def same_but_def split: if_splits)

lemma background_inv_fields [simp]:
  "background_inv (c\<lparr>listener := l\<rparr>) = background_inv c" "background_inv (c\<lparr>ticker := t\<rparr>) = background_inv c"
  "background_inv (c\<lparr>dcd := d\<rparr>) = background_inv c" "background_inv (c\<lparr>received := ms\<rparr>) = background_inv c"
  "background_inv (c\<lparr>crashed := b\<rparr>) = background_inv c"
  by (simp_all add: background_inv_def)

lemma background_inv_callback:
  assumes "background_inv c" and "client_inv c" and "doCallback sent i r c = Some c'"
  shows "background_inv c'"
proof (cases "callbacks c i")
  case None
  with assms show ?thesis by (simp add: doCallback_def)
next
  case (Some k)
  from same_but_callback[OF this assms(3)] assms(1) inv_callback(1)[OF assms(2) Some] show ?thesis
    by (auto intro: background_inv_same_but)
qed

lemma background_inv_listen:
  assumes b: "background_inv c" and i: "client_inv c" and c': "listen sent c = Some c'"
  shows "background_inv c'"
proof -
  have inv: "client_inv (c\<lparr>dcd := d, received := received c @ ms\<rparr>)" for d ms
    using inv_received[of "c\<lparr>dcd := d\<rparr>" ms] i by simp
  from c' b show ?thesis
    by (auto simp: listen_def Let_def split: option.splits sum.splits if_splits prod.splits
      elim!: background_inv_callback[rotated 2] intro: inv)
qed

lemma background_inv_trigger: "background_inv c \<Longrightarrow> background_inv (echo_trigger c)"
  by (auto simp: background_inv_def echo_trigger_def fresh_call_def nth_append split: loop_pc.splits)

lemma background_inv_result:
  assumes "background_inv c" shows "background_inv (echo_result out c)"
  using assms
  by (cases "echo_error out"; cases "the (echo_error out)"; simp add: echo_result_def background_inv_def)

lemma background_inv_new:
  "background_inv c \<Longrightarrow> background_inv (c\<lparr>calls := calls c @ [fresh_call m a False d]\<rparr>)"
  by (auto simp: background_inv_def fresh_call_def nth_append)

lemma background_inv_ended: "background_inv c \<Longrightarrow> background_inv (c\<lparr>echo_loop := Ended\<rparr>)"
  by (simp add: background_inv_def)

lemma background_inv_next:
  assumes b: "background_inv c" and i: "client_inv c" and n: "client_next ev c = Some c'"
  shows "background_inv c'"
proof (cases "rpc_next ev c = Some c'")
  case True
  from rpc_next_call[OF this] background_inv_same_but[OF b] show ?thesis by blast
next
  case False
  with n b i show ?thesis
  proof (cases ev)
    case CloseCancel
    with n b show ?thesis
      by (auto simp: client_next_def background_inv_def split: if_splits loop_pc.splits)
  next
    case (CancelCall k)
    with n b set_update_subset_insert[of "calls c" k "(calls c ! k)\<lparr>ctx_done := True\<rparr>"] show ?thesis
      by (auto simp: client_next_def background_inv_def on_call_def nth_list_update split: if_splits loop_pc.splits)
  qed (auto simp: client_next_def
      intro: background_inv_listen background_inv_trigger background_inv_result background_inv_new background_inv_ended
      split: if_splits loop_pc.splits call_pc.splits)
qed

lemma reachable_background:
  "client_steps c c' \<Longrightarrow> background_inv c \<Longrightarrow> client_inv c \<Longrightarrow> issued c' < 2 ^ 64 \<Longrightarrow> background_inv c'"
proof (induction rule: client_steps.induct)
  case (further c c' c'')
  from further.hyps(2) obtain ev where ev: "client_next ev c' = Some c''" by (rule client_stepE)
  from issued_mono[OF ev] further.prems(3) have "issued c' < 2 ^ 64" by simp
  with further reachable_inv[OF further.hyps(1)] background_inv_next[OF _ _ ev] show ?case by blast
qed simp

text \<open>The steps that a call whose context is done has before it.\<close>

fun steps_left :: "call_pc \<Rightarrow> nat" where
  "steps_left Starting = 1"
| "steps_left Registering = 4"
| "steps_left Sending = 3"
| "steps_left Waiting = 2"
| "steps_left (Cleaning _) = 1"
| "steps_left (Returned _) = 0"

text \<open>A call whose context is done takes a step towards its return.\<close>

lemma canceled_call_step:
  assumes inv: "client_inv c" and cr: "crashed c = None" and k: "k < length (calls c)" "ctx_done (calls c ! k)"
    and p: "\<not> (\<exists>out. pc (calls c ! k) = Returned out)"
  shows "\<exists>ev c'. client_next ev c = Some c' \<and> same_but k c c' \<and> crashed c' = None \<and> issued c' = issued c \<and>
    steps_left (pc (calls c' ! k)) < steps_left (pc (calls c ! k))"
proof (cases "pc (calls c ! k)")
  case Starting
  with cr k show ?thesis
    by (intro exI[of _ "Start k"]) (auto simp: client_next_def at_def guarded_def rpc_start_def on_call_def same_but_def)
next
  case Registering
  have "callbacks c (ID (req (calls c ! k))) = None"
    using inv_callback_same[OF inv _ k(1)] not_registered[OF inv k(1), of "ID (req (calls c ! k))"] Registering
    by (cases "callbacks c (ID (req (calls c ! k)))") auto
  with Registering cr k show ?thesis
    by (intro exI[of _ "Register k"])
      (auto simp: client_next_def at_def guarded_def rpc_register_def addCallback_def on_call_def same_but_def)
next
  case Sending
  obtain e en where "Send (Some ErrContext) (req (calls c ! k)) (enc c) = (e, en)" by (cases "Send (Some ErrContext) (req (calls c ! k)) (enc c)")
  with Sending cr k show ?thesis
    by (intro exI[of _ "Transmit k (Some ErrContext)"] exI[of _ "rpc_send (Some ErrContext) k c"])
      (cases e, auto simp: client_next_def at_def guarded_def rpc_send_def on_call_def same_but_def)
next
  case Waiting
  with cr k show ?thesis
    by (intro exI[of _ "Canceled k"])
      (auto simp: client_next_def at_def guarded_def rpc_canceled_def on_call_def same_but_def)
next
  case (Cleaning out)
  with cr k show ?thesis
    by (intro exI[of _ "Clean k"]) (auto simp: client_next_def rpc_clean_def on_call_def same_but_def)
qed (use p in simp)

text \<open>What stays as it is while the goroutines end.\<close>

definition closing :: "client \<Rightarrow> bool" where
  "closing c \<longleftrightarrow> client_inv c \<and> background_inv c \<and> issued c < 2 ^ 64 \<and> canceled c \<and> crashed c = None \<and>
     dec_err (dcd c) = None \<and> texts (dcd c) = [] \<and> stream_end (dcd c) = Some (ErrNetwork closed_text)"

lemma closing_next:
  assumes "closing c" and "client_next ev c = Some c'" and "issued c' = issued c" and "crashed c' = None"
    and "dcd c' = dcd c"
  shows "closing c'"
  using assms client_next_inv[of c ev c'] background_inv_next[of c ev c'] canceled_stays[of ev c c']
  by (auto simp: closing_def)

lemma step_next: "client_next ev c = Some c' \<Longrightarrow> client_steps c c'"
  by (meson client_step.step client_steps.intros)

lemma echo_loop_idle:
  assumes "closing c" and "echo_loop c = Calling k"
  shows "\<exists>c'. client_steps c c' \<and> (crashed c' = Some NilResult \<or> closing c' \<and> echo_loop c' = Idle)"
  using assms
proof (induction "steps_left (pc (calls c ! k))" arbitrary: c rule: less_induct)
  case less
  have k: "k < length (calls c)" "ctx_done (calls c ! k)"
    using less.prems nth_mem[of k "calls c"] by (auto simp: closing_def background_inv_def)
  show ?case
  proof (cases "\<exists>out. pc (calls c ! k) = Returned out")
    case True
    then obtain out where out: "pc (calls c ! k) = Returned out" by blast
    then have n: "client_next EchoDone c = Some (echo_result out c)"
      using less.prems by (simp add: client_next_def closing_def)
    have r: "crashed (echo_result out c) = Some NilResult \<or>
        crashed (echo_result out c) = None \<and> echo_loop (echo_result out c) = Idle \<and> issued (echo_result out c) = issued c"
      using less.prems
      by (cases "echo_error out"; cases "the (echo_error out)"; simp add: echo_result_def closing_def)
    with n closing_next[OF less.prems(1) n] echo_result_frame(1) step_next[OF n] show ?thesis by metis
  next
    case False
    have "client_inv c" "crashed c = None" using less.prems(1) by (simp_all add: closing_def)
    from canceled_call_step[OF this k False] obtain ev c' where
      n: "client_next ev c = Some c'" and s: "same_but k c c'" "crashed c' = None" "issued c' = issued c"
        "steps_left (pc (calls c' ! k)) < steps_left (pc (calls c ! k))" by blast
    then have "closing c'" "echo_loop c' = Calling k"
      using closing_next[OF less.prems(1) n] less.prems(2) by (auto simp: same_but_def)
    from less.hyps[OF s(4) this] obtain d where
      "client_steps c' d" "crashed d = Some NilResult \<or> closing d \<and> echo_loop d = Idle" by blast
    with step_next[OF n] show ?thesis by (blast intro: steps_trans)
  qed
qed

lemma echo_loop_ended:
  assumes "closing c"
  shows "\<exists>c'. client_steps c c' \<and> (crashed c' = Some NilResult \<or> closing c' \<and> echo_loop c' = Ended)"
proof -
  have idle: "\<exists>d. client_steps c' d \<and> closing d \<and> echo_loop d = Ended" if "closing c'" "echo_loop c' = Idle" for c'
  proof -
    have n: "client_next EchoStops c' = Some (c'\<lparr>echo_loop := Ended\<rparr>)"
      using that by (simp add: client_next_def closing_def guarded_def)
    with closing_next[OF that(1) n] that(1) step_next[OF n] show ?thesis
      by (intro exI[of _ "c'\<lparr>echo_loop := Ended\<rparr>"]) (simp add: closing_def)
  qed
  show ?thesis
  proof (cases "echo_loop c")
    case (Calling k)
    from echo_loop_idle[OF assms this] obtain c' where
      "client_steps c c'" "crashed c' = Some NilResult \<or> closing c' \<and> echo_loop c' = Idle" by blast
    with idle[of c'] show ?thesis by (blast intro: steps_trans)
  next
    case Idle
    with idle[OF assms] show ?thesis by blast
  next
    case Ended
    with assms show ?thesis by (blast intro: client_steps.refl)
  qed
qed

text \<open>The ticker ends, then the listener.\<close>

lemma others_end:
  assumes c: "closing c" and e: "echo_loop c = Ended"
  shows "\<exists>c'. client_steps c c' \<and> all_ended c'"
proof -
  let ?c = "c\<lparr>ticker := TickerEnded\<rparr>" and ?d = "\<lambda>c. c\<lparr>dcd := (dcd c)\<lparr>dec_err := Some (ErrNetwork closed_text)\<rparr>, listener := Stopped\<rparr>"
  have t: "client_steps c ?c"
  proof (cases "ticker c = TickerEnded")
    case True
    then have "?c = c" by simp
    then show ?thesis by (metis client_steps.refl)
  next
    case False
    then have "client_next TickerStops c = Some ?c" using c by (simp add: client_next_def closing_def guarded_def)
    then show ?thesis by (rule step_next)
  qed
  have closed: "isClosedNetwork (ErrDecode (ErrNetwork closed_text))" by (simp add: contains_iff)
  have recv: "client_steps b (?d b)"
    if "listener b = Receiving" "crashed b = None" "dcd b = dcd c" for b
  proof -
    have "Receive (dcd c) = Some (Inl (ErrDecode (ErrNetwork closed_text)), (dcd c)\<lparr>dec_err := Some (ErrNetwork closed_text)\<rparr>)"
      using c by (simp add: closing_def Receive_def Decode_with_def)
    with that closed have "client_next (Listen True) b = Some (?d b)"
      by (simp add: client_next_def listen_def Let_def)
    then show ?thesis by (rule step_next)
  qed
  have cr: "crashed c = None" "canceled c" using c by (simp_all add: closing_def)
  consider "listener c = Stopped" | "listener c = Receiving" | "listener c = Echoing" by (cases "listener c")
  then show ?thesis
  proof cases
    case 1
    with t e show ?thesis by (intro exI[of _ ?c]) (simp add: all_ended_def)
  next
    case 2
    with recv[of ?c] t e cr show ?thesis
      by (intro exI[of _ "?d ?c"]) (auto simp: all_ended_def intro: steps_trans)
  next
    case 3
    let ?b = "?c\<lparr>listener := Receiving\<rparr>"
    have "client_next ListenGivesUp ?c = Some ?b" using 3 cr by (simp add: client_next_def guarded_def)
    with recv[of ?b] t e cr have "client_steps c (?d ?b)" by (auto intro: steps_trans dest: step_next)
    with e show ?thesis by (intro exI[of _ "?d ?b"]) (simp add: all_ended_def)
  qed
qed

text \<open>
  C28.  Once the context is canceled and the connection is closed, when the decoder has had no error before and nothing is
  left that it could still read, the goroutines can all end, wherever they were; or one of them panics, the echo loop
  over a response that is \<open>null\<close>.  After a malformed text they cannot, as another property shows.
\<close>

theorem close_can_finish:
  assumes "client_steps (New b) c" and "issued c < 2 ^ 64" and "canceled c" and "crashed c = None"
    and "dec_err (dcd c) = None" and "texts (dcd c) = []" and "stream_end (dcd c) = Some (ErrNetwork closed_text)"
  shows "\<exists>c'. client_steps c c' \<and> (all_ended c' \<or> crashed c' = Some NilResult)"
proof -
  have bg: "background_inv (New b)" by (simp add: background_inv_def New_def)
  have "closing c"
    using assms reachable_inv[OF assms(1) client_inv_New assms(2)]
      reachable_background[OF assms(1) bg client_inv_New assms(2)] by (simp add: closing_def)
  from echo_loop_ended[OF this] obtain d where
    "client_steps c d" "crashed d = Some NilResult \<or> closing d \<and> echo_loop d = Ended" by blast
  with others_end[of d] show ?thesis by (blast intro: steps_trans)
qed

text \<open>The client is closed while the echo loop waits for the response to its request.\<close>

definition closing_run :: "event list" where
  "closing_run =
     [Tick, TickerTriggers, Start 0, Register 0, Transmit 0 None, Arrive ''12'', CloseCancel, CloseConn 0]"

lemma close_can_finish_witness:
  "\<exists>c c'. run closing_run (New True) = Some c \<and> client_steps c c' \<and> (all_ended c' \<or> crashed c' = Some NilResult)"
proof -
  have "\<exists>c. run closing_run (New True) = Some c \<and> issued c < 2 ^ 64 \<and> canceled c \<and> crashed c = None \<and>
      dec_err (dcd c) = None \<and> texts (dcd c) = [] \<and> stream_end (dcd c) = Some (ErrNetwork closed_text)"
    by (simp add: closing_run_def New_def fresh_decoder_def client_eval id_texts echo_params_def)
  then obtain c where c: "run closing_run (New True) = Some c" "issued c < 2 ^ 64" "canceled c" "crashed c = None"
    "dec_err (dcd c) = None" "texts (dcd c) = []" "stream_end (dcd c) = Some (ErrNetwork closed_text)" by blast
  from close_can_finish[OF run_steps[OF c(1)] c(2-)] c(1) show ?thesis by blast
qed

section \<open>Results\<close>

text \<open>
  A response without a JSON-RPC error makes the caller panic exactly when its result is \<open>null\<close>:
  \<open>json.Unmarshal\<close> sets the pointer to the result to nil, and the next line reads through it.
\<close>

theorem rpcResult_panics_on_null:
  "(Error res = None \<and> (\<exists>s. rpcResult decode res = Inl (Panic s))) \<longleftrightarrow>
   (Error res = None \<and> json_parse (Result res) = Some JNull)"
proof -
  have e: "decode_Error v \<noteq> Inl (Panic s)" for v s by (auto simp: decode_Error_def split: json.splits prod.splits if_splits)
  have "result_UnmarshalJSON decode b \<noteq> Inl (Panic s)" for b s
    using e by (auto simp: result_UnmarshalJSON_def split: option.splits sum.splits if_splits)
  then show ?thesis by (auto simp: rpcResult_def split: option.splits json.splits sum.splits)
qed

text \<open>The results of the operations of a transaction, as a server writes them.\<close>

datatype (plugins only: code size) op_result =
    Rows "(string \<times> json) list list"
  | OpFailed string string
  | NotRun

fun op_json :: "op_result \<Rightarrow> json" where
  "op_json (Rows rs) = JObject [(''rows'', JArray (map JObject rs))]"
| "op_json (OpFailed e d) = JObject [(''error'', JString e), (''details'', JString d)]"
| "op_json NotRun = JNull"

fun op_rows :: "op_result \<Rightarrow> Row list" where
  "op_rows (Rows rs) = map (\<lambda>ms. map_of (rev ms)) rs"
| "op_rows _ = []"

lemma all_some_map: "(\<And>x. x \<in> set xs \<Longrightarrow> f x = Some (g x)) \<Longrightarrow> all_some (map f xs) = Some (map g xs)"
  by (induction xs) simp_all

lemma decode_op_json: "decode_op (op_json r) = Some (op_rows r)"
proof (cases r)
  case (Rows rs)
  have "all_some (map decode_Row (map JObject rs)) = Some (map (\<lambda>ms. map_of (rev ms)) rs)"
    unfolding map_map by (rule all_some_map) simp
  with Rows show ?thesis by (simp add: is_field_plain)
qed (simp_all add: is_field_plain)

lemma reply_array:
  assumes "clean (JArray vs)" and "decode (JArray vs) = Some a"
  shows "rpcResult decode \<lparr>Result = json_text (JArray vs), Error = None\<rparr> = Inr a"
proof -
  have "\<not> has_prefix (json_text (JArray vs)) errPrefix" by (simp add: has_prefix_def errPrefix_def)
  with assms json_parse_text[OF assms(1)] show ?thesis
    by (simp add: rpcResult_def result_UnmarshalJSON_def del: json_text.simps)
qed

text \<open>
  C29.  \<open>Transact\<close> returns the rows of all operations in order; an operation that failed on the server
  adds no row and no error: the error of a transaction that the server refused is lost.
\<close>

theorem Transact_drops_errors:
  assumes "clean (JArray (map op_json rs))"
  shows "Transact (\<lambda>meth arg. Inr \<lparr>Result = json_text (JArray (map op_json rs)), Error = None\<rparr>) db ops =
    Inr (concat (map op_rows rs))"
proof -
  have "all_some (map decode_op (map op_json rs)) = Some (map op_rows rs)"
    unfolding map_map by (rule all_some_map) (simp add: decode_op_json)
  then have "decode_out (JArray (map op_json rs)) = Some (map op_rows rs)" by simp
  from reply_array[where decode = decode_out, OF assms this] show ?thesis
    by (simp add: Transact_def rpc_reply_def del: json_text.simps)
qed

lemma Transact_drops_errors_witness:
  "Transact (\<lambda>meth arg. Inr \<lparr>Result = json_text (JArray [op_json (Rows [[(''name'', JString ''br0'')]]),
       op_json (OpFailed ''constraint violation'' [])]), Error = None\<rparr>) ''Open_vSwitch'' [] =
   Inr [[''name'' \<mapsto> JString ''br0'']]"
  using Transact_drops_errors[of "[Rows [[(''name'', JString ''br0'')]], OpFailed ''constraint violation'' []]" "''Open_vSwitch''" "[]"]
  by (simp add: ascii_def byte_def)

text \<open>
  The answer of a server to \<open>list_dbs\<close>, written as JSON with the identifier of the request, is read
  as a response with that identifier, and \<open>ListDatabases\<close> returns exactly the names in it.
\<close>

theorem ListDatabases_reads_answer:
  assumes "ascii i" and "list_all ascii names"
  shows "(case decode_Response (answer i (JArray (map JString names))) of
      Inl _ \<Rightarrow> False
    | Inr res \<Rightarrow> res_ID res = Some i \<and> ListDatabases (\<lambda>meth arg. Inr (response_for res)) = Inr names)"
proof -
  have c: "clean (JArray (map JString names))" using assms(2) by (simp add: list_all_iff)
  have "decode_strings (JArray (map JString names)) = Some names"
    using all_some_map[of names "\<lambda>s. decode_string (JString s)" "\<lambda>s. s"] by (simp add: comp_def)
  from reply_array[where decode = decode_strings, OF c this] show ?thesis
    by (simp add: decode_answer[OF assms(1) c] response_for_def Response_Err_def ListDatabases_def rpc_reply_def
        del: json_text.simps)
qed

lemma ListDatabases_reads_answer_witness:
  "(case decode_Response (answer ''7'' (JArray [JString ''Open_vSwitch'', JString ''hardware_vtep''])) of
      Inl _ \<Rightarrow> False
    | Inr res \<Rightarrow> res_ID res = Some ''7'' \<and>
        ListDatabases (\<lambda>meth arg. Inr (response_for res)) = Inr [''Open_vSwitch'', ''hardware_vtep''])"
  using ListDatabases_reads_answer[of "''7''" "[''Open_vSwitch'', ''hardware_vtep'']"]
  by (simp add: ascii_def byte_def)

section \<open>Requests\<close>

lemma json_parse_line: "clean v \<Longrightarrow> json_parse (json_text v @ [CHR 0x0A]) = Some v"
  using json_value_text[of v "2 * length (json_text v @ [CHR 0x0A]) + 2" "[CHR 0x0A]"] calls_needed_text[of v]
  by (simp add: json_parse_def stop_def skip_def json_space_def)

text \<open>
  C27.  A request that is sent is one JSON value on the connection, and a server that reads it finds the
  identifier, the method and the parameters that the client gave, with an empty array where it gave none.
\<close>

theorem request_round_trip:
  assumes "ID rq \<noteq> []" and "ascii (ID rq)" and "ascii (Method rq)" and "enc_err en = None"
    and "Params rq = map_option Inr arg" and "case arg of None \<Rightarrow> True | Some p \<Rightarrow> clean p"
  shows "(case Send None rq en of (err, en') \<Rightarrow>
      err = None \<and> take (length (written en)) (written en') = written en \<and>
      Option.bind (json_parse (drop (length (written en)) (written en'))) request_of =
        Some (ID rq, Method rq, case arg of None \<Rightarrow> JArray [] | Some p \<Rightarrow> p))"
proof -
  let ?p = "case arg of None \<Rightarrow> JArray [] | Some p \<Rightarrow> p"
  let ?j = "JObject [(''id'', JString (ID rq)), (''method'', JString (Method rq)), (''params'', ?p)]"
  have "clean ?j" using assms(2,3,6) by (auto simp: ascii_def byte_def split: option.splits)
  note r = json_parse_line[OF this]
  have "Send None rq en = (None, en\<lparr>written := written en @ json_text ?j @ [CHR 0x0A]\<rparr>)"
    using assms(1,4,5) by (cases arg) (simp_all add: Send_def Encode_defs Request_json_def del: json_text.simps)
  with r show ?thesis by (simp add: request_of_def del: json_text.simps)
qed

lemma request_round_trip_witness:
  "(case Send None \<lparr>ID = ''3'', Method = ''transact'', Params = Some (transactArg_MarshalJSON
        \<lparr>Database = ''db'', Ops = [Inr (Select_MarshalJSON \<lparr>Table = ''Bridge'', Where = Some [Equal ''name'' ''br0'']\<rparr>)]\<rparr>)\<rparr>
      \<lparr>written = [], enc_err = None\<rparr> of (err, enc') \<Rightarrow>
      err = None \<and> take 0 (written enc') = [] \<and>
      Option.bind (json_parse (drop 0 (written enc'))) request_of =
        Some (''3'', ''transact'', JArray [JString ''db'', Select_MarshalJSON \<lparr>Table = ''Bridge'', Where = Some [Equal ''name'' ''br0'']\<rparr>]))"
proof -
  let ?s = "\<lparr>Table = ''Bridge'', Where = Some [Equal ''name'' ''br0'']\<rparr>"
  have "clean (Select_MarshalJSON ?s)"
    by (rule select.clean_marshal) (simp add: ascii_Select_def ascii_Cond_def Equal_def ascii_def byte_def)
  then have "clean (JArray [JString ''db'', Select_MarshalJSON ?s])" by (simp add: ascii_def byte_def)
  then show ?thesis
    using request_round_trip[of "\<lparr>ID = ''3'', Method = ''transact'', Params = Some (transactArg_MarshalJSON
        \<lparr>Database = ''db'', Ops = [Inr (Select_MarshalJSON ?s)]\<rparr>)\<rparr>" "\<lparr>written = [], enc_err = None\<rparr>"
        "Some (JArray [JString ''db'', Select_MarshalJSON ?s])"]
    by (simp add: transactArg_MarshalJSON_def ascii_def byte_def)
qed

end
