(* ===== verification/OvsdbSetup.thy ===== *)
theory OvsdbSetup
  imports OvsdbClient
begin

text \<open>
  How a client of \<open>ovsdb/client.go\<close> comes up: the options, \<open>Dial\<close> and \<open>New\<close>, and the connection that
  \<open>NewConn\<close> of \<open>ovsdb/internal/jsonrpc/conn.go\<close> wraps when a logger is given.  The network is a state \<open>'w\<close>
  of the world; the connection and the logger are functions on it.  The theory shows that logging changes nothing else.
\<close>

section \<open>Connections\<close>

text \<open>
  An \<open>io.ReadWriteCloser\<close>: \<open>Read\<close> gets the length of the buffer and returns the bytes that it put there, \<open>Write\<close>
  returns how many bytes it wrote; each with its error.
\<close>

record 'w ReadWriteCloser =
  Read :: "nat \<Rightarrow> 'w \<Rightarrow> (string \<times> ovsdb_error option) \<times> 'w"
  Write :: "string \<Rightarrow> 'w \<Rightarrow> (nat \<times> ovsdb_error option) \<times> 'w"
  CloseConn :: "'w \<Rightarrow> ovsdb_error option \<times> 'w"

text \<open>What a \<open>log.Logger\<close> is asked to print: the format with its operand.\<close>

datatype (plugins only: code size) log_entry =
    LogRead string             \<comment> \<open>\<open>" read: %s"\<close>\<close>
  | LogWrite string            \<comment> \<open>\<open>"write: %s"\<close>\<close>
  | LogClose "ovsdb_error option"

type_synonym 'w Logger = "log_entry \<Rightarrow> 'w \<Rightarrow> 'w"

(* src: ovsdb/internal/jsonrpc/conn.go func debugReadWriteCloser.Read *)
definition debug_Read :: "'w ReadWriteCloser \<Rightarrow> 'w Logger \<Rightarrow> nat \<Rightarrow> 'w \<Rightarrow> (string \<times> ovsdb_error option) \<times> 'w" where
  "debug_Read rwc ll n w =
     (case Read rwc n w of
        ((b, Some err), w') \<Rightarrow> ((b, Some err), w')
      | ((b, None), w') \<Rightarrow> ((b, None), ll (LogRead b) w'))"

(* src: ovsdb/internal/jsonrpc/conn.go func debugReadWriteCloser.Write *)
definition debug_Write :: "'w ReadWriteCloser \<Rightarrow> 'w Logger \<Rightarrow> string \<Rightarrow> 'w \<Rightarrow> (nat \<times> ovsdb_error option) \<times> 'w" where
  "debug_Write rwc ll b w =
     (case Write rwc b w of
        ((n, Some err), w') \<Rightarrow> ((n, Some err), w')
      | ((n, None), w') \<Rightarrow> ((n, None), ll (LogWrite (take n b)) w'))"

(* src: ovsdb/internal/jsonrpc/conn.go func debugReadWriteCloser.Close *)
definition debug_Close :: "'w ReadWriteCloser \<Rightarrow> 'w Logger \<Rightarrow> 'w \<Rightarrow> ovsdb_error option \<times> 'w" where
  "debug_Close rwc ll w = (case CloseConn rwc w of (err, w') \<Rightarrow> (err, ll (LogClose err) w'))"

(* src: ovsdb/internal/jsonrpc/conn.go type debugReadWriteCloser *)
definition debugReadWriteCloser :: "'w ReadWriteCloser \<Rightarrow> 'w Logger \<Rightarrow> 'w ReadWriteCloser" where
  "debugReadWriteCloser rwc ll = \<lparr>Read = debug_Read rwc ll, Write = debug_Write rwc ll, CloseConn = debug_Close rwc ll\<rparr>"

text \<open>A connection: what it closes, and its encoder and decoder, which are theory \<open>JsonRpc\<close>.\<close>

(* src: ovsdb/internal/jsonrpc/conn.go type Conn *)
record 'w Conn =
  conn_c :: "'w ReadWriteCloser"
  conn_enc :: Encoder
  conn_dec :: Decoder

(* src: ovsdb/internal/jsonrpc/conn.go func NewConn *)
definition NewConn :: "'w ReadWriteCloser \<Rightarrow> 'w Logger option \<Rightarrow> 'w Conn" where
  "NewConn rwc ll =
     (let rwc = (case ll of None \<Rightarrow> rwc | Some l \<Rightarrow> debugReadWriteCloser rwc l)
      in \<lparr>conn_c = rwc, conn_enc = \<lparr>written = [], enc_err = None\<rparr>, conn_dec = fresh_decoder\<rparr>)"

(* src: ovsdb/internal/jsonrpc/conn.go func Conn.Close *)
definition Conn_Close :: "'w Conn \<Rightarrow> 'w \<Rightarrow> ovsdb_error option \<times> 'w" where
  "Conn_Close c = CloseConn (conn_c c)"

section \<open>Options\<close>

text \<open>The fields of a \<open>Client\<close> that the options set; a duration is its number of nanoseconds.\<close>

record 'w config =
  ll :: "'w Logger option"
  echoInterval :: int

(* src: ovsdb/client.go type OptionFunc *)
type_synonym 'w OptionFunc = "'w config \<Rightarrow> ovsdb_error option \<times> 'w config"

(* src: ovsdb/client.go func Debug *)
definition Debug :: "'w Logger option \<Rightarrow> 'w OptionFunc" where
  "Debug l c = (None, c\<lparr>ll := l\<rparr>)"

(* src: ovsdb/client.go func EchoInterval *)
definition EchoInterval :: "int \<Rightarrow> 'w OptionFunc" where
  "EchoInterval d c = (None, c\<lparr>echoInterval := d\<rparr>)"

(* src: ovsdb/client.go 108-113 New: the loop over the options *)
fun apply_options :: "'w OptionFunc list \<Rightarrow> 'w config \<Rightarrow> ovsdb_error + 'w config" where
  "apply_options [] c = Inr c"
| "apply_options (opt # opts) c =
     (case opt c of
        (Some err, _) \<Rightarrow> Inl err
      | (None, c') \<Rightarrow> apply_options opts c')"

text \<open>\<open>New\<close> with its options: the connection, and the state in which theory \<open>OvsdbClient\<close> starts.\<close>

(* src: ovsdb/client.go 115-119 New: the connection and the callbacks *)
definition New_options :: "'w ReadWriteCloser \<Rightarrow> 'w OptionFunc list \<Rightarrow> ovsdb_error + 'w Conn \<times> client" where
  "New_options conn opts =
     (case apply_options opts \<lparr>ll = None, echoInterval = 0\<rparr> of
        Inl err \<Rightarrow> Inl err
      | Inr cfg \<Rightarrow> Inr (NewConn conn (ll cfg), New (echoInterval cfg \<noteq> 0)))"

text \<open>The dialler of package \<open>net\<close> is the argument \<open>dial\<close>.\<close>

(* src: ovsdb/client.go func Dial *)
definition Dial ::
    "(string \<Rightarrow> string \<Rightarrow> 'w \<Rightarrow> (ovsdb_error + 'w ReadWriteCloser) \<times> 'w) \<Rightarrow> string \<Rightarrow> string \<Rightarrow> 'w OptionFunc list \<Rightarrow>
     'w \<Rightarrow> (ovsdb_error + 'w Conn \<times> client) \<times> 'w" where
  "Dial dial network addr opts w =
     (case dial network addr w of
        (Inl err, w') \<Rightarrow> (Inl err, w')
      | (Inr conn, w') \<Rightarrow> (New_options conn opts, w'))"

section \<open>Logging\<close>

text \<open>A use of a connection, and what it returns.\<close>

datatype (plugins only: code size) conn_op = OpRead nat | OpWrite string | OpClose

datatype (plugins only: code size) conn_result =
    ReadResult string "ovsdb_error option"
  | WriteResult nat "ovsdb_error option"
  | CloseResult "ovsdb_error option"

fun conn_step :: "'w ReadWriteCloser \<Rightarrow> conn_op \<Rightarrow> 'w \<Rightarrow> conn_result \<times> 'w" where
  "conn_step c (OpRead n) w = (case Read c n w of ((b, err), w') \<Rightarrow> (ReadResult b err, w'))"
| "conn_step c (OpWrite b) w = (case Write c b w of ((n, err), w') \<Rightarrow> (WriteResult n err, w'))"
| "conn_step c OpClose w = (case CloseConn c w of (err, w') \<Rightarrow> (CloseResult err, w'))"

fun conn_run :: "'w ReadWriteCloser \<Rightarrow> conn_op list \<Rightarrow> 'w \<Rightarrow> conn_result list \<times> 'w" where
  "conn_run c [] w = ([], w)"
| "conn_run c (p # ps) w =
     (case conn_step c p w of (r, w') \<Rightarrow> (case conn_run c ps w' of (rs, w'') \<Rightarrow> (r # rs, w'')))"

text \<open>
  The contract of a logger: there is a part of the world, the \<open>view\<close>, that logging leaves alone and on which the
  connection depends.  Then a connection with the logger gives the same results as the one without, whatever
  is done with it, and leaves the same view.
\<close>

locale quiet_logger =
  fixes log :: "'w Logger" and conn :: "'w ReadWriteCloser" and view :: "'w \<Rightarrow> 'v"
  assumes log_view: "view (log e w) = view w"
    and conn_view: "view v = view w \<Longrightarrow>
      fst (conn_step conn p v) = fst (conn_step conn p w) \<and> view (snd (conn_step conn p v)) = view (snd (conn_step conn p w))"
begin

lemma debug_step:
  "fst (conn_step (debugReadWriteCloser conn log) p w) = fst (conn_step conn p w) \<and>
   view (snd (conn_step (debugReadWriteCloser conn log) p w)) = view (snd (conn_step conn p w))"
  by (cases p)
    (auto simp: debugReadWriteCloser_def debug_Read_def debug_Write_def debug_Close_def log_view
      split: prod.split option.split)

lemma debug_run:
  assumes "view v = view w"
  shows "fst (conn_run (debugReadWriteCloser conn log) ps v) = fst (conn_run conn ps w) \<and>
    view (snd (conn_run (debugReadWriteCloser conn log) ps v)) = view (snd (conn_run conn ps w))"
  using assms
proof (induction ps arbitrary: v w)
  case (Cons p ps)
  have "fst (conn_step (debugReadWriteCloser conn log) p v) = fst (conn_step conn p w) \<and>
    view (snd (conn_step (debugReadWriteCloser conn log) p v)) = view (snd (conn_step conn p w))"
    using debug_step[of p v] conn_view[OF Cons.prems, of p] by simp
  with Cons.IH[of "snd (conn_step (debugReadWriteCloser conn log) p v)" "snd (conn_step conn p w)"] show ?case
    by (simp add: case_prod_beta)
qed simp

end

text \<open>
  A logger that appends to a list of entries beside the world, and a connection that does not know of the list.
\<close>

definition append_log :: "('w \<times> log_entry list) Logger" where
  "append_log e s = (fst s, snd s @ [e])"

definition with_log :: "('w \<Rightarrow> 'r \<times> 'w) \<Rightarrow> 'w \<times> log_entry list \<Rightarrow> 'r \<times> ('w \<times> log_entry list)" where
  "with_log f s = (case f (fst s) of (r, w') \<Rightarrow> (r, (w', snd s)))"

definition beside_log :: "'w ReadWriteCloser \<Rightarrow> ('w \<times> log_entry list) ReadWriteCloser" where
  "beside_log c = \<lparr>Read = \<lambda>n. with_log (Read c n), Write = \<lambda>b. with_log (Write c b), CloseConn = with_log (CloseConn c)\<rparr>"

lemma conn_step_beside_log: "conn_step (beside_log c) p s = with_log (conn_step c p) s"
  by (cases p) (auto simp: beside_log_def with_log_def split: prod.split)

lemma conn_run_beside_log: "conn_run (beside_log c) ps s = with_log (conn_run c ps) s"
  by (induction ps arbitrary: s) (auto simp: conn_step_beside_log with_log_def split: prod.split)

interpretation appending: quiet_logger append_log "beside_log c" fst for c :: "'w ReadWriteCloser"
  by unfold_locales (auto simp: append_log_def conn_step_beside_log with_log_def split: prod.split)

text \<open>
  Debug logging does not change what the client does: on a world with a log beside it, any sequence of reads, writes
  and closes of the connection that \<open>NewConn\<close> makes with the logger returns what the connection itself returns and
  leaves the world as it does.
\<close>

theorem debug_conn_transparent:
  "fst (conn_run (conn_c (NewConn (beside_log c) (Some append_log))) ps (w, l)) = fst (conn_run c ps w) \<and>
   fst (snd (conn_run (conn_c (NewConn (beside_log c) (Some append_log))) ps (w, l))) = snd (conn_run c ps w)"
  using appending.debug_run[of "(w, l)" "(w, l)" c ps]
  by (simp add: NewConn_def conn_run_beside_log with_log_def split: prod.split_asm)

text \<open>The options that the package has never fail; the last one of a kind counts.\<close>

lemma New_options_defaults:
  "New_options conn [] = Inr (NewConn conn None, New False)"
  "New_options conn [Debug (Some l), EchoInterval d] = Inr (NewConn conn (Some l), New (d \<noteq> 0))"
  by (simp_all add: New_options_def Debug_def EchoInterval_def)

end
