(* ===== verification/Netlink.thy ===== *)
theory Netlink
  imports GoPrelude
begin

text \<open>
  \<open>ovsnl/client.go\<close> and \<open>ovsnl/datapath.go\<close>: the client of the generic netlink families of Open vSwitch and
  the reader of the messages about datapaths.  The packages \<open>genetlink\<close>, \<open>netlink\<close> and
  \<open>nlenc\<close> are not in the repository: what the code calls of them is a record of functions, on a state
  \<open>'w\<close> of the world where a call has an effect.  The byte order is that of the machine, little
  endian here.
\<close>

section \<open>Constants and structures of the kernel\<close>

(* src: ovsnl/internal/ovsh/const.go 21-22 DatapathFamily *)
abbreviation DatapathFamily :: string where "DatapathFamily \<equiv> ''ovs_datapath''"
(* src: ovsnl/internal/ovsh/const.go 31-32 DpFUnaligned *)
abbreviation DpFUnaligned :: uint32 where "DpFUnaligned \<equiv> 1"
(* src: ovsnl/internal/ovsh/const.go 33-34 DpFVportPids *)
abbreviation DpFVportPids :: uint32 where "DpFVportPids \<equiv> 2"
(* src: ovsnl/internal/ovsh/const.go 129-129 DpCmdGet *)
abbreviation DpCmdGet :: uint8 where "DpCmdGet \<equiv> 3"
(* src: ovsnl/internal/ovsh/const.go 139-139 DpAttrName *)
abbreviation DpAttrName :: uint16 where "DpAttrName \<equiv> 1"
(* src: ovsnl/internal/ovsh/const.go 141-141 DpAttrStats *)
abbreviation DpAttrStats :: uint16 where "DpAttrStats \<equiv> 3"
(* src: ovsnl/internal/ovsh/const.go 142-142 DpAttrMegaflowStats *)
abbreviation DpAttrMegaflowStats :: uint16 where "DpAttrMegaflowStats \<equiv> 4"
(* src: ovsnl/internal/ovsh/const.go 143-143 DpAttrUserFeatures *)
abbreviation DpAttrUserFeatures :: uint16 where "DpAttrUserFeatures \<equiv> 5"

(* src: ovsnl/internal/ovsh/struct.go type Header *)
record Header =
  Ifindex :: "32 word"

(* src: ovsnl/internal/ovsh/struct.go type DPStats *)
record DPStats =
  Hit :: uint64
  Missed :: uint64
  Lost :: uint64
  Flows :: uint64

(* src: ovsnl/internal/ovsh/struct.go type DPMegaflowStats *)
record DPMegaflowStats =
  Mask_hit :: uint64
  Masks :: uint32
  Pad0 :: uint32
  Pad1 :: uint64
  Pad2 :: uint64

(* src: ovsnl/client.go 29-29 sizeofHeader *)
abbreviation sizeofHeader :: nat where "sizeofHeader \<equiv> 4"
(* src: ovsnl/client.go 31-31 sizeofDPStats *)
abbreviation sizeofDPStats :: nat where "sizeofDPStats \<equiv> 32"
(* src: ovsnl/client.go 32-32 sizeofDPMegaflowStats *)
abbreviation sizeofDPMegaflowStats :: nat where "sizeofDPMegaflowStats \<equiv> 32"

section \<open>Other packages\<close>

datatype (plugins only: code size) ovsnl_error =
    ErrNotExist                     \<comment> \<open>\<open>os.ErrNotExist\<close>\<close>
  | ErrUnknownFamily string
  | ErrHeaderLength nat
  | ErrStatsSize nat nat
  | ErrMegaflowStatsSize nat nat
  | ErrNetlink string               \<comment> \<open>an error or a panic of the netlink packages\<close>
  | OutOfBounds                     \<comment> \<open>a read outside the bytes that were given\<close>

text \<open>\<open>netlink.UnmarshalAttributes\<close>, \<open>nlenc.String\<close>, and \<open>nlenc.Uint32\<close>, which panics unless it gets four bytes.\<close>

record netlink =
  UnmarshalAttributes :: "bytes \<Rightarrow> ovsnl_error + (uint16 \<times> bytes) list"
  nlString :: "bytes \<Rightarrow> string"
  nlUint32 :: "bytes \<Rightarrow> ovsnl_error + uint32"

record Family =
  FamilyID :: uint16
  FamilyVersion :: uint8
  FamilyName :: string

record Message =
  Command :: uint8
  MVersion :: uint8
  Data :: bytes

record 'w Conn =
  ListFamilies :: "'w \<Rightarrow> (ovsnl_error + Family list) \<times> 'w"
  Execute :: "Message \<Rightarrow> uint16 \<Rightarrow> nat \<Rightarrow> 'w \<Rightarrow> (ovsnl_error + Message list) \<times> 'w"
  CloseConn :: "'w \<Rightarrow> ovsnl_error option \<times> 'w"

text \<open>\<open>netlink.Request | netlink.Dump\<close>.\<close>

definition dump_flags :: nat where
  "dump_flags = 0x301"

section \<open>The client\<close>

(* src: ovsnl/datapath.go type DatapathService *)
record DatapathService =
  family :: Family

(* src: ovsnl/client.go type Client *)
record Client =
  Datapath :: "DatapathService option"

(* src: ovsnl/client.go func Client.initFamily *)
definition initFamily :: "Family \<Rightarrow> Client \<Rightarrow> ovsnl_error option \<times> Client" where
  "initFamily fam c =
     (if FamilyName fam = DatapathFamily then (None, c\<lparr>Datapath := Some \<lparr>family = fam\<rparr>\<rparr>)
      else (Some (ErrUnknownFamily (FamilyName fam)), c))"

(* src: ovsnl/client.go 83-95 Client.init: the loop *)
fun init_loop :: "Family list \<Rightarrow> nat \<Rightarrow> Client \<Rightarrow> nat \<times> Client" where
  "init_loop [] gotf c = (gotf, c)"
| "init_loop (fam # fs) gotf c =
     (if \<not> has_prefix (FamilyName fam) ''ovs_'' then init_loop fs gotf c
      else (case initFamily fam c of
          (Some e, c') \<Rightarrow> init_loop fs gotf c'
        | (None, c') \<Rightarrow> init_loop fs (gotf + 1) c'))"

(* src: ovsnl/client.go func Client.init *)
definition Client_init :: "Family list \<Rightarrow> Client \<Rightarrow> ovsnl_error option \<times> Client" where
  "Client_init families c =
     (case init_loop families 0 c of (gotf, c') \<Rightarrow> if gotf = 0 then (Some ErrNotExist, c') else (None, c'))"

(* src: ovsnl/client.go func newClient *)
definition newClient :: "'w Conn \<Rightarrow> 'w \<Rightarrow> (ovsnl_error + Client) \<times> 'w" where
  "newClient conn w =
     (case ListFamilies conn w of
        (Inl e, w') \<Rightarrow> (Inl e, snd (CloseConn conn w'))
      | (Inr families, w') \<Rightarrow>
          (case Client_init families \<lparr>Datapath = None\<rparr> of
             (Some e, c) \<Rightarrow> (Inl e, snd (CloseConn conn w'))
           | (None, c) \<Rightarrow> (Inr c, w')))"

(* src: ovsnl/client.go func Client.Close *)
definition Client_Close :: "'w Conn \<Rightarrow> 'w \<Rightarrow> ovsnl_error option \<times> 'w" where
  "Client_Close conn = CloseConn conn"

section \<open>Casts between bytes and structures\<close>

text \<open>The bytes of a word, the least significant first, and the word of the first bytes.\<close>

fun le_bytes :: "nat \<Rightarrow> nat \<Rightarrow> bytes" where
  "le_bytes 0 n = []"
| "le_bytes (Suc k) n = char_of (n mod 256) # le_bytes k (n div 256)"

fun le_nat :: "bytes \<Rightarrow> nat" where
  "le_nat [] = 0"
| "le_nat (b # bs) = byte b + 256 * le_nat bs"

text \<open>A cast of a pointer to \<open>n\<close> bytes reads memory that may not belong to the slice.\<close>

definition cast_bytes :: "nat \<Rightarrow> bytes \<Rightarrow> ovsnl_error + bytes" where
  "cast_bytes n b = (if length b < n then Inl OutOfBounds else Inr (take n b))"

definition word_at :: "nat \<Rightarrow> nat \<Rightarrow> bytes \<Rightarrow> 'a::len word" where
  "word_at i n b = word_of_nat (le_nat (take n (drop i b)))"

(* src: ovsnl/client.go func headerBytes *)
definition headerBytes :: "Header \<Rightarrow> bytes" where
  "headerBytes h = le_bytes sizeofHeader (unat (Ifindex h))"

(* src: ovsnl/client.go func parseHeader *)
definition parseHeader :: "bytes \<Rightarrow> ovsnl_error + Header" where
  "parseHeader b =
     (if length b < sizeofHeader then Inl (ErrHeaderLength (length b))
      else (case cast_bytes sizeofHeader b of
          Inl e \<Rightarrow> Inl e
        | Inr h \<Rightarrow> Inr \<lparr>Ifindex = word_at 0 4 h\<rparr>))"

section \<open>Datapaths\<close>

(* src: ovsnl/datapath.go type DatapathStats *)
type_synonym DatapathStats = DPStats

(* src: ovsnl/datapath.go type DatapathMegaflowStats *)
record DatapathMegaflowStats =
  MaskHits :: uint64
  NMasks :: uint32

(* src: ovsnl/datapath.go type Datapath *)
record Datapath =
  Index :: int
  Name :: string
  Features :: uint32
  Stats :: DatapathStats
  MegaflowStats :: DatapathMegaflowStats

(* src: ovsnl/datapath.go type DatapathFeatures *)
type_synonym DatapathFeatures = uint32

(* src: ovsnl/datapath.go 48-48 DatapathFeaturesUnaligned *)
abbreviation DatapathFeaturesUnaligned :: DatapathFeatures where "DatapathFeaturesUnaligned \<equiv> DpFUnaligned"
(* src: ovsnl/datapath.go 49-49 DatapathFeaturesVPortPIDs *)
abbreviation DatapathFeaturesVPortPIDs :: DatapathFeatures where "DatapathFeaturesVPortPIDs \<equiv> DpFVportPids"

text \<open>The names of the features whose bits are set.\<close>

(* src: ovsnl/datapath.go 59-68 DatapathFeatures.String: the loop over the names *)
fun feature_names :: "string list \<Rightarrow> nat \<Rightarrow> uint32 \<Rightarrow> string \<Rightarrow> string" where
  "feature_names [] i fs s = s"
| "feature_names (name # ns) i fs s =
     feature_names ns (i + 1) fs
       (if (and fs (push_bit i 1)) \<noteq> 0 then (if s \<noteq> [] then s @ ''|'' else s) @ name else s)"

(* src: ovsnl/datapath.go func DatapathFeatures.String *)
definition DatapathFeatures_String :: "uint32 \<Rightarrow> string" where
  "DatapathFeatures_String fs =
     (let s = feature_names [''unaligned'', ''vportpids''] 0 fs [] in if s = [] then ''0'' else s)"

(* src: ovsnl/datapath.go func parseDPStats *)
definition parseDPStats :: "bytes \<Rightarrow> ovsnl_error + DatapathStats" where
  "parseDPStats b =
     (if sizeofDPStats \<noteq> length b then Inl (ErrStatsSize sizeofDPStats (length b))
      else (case cast_bytes sizeofDPStats b of
          Inl e \<Rightarrow> Inl e
        | Inr s \<Rightarrow>
            Inr \<lparr>Hit = word_at 0 8 s, Missed = word_at 8 8 s, Lost = word_at 16 8 s, Flows = word_at 24 8 s\<rparr>))"

(* src: ovsnl/datapath.go func parseDPMegaflowStats *)
definition parseDPMegaflowStats :: "bytes \<Rightarrow> ovsnl_error + DatapathMegaflowStats" where
  "parseDPMegaflowStats b =
     (if sizeofDPMegaflowStats \<noteq> length b then Inl (ErrMegaflowStatsSize sizeofDPMegaflowStats (length b))
      else (case cast_bytes sizeofDPMegaflowStats b of
          Inl e \<Rightarrow> Inl e
        | Inr s \<Rightarrow> Inr \<lparr>MaskHits = word_at 0 8 s, NMasks = word_at 8 4 s\<rparr>))"

text \<open>One attribute of a datapath; an attribute of another type is skipped.\<close>

(* src: ovsnl/datapath.go 143-160 parseDatapaths: the loop over the attributes *)
fun datapath_attrs :: "netlink \<Rightarrow> (uint16 \<times> bytes) list \<Rightarrow> Datapath \<Rightarrow> ovsnl_error + Datapath" where
  "datapath_attrs nl [] dp = Inr dp"
| "datapath_attrs nl ((t, d) # as) dp =
     (if t = DpAttrName then datapath_attrs nl as (dp\<lparr>Name := nlString nl d\<rparr>)
      else if t = DpAttrUserFeatures then
        (case nlUint32 nl d of Inl e \<Rightarrow> Inl e | Inr w \<Rightarrow> datapath_attrs nl as (dp\<lparr>Features := w\<rparr>))
      else if t = DpAttrStats then
        (case parseDPStats d of Inl e \<Rightarrow> Inl e | Inr s \<Rightarrow> datapath_attrs nl as (dp\<lparr>Stats := s\<rparr>))
      else if t = DpAttrMegaflowStats then
        (case parseDPMegaflowStats d of Inl e \<Rightarrow> Inl e | Inr s \<Rightarrow> datapath_attrs nl as (dp\<lparr>MegaflowStats := s\<rparr>))
      else datapath_attrs nl as dp)"

definition zero_datapath :: "int \<Rightarrow> Datapath" where
  "zero_datapath i =
     \<lparr>Index = i, Name = [], Features = 0, Stats = \<lparr>Hit = 0, Missed = 0, Lost = 0, Flows = 0\<rparr>,
      MegaflowStats = \<lparr>MaskHits = 0, NMasks = 0\<rparr>\<rparr>"

(* src: ovsnl/datapath.go 126-162 parseDatapaths: the body of the loop *)
definition parse_datapath :: "netlink \<Rightarrow> Message \<Rightarrow> ovsnl_error + Datapath" where
  "parse_datapath nl m =
     (case parseHeader (Data m) of
        Inl e \<Rightarrow> Inl e
      | Inr h \<Rightarrow>
          (case UnmarshalAttributes nl (drop sizeofHeader (Data m)) of
             Inl e \<Rightarrow> Inl e
           | Inr attrs \<Rightarrow> datapath_attrs nl attrs (zero_datapath (sint (Ifindex h)))))"

(* src: ovsnl/datapath.go func parseDatapaths *)
definition parseDatapaths :: "netlink \<Rightarrow> Message list \<Rightarrow> ovsnl_error + Datapath list" where
  "parseDatapaths nl msgs = mapR (parse_datapath nl) msgs"

(* src: ovsnl/datapath.go func DatapathService.List *)
definition List :: "netlink \<Rightarrow> 'w Conn \<Rightarrow> DatapathService \<Rightarrow> 'w \<Rightarrow> (ovsnl_error + Datapath list) \<times> 'w" where
  "List nl conn s w =
     (let rq = \<lparr>Command = DpCmdGet, MVersion = FamilyVersion (family s), Data = headerBytes \<lparr>Ifindex = 0\<rparr>\<rparr>
      in case Execute conn rq (FamilyID (family s)) dump_flags w of
           (Inl e, w') \<Rightarrow> (Inl e, w')
         | (Inr msgs, w') \<Rightarrow> (parseDatapaths nl msgs, w'))"

end
