(* ===== verification/NetlinkProps.thy ===== *)
theory NetlinkProps
  imports Netlink
begin

text \<open>
  The messages of the kernel about its datapaths are read as the datapaths, no cast reads outside the bytes
  of a message, and the client of a system without the datapath family is closed.
\<close>

section \<open>Bytes and words\<close>

lemma length_le_bytes [simp]: "length (le_bytes k n) = k"
  by (induction k arbitrary: n) simp_all

lemma le_nat_bytes: "n < 256 ^ k \<Longrightarrow> le_nat (le_bytes k n) = n"
proof (induction k arbitrary: n)
  case (Suc k)
  then have "n div 256 < 256 ^ k" by (simp add: less_mult_imp_div_less mult.commute)
  with Suc.IH show ?case by (simp add: byte_def)
qed simp

lemma unat_bytes:
  fixes w :: "'a::len word"
  assumes "LENGTH('a) = 8 * k" shows "word_of_nat (le_nat (le_bytes k (unat w))) = w"
proof -
  have "unat w < 2 ^ LENGTH('a)" by (rule unsigned_less)
  then have "unat w < 256 ^ k" using assms by (simp add: power_mult)
  then show ?thesis by (simp add: le_nat_bytes)
qed

lemma word_at_bytes:
  fixes w :: "'a::len word"
  assumes "LENGTH('a) = 8 * k" and "length u = i"
  shows "word_at i k (u @ le_bytes k (unat w) @ v) = w"
  using assms(2) unat_bytes[OF assms(1), of w] by (simp add: word_at_def)

section \<open>Messages of the kernel\<close>

definition stats_bytes :: "DatapathStats \<Rightarrow> bytes" where
  "stats_bytes s =
     le_bytes 8 (unat (Hit s)) @ le_bytes 8 (unat (Missed s)) @ le_bytes 8 (unat (Lost s)) @ le_bytes 8 (unat (Flows s))"

definition megaflow_bytes :: "DatapathMegaflowStats \<Rightarrow> bytes" where
  "megaflow_bytes s =
     le_bytes 8 (unat (MaskHits s)) @ le_bytes 4 (unat (NMasks s)) @ replicate 20 (CHR 0x00)"

text \<open>
  A message: the header with the index of the datapath, and its attributes, encoded by the function
  \<open>encode\<close> that stands for the kernel.
\<close>

definition datapath_attributes :: "Datapath \<Rightarrow> (uint16 \<times> bytes) list" where
  "datapath_attributes dp =
     [(DpAttrName, Name dp @ [CHR 0x00]), (DpAttrStats, stats_bytes (Stats dp)),
      (DpAttrMegaflowStats, megaflow_bytes (MegaflowStats dp)),
      (DpAttrUserFeatures, le_bytes 4 (unat (Features dp)))]"

definition datapath_message :: "((uint16 \<times> bytes) list \<Rightarrow> bytes) \<Rightarrow> Datapath \<Rightarrow> Message" where
  "datapath_message encode dp =
     \<lparr>Command = DpCmdGet, MVersion = 2,
      Data = headerBytes \<lparr>Ifindex = word_of_int (Index dp)\<rparr> @ encode (datapath_attributes dp)\<rparr>"

text \<open>An index that the kernel can give and a name without a byte 0, shorter than \<open>IFNAMSIZ\<close>.\<close>

definition datapath_ok :: "Datapath \<Rightarrow> bool" where
  "datapath_ok dp \<longleftrightarrow> - (2 ^ 31) \<le> Index dp \<and> Index dp < 2 ^ 31 \<and> CHR 0x00 \<notin> set (Name dp) \<and>
     length (Name dp) < 16"

text \<open>Attributes whose type has no flags and whose length fits into 16 bits.\<close>

definition attributes_ok :: "(uint16 \<times> bytes) list \<Rightarrow> bool" where
  "attributes_ok as \<longleftrightarrow> list_all (\<lambda>(t, d). unat t < 0x4000 \<and> length d < 65532) as"

text \<open>
  What the code relies on: attributes are decoded as they were encoded, a string ends before its byte 0, and
  four bytes are a word.
\<close>

definition netlink_law :: "netlink \<Rightarrow> ((uint16 \<times> bytes) list \<Rightarrow> bytes) \<Rightarrow> bool" where
  "netlink_law nl encode \<longleftrightarrow>
     (\<forall>as. attributes_ok as \<longrightarrow> UnmarshalAttributes nl (encode as) = Inr as) \<and>
     (\<forall>s. CHR 0x00 \<notin> set s \<longrightarrow> nlString nl (s @ [CHR 0x00]) = s) \<and>
     (\<forall>w. nlUint32 nl (le_bytes 4 (unat w)) = Inr w)"

lemma parse_stats_bytes: "parseDPStats (stats_bytes s) = Inr s"
proof -
  let ?h = "le_bytes 8 (unat (Hit s))" and ?m = "le_bytes 8 (unat (Missed s))"
  let ?l = "le_bytes 8 (unat (Lost s))" and ?f = "le_bytes 8 (unat (Flows s))"
  have "word_at 0 8 (stats_bytes s) = Hit s" using word_at_bytes[of 8 "[]" 0 "Hit s"] by (simp add: stats_bytes_def)
  moreover have "word_at 8 8 (stats_bytes s) = Missed s"
    using word_at_bytes[of 8 ?h 8 "Missed s"] by (simp add: stats_bytes_def)
  moreover have "word_at 16 8 (stats_bytes s) = Lost s"
    using word_at_bytes[of 8 "?h @ ?m" 16 "Lost s"] by (simp add: stats_bytes_def)
  moreover have "word_at 24 8 (stats_bytes s) = Flows s"
    using word_at_bytes[of 8 "?h @ ?m @ ?l" 24 "Flows s" "[]"] by (simp add: stats_bytes_def)
  moreover have "length (stats_bytes s) = 32" by (simp add: stats_bytes_def)
  ultimately show ?thesis by (simp add: parseDPStats_def cast_bytes_def)
qed

lemma parse_megaflow_bytes: "parseDPMegaflowStats (megaflow_bytes s) = Inr s"
proof -
  have "word_at 0 8 (megaflow_bytes s) = MaskHits s"
    using word_at_bytes[of 8 "[]" 0 "MaskHits s"] by (simp add: megaflow_bytes_def)
  moreover have "word_at 8 4 (megaflow_bytes s) = NMasks s"
    using word_at_bytes[of 4 "le_bytes 8 (unat (MaskHits s))" 8 "NMasks s"] by (simp add: megaflow_bytes_def)
  moreover have "length (megaflow_bytes s) = 32" by (simp add: megaflow_bytes_def)
  ultimately show ?thesis by (simp add: parseDPMegaflowStats_def cast_bytes_def)
qed

lemma parse_header_bytes: "parseHeader (headerBytes h @ b) = Inr h"
  using word_at_bytes[of 4 "[]" 0 "Ifindex h" "[]"]
  by (simp add: parseHeader_def headerBytes_def cast_bytes_def)

lemma drop_header: "drop 4 (headerBytes h @ b) = b"
  by (simp add: headerBytes_def)

text \<open>
  C24.  A message of the kernel about a datapath is read as the datapath, with its name, its features and all
  its counters, whatever the datapath; the attributes are encoded and decoded, and strings and words
  are read, as the netlink packages document it.
\<close>

theorem parseDatapaths_reads_messages:
  assumes "netlink_law nl encode" and "list_all datapath_ok dps"
  shows "parseDatapaths nl (map (datapath_message encode) dps) = Inr dps"
proof -
  have "parse_datapath nl (datapath_message encode dp) = Inr dp" if "dp \<in> set dps" for dp
  proof -
    have ok: "datapath_ok dp" using assms(2) that by (simp add: list_all_iff)
    have "attributes_ok (datapath_attributes dp)"
      using ok by (simp add: attributes_ok_def datapath_attributes_def datapath_ok_def stats_bytes_def megaflow_bytes_def)
    then have "UnmarshalAttributes nl (encode (datapath_attributes dp)) = Inr (datapath_attributes dp)"
      using assms(1) by (simp add: netlink_law_def)
    have "sint (word_of_int (Index dp) :: 32 word) = Index dp"
      using ok by (simp add: datapath_ok_def int_word_sint)
    moreover have "nlString nl (Name dp @ [CHR 0x00]) = Name dp" using ok assms(1) by (simp add: datapath_ok_def netlink_law_def)
    moreover have "nlUint32 nl (le_bytes 4 (unat (Features dp))) = Inr (Features dp)" using assms(1) by (simp add: netlink_law_def)
    moreover have "parse_datapath nl (datapath_message encode dp) =
        (case UnmarshalAttributes nl (encode (datapath_attributes dp)) of
           Inl e \<Rightarrow> Inl e
         | Inr as \<Rightarrow> datapath_attrs nl as (zero_datapath (sint (word_of_int (Index dp) :: 32 word))))"
      by (simp add: parse_datapath_def datapath_message_def parse_header_bytes drop_header del: drop_append cong: sum.case_cong)
    ultimately show ?thesis
      using \<open>UnmarshalAttributes nl (encode (datapath_attributes dp)) = Inr (datapath_attributes dp)\<close>
      by (simp add: datapath_attributes_def parse_stats_bytes parse_megaflow_bytes zero_datapath_def)
  qed
  then show ?thesis
    unfolding parseDatapaths_def mapR_map using mapR_all_Inr[of dps "\<lambda>dp. parse_datapath nl (datapath_message encode dp)" "\<lambda>dp. dp"]
    by simp
qed

section \<open>An encoding of attributes\<close>

text \<open>
  Attributes as the kernel lays them out: the length with the four bytes in front, the type, the
  bytes, and padding to a multiple of four.
\<close>

definition pad4 :: "nat \<Rightarrow> nat" where
  "pad4 n = (4 - n mod 4) mod 4"

fun encode_attrs :: "(uint16 \<times> bytes) list \<Rightarrow> bytes" where
  "encode_attrs [] = []"
| "encode_attrs ((t, d) # as) =
     le_bytes 2 (length d + 4) @ le_bytes 2 (unat t) @ d @ replicate (pad4 (length d)) (CHR 0x00) @ encode_attrs as"

function decode_attrs :: "bytes \<Rightarrow> ovsnl_error + (uint16 \<times> bytes) list" where
  "decode_attrs b =
     (if b = [] then Inr []
      else (let l = le_nat (take 2 b) in
        if length b < 4 \<or> l < 4 \<or> length b < l then Inl (ErrNetlink ''invalid attribute'')
        else (case decode_attrs (drop (l + pad4 (l - 4)) b) of
            Inl e \<Rightarrow> Inl e
          | Inr as \<Rightarrow> Inr ((word_of_nat (le_nat (take 2 (drop 2 b))), take (l - 4) (drop 4 b)) # as))))"
  by pat_completeness auto
termination
  by (relation "measure length") auto

declare decode_attrs.simps [simp del]

lemma decode_encode: "attributes_ok as \<Longrightarrow> decode_attrs (encode_attrs as) = Inr as"
proof (induction as)
  case Nil
  show ?case by (simp add: decode_attrs.simps)
next
  case (Cons a as)
  obtain t d where a: "a = (t, d)" by (cases a)
  let ?b = "encode_attrs (a # as)"
  have l: "le_nat (take 2 ?b) = length d + 4"
    using Cons.prems le_nat_bytes[of "length d + 4" 2] by (simp add: a attributes_ok_def)
  have t: "word_of_nat (le_nat (take 2 (drop 2 ?b))) = t"
    using unat_bytes[of 2 t] by (simp add: a)
  have d: "take (length d) (drop 4 ?b) = d" by (simp add: a)
  have r: "drop (length d + 4 + pad4 (length d)) ?b = encode_attrs as" by (simp add: a)
  have "decode_attrs (encode_attrs as) = Inr as" using Cons by (simp add: attributes_ok_def)
  moreover have "length ?b \<ge> length d + 4" "?b \<noteq> []" by (auto simp: a dest: arg_cong[of _ _ length])
  ultimately show ?case
    using l t d r by (subst decode_attrs.simps) (simp add: a Let_def)
qed

definition example_netlink :: netlink where
  "example_netlink =
     \<lparr>UnmarshalAttributes = decode_attrs, nlString = takeWhile (\<lambda>c. c \<noteq> CHR 0x00),
      nlUint32 = (\<lambda>b. if length b = 4 then Inr (word_of_nat (le_nat b)) else Inl (ErrNetlink ''panic''))\<rparr>"

lemma example_netlink_law: "netlink_law example_netlink encode_attrs"
proof -
  have "takeWhile (\<lambda>c. c \<noteq> CHR 0x00) (s @ [CHR 0x00]) = s" if "CHR 0x00 \<notin> set s" for s
    using that by (induction s) auto
  moreover have "word_of_nat (le_nat (le_bytes 4 (unat w))) = w" for w :: uint32 by (rule unat_bytes) simp
  ultimately show ?thesis
    by (simp add: netlink_law_def example_netlink_def decode_encode)
qed

definition example_datapath :: Datapath where
  "example_datapath =
     \<lparr>Index = 7, Name = ''ovs-system'', Features = 3, Stats = \<lparr>Hit = 10, Missed = 2, Lost = 1, Flows = 4\<rparr>,
      MegaflowStats = \<lparr>MaskHits = 2 ^ 40, NMasks = 5\<rparr>\<rparr>"

lemma parseDatapaths_reads_messages_witness:
  "parseDatapaths example_netlink [datapath_message encode_attrs example_datapath] = Inr [example_datapath]"
proof -
  have "datapath_ok example_datapath" by (simp add: datapath_ok_def example_datapath_def)
  then show ?thesis
    using parseDatapaths_reads_messages[OF example_netlink_law, of "[example_datapath]"] by simp
qed

section \<open>No read outside a message\<close>

lemma parsers_in_bounds:
  "parseHeader b \<noteq> Inl OutOfBounds" "parseDPStats b \<noteq> Inl OutOfBounds" "parseDPMegaflowStats b \<noteq> Inl OutOfBounds"
  by (simp_all add: parseHeader_def parseDPStats_def parseDPMegaflowStats_def cast_bytes_def)

lemma attrs_in_bounds:
  "(\<And>b. nlUint32 nl b \<noteq> Inl OutOfBounds) \<Longrightarrow> datapath_attrs nl as dp \<noteq> Inl OutOfBounds"
  by (induction nl as dp rule: datapath_attrs.induct) (auto split: sum.splits simp: parsers_in_bounds)

text \<open>
  Whatever bytes the kernel sends, the casts of the code read no memory outside them: the length is
  checked before each of them, as long as the netlink packages read none either.
\<close>

theorem parseDatapaths_in_bounds:
  assumes "\<And>b. UnmarshalAttributes nl b \<noteq> Inl OutOfBounds" and "\<And>b. nlUint32 nl b \<noteq> Inl OutOfBounds"
  shows "parseDatapaths nl msgs \<noteq> Inl OutOfBounds"
proof
  assume "parseDatapaths nl msgs = Inl OutOfBounds"
  then obtain m where "parse_datapath nl m = Inl OutOfBounds"
    unfolding parseDatapaths_def by (rule mapR_InlE) blast
  with assms attrs_in_bounds[of nl] parsers_in_bounds(1) show False
    by (auto simp: parse_datapath_def split: sum.splits)
qed

lemma parseDatapaths_in_bounds_witness:
  "parseDatapaths example_netlink [\<lparr>Command = 3, MVersion = 2, Data = ''xyz''\<rparr>] \<noteq> Inl OutOfBounds"
proof -
  have "decode_attrs b \<noteq> Inl OutOfBounds" for b
    by (induction b rule: decode_attrs.induct) (subst decode_attrs.simps, auto simp: Let_def split: sum.splits)
  then have "UnmarshalAttributes example_netlink b \<noteq> Inl OutOfBounds" "nlUint32 example_netlink b \<noteq> Inl OutOfBounds" for b
    by (simp_all add: example_netlink_def)
  then show ?thesis by (rule parseDatapaths_in_bounds)
qed

section \<open>The client\<close>

text \<open>Whether a list of families has the one the client knows.\<close>

lemma init_loop_datapath:
  "init_loop fs n c = (n + length (filter (\<lambda>fam. FamilyName fam = DatapathFamily) fs),
     if list_ex (\<lambda>fam. FamilyName fam = DatapathFamily) fs
     then c\<lparr>Datapath := Some \<lparr>family = last (filter (\<lambda>fam. FamilyName fam = DatapathFamily) fs)\<rparr>\<rparr> else c)"
proof (induction fs arbitrary: n c)
  case (Cons fam fs)
  have "has_prefix DatapathFamily ''ovs_''" by (simp add: has_prefix_def)
  then show ?case using Cons
    by (auto simp: initFamily_def list_ex_iff filter_empty_conv)
qed simp

text \<open>
  \<open>newClient\<close> returns a client with the service for the datapath family when the family is there, and
  otherwise \<open>os.ErrNotExist\<close> after it closed the connection; it closes the connection on every error.
\<close>

theorem newClient_closes_on_error:
  "newClient conn w =
     (case ListFamilies conn w of
        (Inl e, w') \<Rightarrow> (Inl e, snd (CloseConn conn w'))
      | (Inr fs, w') \<Rightarrow>
          if list_ex (\<lambda>fam. FamilyName fam = DatapathFamily) fs
          then (Inr \<lparr>Datapath = Some \<lparr>family = last (filter (\<lambda>fam. FamilyName fam = DatapathFamily) fs)\<rparr>\<rparr>, w')
          else (Inl ErrNotExist, snd (CloseConn conn w')))"
  by (auto simp: newClient_def Client_init_def init_loop_datapath filter_empty_conv list_ex_iff split: prod.split sum.split)

end
