(* ===== verification/TestServer.thy ===== *)
theory TestServer
  imports OvsdbProps OvsdbSetup
begin

text \<open>
  \<open>ovsdb/internal/jsonrpc/testconn.go\<close>: the server that the tests of package \<open>ovsdb\<close> put behind a connection, as a
  machine together with a client that uses the connection: requests that the client sends are read by the server,
  answered by a function of the test, and the answers are read by the client, with the notifications of the test among
  them.  What either end still reads after a connection was closed is left open: the last messages may be lost.
\<close>

section \<open>Raw messages\<close>

text \<open>
  A \<open>json.RawMessage\<close> is written without the white space between its tokens, with the characters that
  matter in HTML escaped.  The first argument says whether the text is inside a string.
\<close>

function compact :: "bool \<Rightarrow> string \<Rightarrow> string" where
  "compact b [] = []"
| "compact False (c # s) =
     (if json_space c then compact False s else c # compact (c = CHR 0x22) s)"
| "compact True (c # s) =
     (if c = CHR 0x5C then c # take 1 s @ compact True (drop 1 s)
      else if c \<in> {CHR ''<'', CHR ''>'', CHR ''&''}
        then CHR 0x5C # ''u00'' @ [digit_char (byte c div 16), digit_char (byte c mod 16)] @ compact True s
      else if c = CHR 0xE2 \<and> length s \<ge> 2 \<and> s ! 0 = CHR 0x80 \<and> s ! 1 \<in> {CHR 0xA8, CHR 0xA9}
        then CHR 0x5C # ''u202'' @ [digit_char (byte (s ! 1) mod 16)] @ compact True (drop 2 s)
      else c # compact (c \<noteq> CHR 0x22) s)"
  by pat_completeness auto
termination
  by (relation "measure (\<lambda>(b, s). length s)") auto

definition raw_text :: "string \<Rightarrow> ovsdb_error + string" where
  "raw_text raw = (if json_parse raw = None then Inl ErrJSONSyntax else Inr (compact False raw))"

text \<open>The text of a value is compact.\<close>

lemma compact_plain:
  "list_all (\<lambda>c. \<not> json_space c \<and> c \<noteq> CHR 0x22) w \<Longrightarrow> compact False (w @ s) = w @ compact False s"
  by (induction w) auto

definition plain_inside :: "char \<Rightarrow> bool" where
  "plain_inside c \<longleftrightarrow> byte c < 128 \<and> byte c \<notin> {34, 92, 60, 62, 38}"

lemma compact_Cons: "plain_inside c \<Longrightarrow> compact True (c # s) = c # compact True s"
proof -
  assume "plain_inside c"
  then have "c \<noteq> CHR 0x22" "c \<noteq> CHR 0x5C" "c \<notin> {CHR ''<'', CHR ''>'', CHR ''&''}" "c \<noteq> CHR 0xE2"
    by (auto simp: plain_inside_def byte_def)
  then show ?thesis by simp
qed

lemma plain_inside_digit: "d < 16 \<Longrightarrow> plain_inside (digit_char d)"
  by (simp add: plain_inside_def byte_digit_char)

lemma compact_quote_char:
  assumes "byte c < 128"
  shows "compact True (quote_char c @ s) = quote_char c @ compact True s"
proof -
  have esc: "compact True (CHR 0x5C # e # t) = CHR 0x5C # e # compact True t" for e t by simp
  have "byte c div 16 < 16" "byte c mod 16 < 16" using assms by (simp_all add: less_mult_imp_div_less)
  then have h: "plain_inside (digit_char (byte c div 16))" "plain_inside (digit_char (byte c mod 16))" "plain_inside CHR ''0''"
    using plain_inside_digit[of 0] by (simp_all add: plain_inside_digit)
  have p: "plain_inside c" if "c \<noteq> CHR 0x22" "c \<noteq> CHR 0x5C" "c \<notin> {CHR ''<'', CHR ''>'', CHR ''&''}"
  proof -
    have "byte c \<noteq> byte (CHR 0x22)" "byte c \<noteq> byte (CHR 0x5C)" "byte c \<noteq> byte (CHR ''<'')" "byte c \<noteq> byte (CHR ''>'')"
      "byte c \<noteq> byte (CHR ''&'')"
      using that by (simp_all only: byte_inject) auto
    moreover have "byte (CHR 0x22) = 34" "byte (CHR 0x5C) = 92" "byte (CHR ''<'') = 60" "byte (CHR ''>'') = 62"
      "byte (CHR ''&'') = 38" by (simp_all add: byte_def)
    ultimately show ?thesis using assms by (simp add: plain_inside_def)
  qed
  show ?thesis
    unfolding quote_char_def by (simp add: h p compact_Cons esc del: compact.simps)
qed

lemma compact_quote: "ascii w \<Longrightarrow> compact False (quote w @ s) = quote w @ compact False s"
proof -
  have "ascii w \<Longrightarrow> compact True (quote_body w @ CHR 0x22 # s) = quote_body w @ CHR 0x22 # compact False s"
  proof (induction w)
    case (Cons c w)
    then show ?case using compact_quote_char[of c] by (simp add: ascii_def quote_body_ascii)
  qed simp
  then show "ascii w \<Longrightarrow> ?thesis" by (simp add: quote_def json_space_def)
qed

lemma compact_join:
  assumes "\<And>x s. x \<in> set xs \<Longrightarrow> compact False (f x @ s) = f x @ compact False s"
  shows "compact False (join '','' (map f xs) @ s) = join '','' (map f xs) @ compact False s"
  using assms
proof (induction xs)
  case (Cons x xs)
  then show ?case by (cases "xs = []") (simp_all add: join_Cons json_space_def)
qed simp

lemma compact_json_text: "clean v \<Longrightarrow> compact False (json_text v @ s) = json_text v @ compact False s"
proof (induction v arbitrary: s)
  case (JNumber w)
  have "\<not> json_space c \<and> c \<noteq> CHR 0x22" if "is_digit c" for c
    using that digit_no_space by (auto simp: is_digit_def byte_def)
  with JNumber show ?case by (intro compact_plain) (auto simp: clean_number_def list_all_iff)
next
  case (JArray vs)
  then have "compact False (join '','' (map json_text vs) @ t) = join '','' (map json_text vs) @ compact False t" for t
    by (intro compact_join) (auto simp: list_all_iff)
  then show ?case by (simp add: json_space_def)
next
  case (JObject ms)
  let ?f = "\<lambda>m. quote (fst m) @ '':'' @ json_text (snd m)"
  have "compact False (?f m @ t) = ?f m @ compact False t" if "m \<in> set ms" for m t
    using JObject.IH[of m "snd m"] JObject.prems that compact_quote[of "fst m"]
    by (auto simp: list_all_iff snds.simps json_space_def)
  then have "compact False (join '','' (map ?f ms) @ t) = join '','' (map ?f ms) @ compact False t" for t
    by (rule compact_join)
  then show ?case by (simp add: json_space_def)
qed (simp_all add: json_space_def compact_quote)

lemma raw_text_value: "clean v \<Longrightarrow> raw_text (json_text v) = Inr (json_text v)"
  using compact_json_text[of v "[]"] by (simp add: raw_text_def json_parse_text)

section \<open>A response is written\<close>

text \<open>The members of a response: values and raw messages, without those that are empty and may be left out.\<close>

(* src: ovsdb/internal/jsonrpc/conn.go 33-45 Response: its JSON object *)
definition Response_members :: "Response \<Rightarrow> (string \<times> (string + json)) list" where
  "Response_members r =
     [(''id'', Inr (case res_ID r of None \<Rightarrow> JNull | Some i \<Rightarrow> JString i))] @
     (if length (res_Result r) = 0 then [] else [(''result'', Inl (res_Result r))]) @
     [(''error'', Inr (case res_Error r of None \<Rightarrow> JNull | Some v \<Rightarrow> v))] @
     (if length (res_Method r) = 0 then [] else [(''method'', Inr (JString (res_Method r)))]) @
     (if length (res_Params r) = 0 then [] else [(''params'', Inl (res_Params r))])"

definition member_text :: "string \<times> (string + json) \<Rightarrow> ovsdb_error + string" where
  "member_text m =
     (case m of (k, x) \<Rightarrow>
        (case (case x of Inl raw \<Rightarrow> raw_text raw | Inr v \<Rightarrow> Inr (json_text v)) of
           Inl e \<Rightarrow> Inl e
         | Inr t \<Rightarrow> Inr (quote k @ '':'' @ t)))"

definition Response_text :: "Response \<Rightarrow> ovsdb_error + string" where
  "Response_text r =
     (case mapR member_text (Response_members r) of
        Inl e \<Rightarrow> Inl e
      | Inr ts \<Rightarrow> Inr (''{'' @ join '','' ts @ ''}''))"

text \<open>Responses that are read back: their strings are ASCII, and a raw message is the text of a value.\<close>

definition plain_raw :: "string \<Rightarrow> bool" where
  "plain_raw raw \<longleftrightarrow>
     raw = [] \<or> (case json_parse raw of None \<Rightarrow> False | Some v \<Rightarrow> clean v \<and> json_text v = raw)"

definition plain_response :: "Response \<Rightarrow> bool" where
  "plain_response r \<longleftrightarrow>
     (case res_ID r of None \<Rightarrow> True | Some i \<Rightarrow> ascii i) \<and> plain_raw (res_Result r) \<and>
     (case res_Error r of None \<Rightarrow> True | Some v \<Rightarrow> clean v \<and> v \<noteq> JNull) \<and> ascii (res_Method r) \<and> plain_raw (res_Params r)"

definition member_value :: "string \<times> (string + json) \<Rightarrow> string \<times> json" where
  "member_value m = (fst m, case snd m of Inl raw \<Rightarrow> the (json_parse raw) | Inr v \<Rightarrow> v)"

lemma plain_rawD: "plain_raw raw \<Longrightarrow> raw \<noteq> [] \<Longrightarrow> clean (the (json_parse raw)) \<and> json_text (the (json_parse raw)) = raw"
  by (auto simp: plain_raw_def split: option.splits)

definition plain_member :: "string \<times> (string + json) \<Rightarrow> bool" where
  "plain_member m \<longleftrightarrow> ascii (fst m) \<and> (case snd m of Inl raw \<Rightarrow> raw \<noteq> [] \<and> plain_raw raw | Inr v \<Rightarrow> clean v)"

lemma plain_members: "plain_response r \<Longrightarrow> list_all plain_member (Response_members r)"
  by (cases "res_ID r"; cases "res_Error r")
    (simp_all add: plain_response_def Response_members_def plain_member_def ascii_names del: ascii_simps)

lemma member_value_text:
  assumes "plain_member m"
  shows "member_text m = Inr (quote (fst m) @ '':'' @ json_text (snd (member_value m)))"
    and "ascii (fst (member_value m)) \<and> clean (snd (member_value m))"
proof -
  obtain k x where m: "m = (k, x)" by (cases m)
  show "member_text m = Inr (quote (fst m) @ '':'' @ json_text (snd (member_value m)))"
  proof (cases x)
    case (Inl raw)
    with assms plain_rawD[of raw] have "clean (the (json_parse raw))" "json_text (the (json_parse raw)) = raw"
      by (simp_all add: m plain_member_def)
    with raw_text_value[of "the (json_parse raw)"] show ?thesis by (simp add: m Inl member_text_def member_value_def)
  qed (simp add: m member_text_def member_value_def)
  show "ascii (fst (member_value m)) \<and> clean (snd (member_value m))"
    using assms plain_rawD by (cases x) (simp_all add: m plain_member_def member_value_def)
qed

lemma fst_member_value [simp]: "fst (member_value m) = fst m"
  by (simp add: member_value_def)

text \<open>The text of such a response is that of a value.\<close>

lemma Response_text_value:
  assumes "plain_response r"
  shows "Response_text r = Inr (json_text (JObject (map member_value (Response_members r))))"
    and "clean (JObject (map member_value (Response_members r)))"
proof -
  note pm = plain_members[OF assms]
  have "mapR member_text ms = Inr (map (\<lambda>m. quote (fst m) @ '':'' @ json_text (snd m)) (map member_value ms))"
    if "list_all plain_member ms" for ms
    using that by (induction ms) (simp_all add: member_value_text(1) del: json_text.simps)
  from this[OF pm] show "Response_text r = Inr (json_text (JObject (map member_value (Response_members r))))"
    by (simp add: Response_text_def)
  show "clean (JObject (map member_value (Response_members r)))"
    using pm member_value_text(2) by (auto simp: list_all_iff)
qed

lemma decode_field_member:
  assumes "plain_key k" and "clean v"
  shows "decode_field (k, json_text v) (r, ok) =
    (if k = ''id'' then
       (case v of JString s \<Rightarrow> (r\<lparr>res_ID := Some s\<rparr>, ok) | JNull \<Rightarrow> (r\<lparr>res_ID := None\<rparr>, ok) | _ \<Rightarrow> (r, False))
     else if k = ''result'' then (r\<lparr>res_Result := json_text v\<rparr>, ok)
     else if k = ''error'' then (r\<lparr>res_Error := (if v = JNull then None else Some v)\<rparr>, ok)
     else if k = ''method'' then
       (case v of JString s \<Rightarrow> (r\<lparr>res_Method := s\<rparr>, ok) | JNull \<Rightarrow> (r, ok) | _ \<Rightarrow> (r, False))
     else if k = ''params'' then (r\<lparr>res_Params := json_text v\<rparr>, ok)
     else (r, ok))"
  using assms by (cases v) (simp_all add: decode_field_def is_field_plain json_parse_text del: json_text.simps)

lemma response_read_back:
  assumes "plain_response r"
  shows "decode_Response (json_text (JObject (map member_value (Response_members r)))) = Inr r"
proof -
  obtain i u e m w where r: "r = \<lparr>res_ID = i, res_Result = u, res_Error = e, res_Method = m, res_Params = w\<rparr>"
    by (cases r)
  from assms have p: "case i of None \<Rightarrow> True | Some i \<Rightarrow> ascii i" "plain_raw u"
      "case e of None \<Rightarrow> True | Some v \<Rightarrow> clean v \<and> v \<noteq> JNull" "ascii m" "plain_raw w"
    by (simp_all add: plain_response_def r)
  have id: "decode_field (''id'', json_text (case i of None \<Rightarrow> JNull | Some i \<Rightarrow> JString i)) (q, ok) =
      (q\<lparr>res_ID := i\<rparr>, ok)" for q ok
    using p(1) by (cases i) (simp_all add: decode_field_member del: json_text.simps)
  have result: "u \<noteq> [] \<Longrightarrow> decode_field (''result'', json_text (the (json_parse u))) (q, ok) = (q\<lparr>res_Result := u\<rparr>, ok)"
    for q ok using plain_rawD[OF p(2)] decode_field_member[of "''result''" "the (json_parse u)" q ok] by simp
  have err: "decode_field (''error'', json_text (case e of None \<Rightarrow> JNull | Some v \<Rightarrow> v)) (q, ok) =
      (q\<lparr>res_Error := e\<rparr>, ok)" for q ok
    using p(3) by (cases e) (simp_all add: decode_field_member del: json_text.simps)
  have meth: "decode_field (''method'', json_text (JString m)) (q, ok) = (q\<lparr>res_Method := m\<rparr>, ok)" for q ok
    using p(4) by (simp add: decode_field_member del: json_text.simps)
  have params: "w \<noteq> [] \<Longrightarrow> decode_field (''params'', json_text (the (json_parse w))) (q, ok) = (q\<lparr>res_Params := w\<rparr>, ok)"
    for q ok using plain_rawD[OF p(5)] decode_field_member[of "''params''" "the (json_parse w)" q ok] by simp
  show ?thesis
    unfolding decode_members[OF Response_text_value(2)[OF assms]]
    by (cases "u = []"; cases "m = []"; cases "w = []")
      (simp_all add: r Response_members_def member_value_def id result err meth params zero_Response_def
        del: json_text.simps)
qed

text \<open>A response that is written is read back.\<close>

lemma response_round_trip:
  assumes "plain_response r"
  obtains t where "Response_text r = Inr t" and "json_parse t \<noteq> None" and "decode_Response t = Inr r"
proof (rule that)
  show "Response_text r = Inr (json_text (JObject (map member_value (Response_members r))))"
    by (rule Response_text_value(1)[OF assms])
  show "json_parse (json_text (JObject (map member_value (Response_members r)))) \<noteq> None"
    unfolding json_parse_text[OF Response_text_value(2)[OF assms]] by simp
qed (rule response_read_back[OF assms])

section \<open>A request is read\<close>

definition zero_Request :: Request where
  "zero_Request = \<lparr>ID = [], Method = [], Params = None\<rparr>"

(* src: ovsdb/internal/jsonrpc/conn.go 26-30 Request: the fields as they are read *)
definition decode_request_field :: "string \<times> string \<Rightarrow> Request \<times> bool \<Rightarrow> Request \<times> bool" where
  "decode_request_field m st =
     (case m of (k, raw) \<Rightarrow> case st of (r, ok) \<Rightarrow>
        if is_field ''id'' k then
          (case json_parse raw of
             Some (JString s) \<Rightarrow> (r\<lparr>ID := s\<rparr>, ok)
           | Some JNull \<Rightarrow> (r, ok)
           | _ \<Rightarrow> (r, False))
        else if is_field ''method'' k then
          (case json_parse raw of
             Some (JString s) \<Rightarrow> (r\<lparr>Method := s\<rparr>, ok)
           | Some JNull \<Rightarrow> (r, ok)
           | _ \<Rightarrow> (r, False))
        else if is_field ''params'' k then
          (case json_parse raw of
             Some JNull \<Rightarrow> (r\<lparr>Params := None\<rparr>, ok)
           | v \<Rightarrow> (r\<lparr>Params := map_option Inr v\<rparr>, ok))
        else (r, ok))"

definition decode_Request :: "string \<Rightarrow> ovsdb_error + Request" where
  "decode_Request t =
     (case json_parse t of
        None \<Rightarrow> Inl ErrJSONSyntax
      | Some JNull \<Rightarrow> Inr zero_Request
      | Some (JObject ms) \<Rightarrow>
          (case fold decode_request_field (object_members t) (zero_Request, True) of
             (r, ok) \<Rightarrow> if ok then Inr r else Inl ErrJSONType)
      | Some _ \<Rightarrow> Inl ErrJSONType)"

text \<open>Requests that are read back, with the empty array that \<open>Send\<close> puts in.\<close>

definition plain_request :: "Request \<Rightarrow> bool" where
  "plain_request rq \<longleftrightarrow>
     ID rq \<noteq> [] \<and> ascii (ID rq) \<and> ascii (Method rq) \<and>
     (case Params rq of None \<Rightarrow> True | Some (Inl e) \<Rightarrow> False | Some (Inr v) \<Rightarrow> clean v \<and> v \<noteq> JNull)"

definition as_sent :: "Request \<Rightarrow> Request" where
  "as_sent rq = (if Params rq = None then rq\<lparr>Params := Some (Inr (JArray []))\<rparr> else rq)"

definition request_line :: "Request \<Rightarrow> string" where
  "request_line rq = (case Request_json (as_sent rq) of Inr j \<Rightarrow> json_text j | Inl e \<Rightarrow> [])"

lemma request_read:
  assumes "plain_request rq"
  shows "Send None rq \<lparr>written = w, enc_err = None\<rparr> =
      (None, \<lparr>written = w @ request_line rq @ [CHR 0x0A], enc_err = None\<rparr>)"
    and "json_parse (request_line rq) \<noteq> None" and "decode_Request (request_line rq) = Inr (as_sent rq)"
proof -
  obtain i m v where rq: "as_sent rq = \<lparr>ID = i, Method = m, Params = Some (Inr v)\<rparr>" "i \<noteq> []" "ascii i" "ascii m"
      "clean v" "v \<noteq> JNull"
    using assms by (cases rq) (auto simp: plain_request_def as_sent_def split: option.splits sum.splits)
  let ?ms = "[(''id'', JString i), (''method'', JString m), (''params'', v)]"
  have c: "clean (JObject ?ms)" using rq by (simp add: ascii_names del: ascii_simps)
  have l: "request_line rq = json_text (JObject ?ms)"
    by (simp add: request_line_def rq Request_json_def del: json_text.simps)
  show "Send None rq \<lparr>written = w, enc_err = None\<rparr> =
      (None, \<lparr>written = w @ request_line rq @ [CHR 0x0A], enc_err = None\<rparr>)"
  proof -
    have "ID rq \<noteq> []" using assms by (simp add: plain_request_def)
    then show ?thesis
      by (simp add: Send_def as_sent_def[symmetric] Encode_defs l rq Request_json_def del: json_text.simps)
  qed
  show "json_parse (request_line rq) \<noteq> None" unfolding l json_parse_text[OF c] by simp
  have "decode_request_field (''id'', json_text (JString i)) (q, ok) = (q\<lparr>ID := i\<rparr>, ok)"
    "decode_request_field (''method'', json_text (JString m)) (q, ok) = (q\<lparr>Method := m\<rparr>, ok)"
    "decode_request_field (''params'', json_text v) (q, ok) = (q\<lparr>Params := Some (Inr v)\<rparr>, ok)" for q ok
    using rq json_parse_text[of "JString i"] json_parse_text[of "JString m"] json_parse_text[of v]
    by (simp_all add: decode_request_field_def is_field_plain del: json_text.simps split: json.split)
  then show "decode_Request (request_line rq) = Inr (as_sent rq)"
    unfolding l decode_Request_def json_parse_text[OF c] object_members_text[OF c]
    by (simp add: zero_Request_def rq(1) del: json_text.simps)
qed

section \<open>The server\<close>

(* src: ovsdb/internal/jsonrpc/testconn.go type TestFunc *)
type_synonym TestFunc = "Request \<Rightarrow> Response"

(* src: ovsdb/internal/jsonrpc/testconn.go func isNetworkCloseError *)
definition isNetworkCloseError :: "ovsdb_error \<Rightarrow> bool" where
  "isNetworkCloseError err \<longleftrightarrow>
     err = errEOF \<or>
     (case err of
        ErrNetwork t \<Rightarrow> contains t ''use of closed network'' \<or> contains t ''connection reset by peer''
      | _ \<Rightarrow> False)"

text \<open>
  The two goroutines: the one that accepts the connection and answers, and the one that it starts for the
  notifications.  A mutex makes each use of the encoder one step.
\<close>

datatype (plugins only: code size) serve_pc =
    ServeAccept             \<comment> \<open>in \<open>Accept\<close>\<close>
  | ServeDecode             \<comment> \<open>before \<open>Decode\<close>\<close>
  | ServeAnswer Request     \<comment> \<open>before \<open>fn\<close> and \<open>Encode\<close>\<close>
  | ServeWait               \<comment> \<open>in the deferred \<open>notifWG.Wait\<close>\<close>
  | ServeDone

datatype (plugins only: code size) notify_pc =
    NotifyOff
  | NotifyRange             \<comment> \<open>before the next notification of the channel\<close>
  | NotifySend Response     \<comment> \<open>before \<open>Encode\<close>\<close>
  | NotifyDone

text \<open>
  A session: the client's end of the connection, the server's, the channel of the notifications, which of the listener,
  the client's connection and the channel the clean-up has closed, the goroutines, and the error with which one of them panicked.  Four components are not in the code: the requests that were answered,
  the notifications that were written, the messages that the client received, and the last error that it got instead.
\<close>

record session =
  cl_enc :: Encoder
  cl_dec :: Decoder
  srv_dec :: Decoder
  srv_enc :: Encoder
  notifC :: "Response list"
  l_closed :: bool
  cl_closed :: bool
  notif_closed :: bool
  serve :: serve_pc
  notify :: notify_pc
  srv_panic :: "ovsdb_error option"
  answered :: "Request list"
  notified :: "Response list"
  got :: "Response list"
  got_err :: "ovsdb_error option"

definition new_session :: session where
  "new_session =
     \<lparr>cl_enc = \<lparr>written = [], enc_err = None\<rparr>, cl_dec = fresh_decoder, srv_dec = fresh_decoder,
      srv_enc = \<lparr>written = [], enc_err = None\<rparr>, notifC = [], l_closed = False, cl_closed = False, notif_closed = False, serve = ServeAccept,
      notify = NotifyOff, srv_panic = None, answered = [], notified = [], got = [], got_err = None\<rparr>"

text \<open>The text that an encoder wrote, without its line feed; the other end has it to read, unless the connection was closed.\<close>

definition new_text :: "Encoder \<Rightarrow> Encoder \<Rightarrow> string" where
  "new_text en en' = butlast (drop (length (written en)) (written en'))"

lemma new_text_written [simp]: "new_text en (en\<lparr>written := written en @ t @ [c]\<rparr>) = t"
  by (simp add: new_text_def)

definition arrive :: "string \<Rightarrow> Decoder \<Rightarrow> Decoder" where
  "arrive t d = (if stream_end d = None then d\<lparr>texts := texts d @ [t]\<rparr> else d)"

lemma arrive_same [simp]: "stream_end (arrive t d) = stream_end d" "dec_err (arrive t d) = dec_err d"
  by (simp_all add: arrive_def)

text \<open>What an end of a closed connection still reads: \<open>n\<close> of the texts that were under way, and then an error.\<close>

definition closed_after :: "nat \<Rightarrow> ovsdb_error \<Rightarrow> Decoder \<Rightarrow> Decoder" where
  "closed_after n e d = d\<lparr>texts := take n (texts d), stream_end := Some e\<rparr>"

(* src: ovsdb/internal/jsonrpc/testconn.go func panicf *)
definition panicf :: "ovsdb_error \<Rightarrow> session \<Rightarrow> session" where
  "panicf err s = s\<lparr>srv_panic := Some err\<rparr>"

definition server_write :: "ovsdb_error option \<Rightarrow> Response \<Rightarrow> session \<Rightarrow> ovsdb_error option \<times> session" where
  "server_write net r s =
     (case Encode_text net (Response_text r) (srv_enc s) of
        (Some e, enc') \<Rightarrow> (Some e, s\<lparr>srv_enc := enc'\<rparr>)
      | (None, enc') \<Rightarrow>
          (None, s\<lparr>srv_enc := enc', cl_dec := arrive (new_text (srv_enc s) enc') (cl_dec s)\<rparr>))"

(* src: ovsdb/internal/jsonrpc/testconn.go 67-88 TestNetConn: a connection is accepted *)
definition serve_accept :: "ovsdb_error option \<Rightarrow> session \<Rightarrow> session" where
  "serve_accept net s =
     (case net of
        Some err \<Rightarrow> if isNetworkCloseError err then s\<lparr>serve := ServeDone\<rparr> else panicf err s
      | None \<Rightarrow> s\<lparr>serve := ServeDecode, notify := NotifyRange\<rparr>)"

(* src: ovsdb/internal/jsonrpc/testconn.go 108-115 TestNetConn: a request is read *)
definition serve_decode :: "session \<Rightarrow> session option" where
  "serve_decode s =
     (case Decode_with decode_Request (srv_dec s) of
        None \<Rightarrow> None
      | Some (Inl err, d) \<Rightarrow>
          Some (if isNetworkCloseError err then s\<lparr>srv_dec := d, serve := ServeWait\<rparr> else panicf err (s\<lparr>srv_dec := d\<rparr>))
      | Some (Inr rq, d) \<Rightarrow> Some (s\<lparr>srv_dec := d, serve := ServeAnswer rq\<rparr>))"

(* src: ovsdb/internal/jsonrpc/testconn.go 117-129 TestNetConn: a request is answered *)
definition serve_answer :: "TestFunc \<Rightarrow> ovsdb_error option \<Rightarrow> Request \<Rightarrow> session \<Rightarrow> session" where
  "serve_answer fn net rq s =
     (case server_write net (fn rq) s of
        (Some err, s') \<Rightarrow> if isNetworkCloseError err then s'\<lparr>serve := ServeWait\<rparr> else panicf err s'
      | (None, s') \<Rightarrow> s'\<lparr>serve := ServeDecode, answered := answered s' @ [rq]\<rparr>)"

text \<open>After the deferred \<open>Wait\<close> the server closes its end of the connection.\<close>

(* src: ovsdb/internal/jsonrpc/testconn.go 76-86 TestNetConn: the deferred calls *)
definition serve_wait :: "session \<Rightarrow> session option" where
  "serve_wait s =
     (if notify s = NotifyDone
      then Some (s\<lparr>serve := ServeDone,
                   cl_dec := (if stream_end (cl_dec s) = None
                              then closed_after (length (texts (cl_dec s))) errEOF (cl_dec s) else cl_dec s)\<rparr>)
      else None)"

definition serve_next :: "TestFunc \<Rightarrow> ovsdb_error option \<Rightarrow> session \<Rightarrow> session option" where
  "serve_next fn net s =
     (case serve s of
        ServeAccept \<Rightarrow> if l_closed s \<and> net = None then None else Some (serve_accept net s)
      | ServeDecode \<Rightarrow> serve_decode s
      | ServeAnswer rq \<Rightarrow> Some (serve_answer fn net rq s)
      | ServeWait \<Rightarrow> serve_wait s
      | ServeDone \<Rightarrow> None)"

(* src: ovsdb/internal/jsonrpc/testconn.go 88-104 TestNetConn: the notifications *)
definition notify_next :: "ovsdb_error option \<Rightarrow> session \<Rightarrow> session option" where
  "notify_next net s =
     (case notify s of
        NotifyRange \<Rightarrow>
          (case notifC s of
             n # ns \<Rightarrow> Some (s\<lparr>notifC := ns, notify := NotifySend n\<rparr>)
           | [] \<Rightarrow> if notif_closed s then Some (s\<lparr>notify := NotifyDone\<rparr>) else None)
      | NotifySend n \<Rightarrow>
          (case server_write net n s of
             (Some err, s') \<Rightarrow> Some (if isNetworkCloseError err then s'\<lparr>notify := NotifyDone\<rparr> else panicf err s')
           | (None, s') \<Rightarrow> Some (s'\<lparr>notify := NotifyRange, notified := notified s' @ [n]\<rparr>))
      | _ \<Rightarrow> None)"

text \<open>
  The function that ends the session closes the listener, then the client's end of the connection, then the channel;
  the goroutines may take steps in between.  A connection that was not accepted before the listener was closed is not
  accepted any more.  The arguments of the second step are what the two ends still read: the server the texts that reach
  it, and then the end of the stream or a reset of the connection; the client the texts that its decoder holds, and then
  that the connection is closed.
\<close>

(* src: ovsdb/internal/jsonrpc/testconn.go 138-140 TestNetConn: the clean-up, the listener *)
definition close_listener :: "session \<Rightarrow> session option" where
  "close_listener s = (if l_closed s then None else Some (s\<lparr>l_closed := True\<rparr>))"

(* src: ovsdb/internal/jsonrpc/testconn.go 141-141 TestNetConn: the clean-up, the connection *)
definition close_connection :: "nat \<times> ovsdb_error \<Rightarrow> nat \<times> ovsdb_error \<Rightarrow> session \<Rightarrow> session option" where
  "close_connection srv cl s =
     (if \<not> l_closed s \<or> cl_closed s then None
      else Some (s\<lparr>srv_dec := closed_after (fst srv) (snd srv) (srv_dec s),
                   cl_dec := closed_after (fst cl) (snd cl) (cl_dec s), cl_closed := True\<rparr>))"

(* src: ovsdb/internal/jsonrpc/testconn.go 142-142 TestNetConn: the clean-up, the channel *)
definition close_channel :: "session \<Rightarrow> session option" where
  "close_channel s = (if \<not> cl_closed s \<or> notif_closed s then None else Some (s\<lparr>notif_closed := True\<rparr>))"

(* src: ovsdb/internal/jsonrpc/testconn.go func TestConn *)
definition TestConn :: "'w ReadWriteCloser \<Rightarrow> 'w Logger \<Rightarrow> ('w \<Rightarrow> 'w) \<Rightarrow> 'w Conn \<times> ('w \<Rightarrow> 'w)" where
  "TestConn conn logger done_fn =
     (let c = NewConn conn (Some logger) in (c, \<lambda>w. done_fn (snd (Conn_Close c w))))"

section \<open>A session\<close>

text \<open>
  What may happen next: the client sends or receives, the test gives the server a notification (the channel holds 16)
  or ends the session, step by step, a goroutine of the server takes a step.  The errors are those of the connection.
\<close>

datatype (plugins only: code size) session_event =
    ClientSend Request
  | ClientReceive
  | Push Response
  | CloseListener
  | CloseClient "nat \<times> ovsdb_error" "nat \<times> ovsdb_error"
  | CloseChannel
  | ServeStep "ovsdb_error option"
  | NotifyStep "ovsdb_error option"

definition client_send :: "Request \<Rightarrow> session \<Rightarrow> session option" where
  "client_send rq s =
     (if cl_closed s then None
      else (case Send None rq (cl_enc s) of
              (Some e, enc') \<Rightarrow> Some (s\<lparr>cl_enc := enc'\<rparr>)
            | (None, enc') \<Rightarrow> Some (s\<lparr>cl_enc := enc', srv_dec := arrive (new_text (cl_enc s) enc') (srv_dec s)\<rparr>)))"

definition client_receive :: "session \<Rightarrow> session option" where
  "client_receive s =
     (case Receive (cl_dec s) of
        None \<Rightarrow> None
      | Some (Inl e, d) \<Rightarrow> Some (s\<lparr>cl_dec := d, got_err := Some e\<rparr>)
      | Some (Inr r, d) \<Rightarrow> Some (s\<lparr>cl_dec := d, got := got s @ [r]\<rparr>))"

(* src: ovsdb/internal/jsonrpc/testconn.go 62-62 TestNetConn: the channel *)
definition push_notification :: "Response \<Rightarrow> session \<Rightarrow> session option" where
  "push_notification n s =
     (if notif_closed s \<or> length (notifC s) \<ge> 16 then None else Some (s\<lparr>notifC := notifC s @ [n]\<rparr>))"

definition session_next :: "TestFunc \<Rightarrow> session_event \<Rightarrow> session \<Rightarrow> session option" where
  "session_next fn ev s =
     (if srv_panic s \<noteq> None then None
      else case ev of
        ClientSend rq \<Rightarrow> client_send rq s
      | ClientReceive \<Rightarrow> client_receive s
      | Push n \<Rightarrow> push_notification n s
      | CloseListener \<Rightarrow> close_listener s
      | CloseClient srv cl \<Rightarrow> close_connection srv cl s
      | CloseChannel \<Rightarrow> close_channel s
      | ServeStep net \<Rightarrow> serve_next fn net s
      | NotifyStep net \<Rightarrow> notify_next net s)"

fun session_run :: "TestFunc \<Rightarrow> session_event list \<Rightarrow> session \<Rightarrow> session option" where
  "session_run fn [] s = Some s"
| "session_run fn (ev # evs) s = (case session_next fn ev s of None \<Rightarrow> None | Some s' \<Rightarrow> session_run fn evs s')"

fun sent_request :: "session_event \<Rightarrow> Request list" where
  "sent_request (ClientSend rq) = [as_sent rq]"
| "sent_request _ = []"

fun pushed :: "session_event \<Rightarrow> Response list" where
  "pushed (Push n) = [n]"
| "pushed _ = []"

section \<open>The invariant of a session\<close>

lemma shuffles_snoc: "zs \<in> shuffles xs ys \<Longrightarrow> zs @ [x] \<in> shuffles (xs @ [x]) ys"
proof (induction xs ys arbitrary: zs rule: shuffles.induct)
  case (1 ys)
  have "ys @ [x] \<in> shuffles [x] ys" by (induction ys) (auto intro: Cons_in_shuffles_rightI)
  with 1 show ?case by simp
next
  case (3 x' xs y ys)
  then show ?case by (auto simp: Cons_in_shuffles_iff)
qed simp

lemma shuffles_snoc_right: "zs \<in> shuffles xs ys \<Longrightarrow> zs @ [y] \<in> shuffles xs (ys @ [y])"
  using shuffles_snoc[of zs ys xs y] by (simp add: shuffles_commutes)

text \<open>
  The requests that the server has still to answer, of which it will read all unless the connection was closed, and the
  notifications that it has still to write.
\<close>

definition unread :: "Decoder \<Rightarrow> Request list \<Rightarrow> bool" where
  "unread d rqs \<longleftrightarrow> dec_err d = None \<and>
     list_all2 (\<lambda>t rq. json_parse t \<noteq> None \<and> decode_Request t = Inr rq) (texts d) (take (length (texts d)) rqs) \<and>
     (stream_end d = None \<longrightarrow> length rqs \<le> length (texts d))"

fun to_answer :: "serve_pc \<Rightarrow> Decoder \<Rightarrow> Request list \<Rightarrow> bool" where
  "to_answer (ServeAnswer rq) d rqs \<longleftrightarrow> rqs \<noteq> [] \<and> hd rqs = rq \<and> unread d (tl rqs)"
| "to_answer ServeWait d rqs \<longleftrightarrow> True"
| "to_answer ServeDone d rqs \<longleftrightarrow> True"
| "to_answer _ d rqs \<longleftrightarrow> unread d rqs"

fun to_notify :: "notify_pc \<Rightarrow> Response list \<Rightarrow> Response list \<Rightarrow> bool" where
  "to_notify (NotifySend n) c ns \<longleftrightarrow> ns = n # c"
| "to_notify NotifyDone c ns \<longleftrightarrow> True"
| "to_notify _ c ns \<longleftrightarrow> ns = c"

lemma to_answer_arrive:
  assumes "to_answer p d rqs" and "json_parse t \<noteq> None" and "decode_Request t = Inr rq" and "stream_end d = None"
  shows "to_answer p (arrive t d) (rqs @ [rq])"
proof -
  have u: "unread (arrive t d) (qs @ [rq])" if "unread d qs" for qs
  proof -
    have "length qs = length (texts d)"
      using that assms(4) list_all2_lengthD[of _ "texts d" "take (length (texts d)) qs"] by (fastforce simp: unread_def)
    with that assms(2-4) show ?thesis by (simp add: unread_def arrive_def list_all2_appendI)
  qed
  show ?thesis using assms(1) u[of rqs] u[of "tl rqs"] by (cases p; cases rqs) auto
qed

lemma to_answer_closed: "to_answer p d rqs \<Longrightarrow> to_answer p (closed_after n e d) rqs"
proof -
  have "unread d qs \<Longrightarrow> unread (closed_after n e d) qs" for qs
    using list_all2_takeI[of _ "texts d" "take (length (texts d)) qs" n]
    by (simp add: unread_def closed_after_def min.commute)
  then show "to_answer p d rqs \<Longrightarrow> ?thesis" by (cases p) auto
qed

lemma to_notify_push: "to_notify p c ns \<Longrightarrow> to_notify p (c @ [n]) (ns @ [n])"
  by (cases p) auto

text \<open>
  What the client has received and has still to read; it may miss the last messages when the connection was closed.
\<close>

definition incoming :: "Response list \<Rightarrow> Decoder \<Rightarrow> (ovsdb_error + Response) list" where
  "incoming ms d = map Inr ms @ map decode_Response (texts d)"

type_synonym messages = "(ovsdb_error + Response) list"

definition delivered :: "Response list \<Rightarrow> Decoder \<Rightarrow> messages \<Rightarrow> messages \<Rightarrow> bool" where
  "delivered ms d xs ys \<longleftrightarrow>
     list_all (\<lambda>t. json_parse t \<noteq> None \<and> \<not> isl (decode_Response t)) (texts d) \<and>
     (\<exists>lost. incoming ms d @ lost \<in> shuffles xs ys \<and> (lost = [] \<or> stream_end d \<noteq> None))"

lemma delivered_closed: "delivered ms d xs ys \<Longrightarrow> delivered ms (closed_after n e d) xs ys"
  unfolding delivered_def incoming_def
proof (elim conjE exE, intro conjI exI)
  fix lost
  let ?rest = "map decode_Response (drop n (texts d)) @ lost"
  assume "(map Inr ms @ map decode_Response (texts d)) @ lost \<in> shuffles xs ys"
  then show "(map Inr ms @ map decode_Response (texts (closed_after n e d))) @ ?rest \<in> shuffles xs ys"
    by (simp add: closed_after_def flip: map_append) (simp flip: append_assoc map_append)
qed (auto simp: closed_after_def list_all_iff dest: in_set_takeD)

lemma delivered_arrive:
  assumes "delivered ms d xs ys" and "json_parse t \<noteq> None" and "decode_Response t = Inr r"
  shows "delivered ms (arrive t d) (xs @ [Inr r]) ys" and "delivered ms (arrive t d) xs (ys @ [Inr r])"
proof -
  obtain lost where l: "incoming ms d @ lost \<in> shuffles xs ys" "lost = [] \<or> stream_end d \<noteq> None"
    using assms(1) by (auto simp: delivered_def)
  have "\<exists>lost'. incoming ms (arrive t d) @ lost' = (incoming ms d @ lost) @ [Inr r] \<and>
      (lost' = [] \<or> stream_end (arrive t d) \<noteq> None)"
    using l(2) assms(3) by (cases "stream_end d") (auto simp: arrive_def incoming_def)
  with shuffles_snoc[OF l(1)] shuffles_snoc_right[OF l(1)] assms
  show "delivered ms (arrive t d) (xs @ [Inr r]) ys" "delivered ms (arrive t d) xs (ys @ [Inr r])"
    by (auto simp: delivered_def arrive_def)
qed

lemma delivered_next:
  "delivered ms d xs ys \<Longrightarrow> texts d = t # ts \<Longrightarrow> decode_Response t = Inr r \<Longrightarrow>
     delivered (ms @ [r]) (d\<lparr>texts := ts\<rparr>) xs ys"
  by (simp add: delivered_def incoming_def)

definition session_inv :: "TestFunc \<Rightarrow> Request list \<Rightarrow> Response list \<Rightarrow> session \<Rightarrow> bool" where
  "session_inv fn rqs ns s \<longleftrightarrow>
     (serve s = ServeAccept \<longrightarrow> notify s = NotifyOff) \<and> enc_err (cl_enc s) = None \<and>
     (dec_err (cl_dec s) \<noteq> None \<or> got_err s \<noteq> None \<longrightarrow> stream_end (cl_dec s) \<noteq> None) \<and>
     (stream_end (cl_dec s) \<noteq> None \<longrightarrow> cl_closed s \<or> serve s = ServeDone) \<and>
     (stream_end (srv_dec s) \<noteq> None \<longrightarrow> cl_closed s) \<and>
     (\<exists>rest. rqs = answered s @ rest \<and> (srv_panic s = None \<longrightarrow> to_answer (serve s) (srv_dec s) rest)) \<and>
     (\<exists>rest. ns = notified s @ rest \<and> (srv_panic s = None \<longrightarrow> to_notify (notify s) (notifC s) rest)) \<and>
     delivered (got s) (cl_dec s) (map (\<lambda>rq. Inr (fn rq)) (answered s)) (map Inr (notified s))"

lemma server_write_ok:
  assumes "plain_response r" and "server_write net r s = (None, s')"
  obtains t en where "json_parse t \<noteq> None" and "decode_Response t = Inr r"
    and "s' = s\<lparr>srv_enc := en, cl_dec := arrive t (cl_dec s)\<rparr>"
proof -
  obtain t where t: "Response_text r = Inr t" "json_parse t \<noteq> None" "decode_Response t = Inr r"
    using response_round_trip[OF assms(1)] .
  with assms(2) show thesis
    by (intro that[of t "(srv_enc s)\<lparr>written := written (srv_enc s) @ t @ [CHR 0x0A]\<rparr>"])
      (auto simp: server_write_def Encode_text_def split: option.splits)
qed

lemma server_write_error:
  assumes "server_write net r s = (Some e, s')"
  obtains en where "s' = s\<lparr>srv_enc := en\<rparr>"
  using assms by (auto simp: server_write_def split: prod.splits option.splits)

lemma Decode_with_next:
  "Decode_with f d = Some (r, d') \<Longrightarrow> dec_err d = None \<Longrightarrow> texts d = t # ts \<Longrightarrow> json_parse t \<noteq> None \<Longrightarrow>
     r = f t \<and> d' = d\<lparr>texts := ts\<rparr>"
  by (simp add: Decode_with_def)

lemma Decode_with_end: "Decode_with f d = Some (Inr x, d') \<Longrightarrow> texts d \<noteq> []"
  by (auto simp: Decode_with_def split: option.splits)

lemma session_inv_send:
  assumes "session_inv fn rqs ns s" and "plain_request rq" and "client_send rq s = Some s'" and "srv_panic s = None"
  shows "session_inv fn (rqs @ [as_sent rq]) ns s'"
proof -
  note q = request_read[OF assms(2)]
  have e: "cl_enc s = \<lparr>written = written (cl_enc s), enc_err = None\<rparr>"
    using assms(1) by (cases "cl_enc s") (simp add: session_inv_def)
  with q(1)[of "written (cl_enc s)"] have "Send None rq (cl_enc s) =
      (None, (cl_enc s)\<lparr>written := written (cl_enc s) @ request_line rq @ [CHR 0x0A]\<rparr>)"
    by (metis Encoder.update_convs(1))
  moreover define en where "en = (cl_enc s)\<lparr>written := written (cl_enc s) @ request_line rq @ [CHR 0x0A]\<rparr>"
  ultimately have s': "s' = s\<lparr>cl_enc := en, srv_dec := arrive (request_line rq) (srv_dec s)\<rparr>" "enc_err en = None"
    using assms(1,3) by (auto simp: client_send_def session_inv_def split: if_splits)
  from assms(1,4) obtain rest where "rqs = answered s @ rest" "to_answer (serve s) (srv_dec s) rest"
    by (auto simp: session_inv_def)
  moreover have "stream_end (srv_dec s) = None"
    using assms(1,3) by (auto simp: client_send_def session_inv_def split: if_splits)
  ultimately have "rqs @ [as_sent rq] = answered s @ rest @ [as_sent rq]"
    "to_answer (serve s) (arrive (request_line rq) (srv_dec s)) (rest @ [as_sent rq])"
    using to_answer_arrive[OF _ q(2,3)] by simp_all
  with assms(1) s' show ?thesis by (auto simp: session_inv_def)
qed

lemma session_inv_receive:
  assumes "session_inv fn rqs ns s" and "client_receive s = Some s'"
  shows "session_inv fn rqs ns s'"
proof (cases "dec_err (cl_dec s) = None \<and> texts (cl_dec s) \<noteq> []")
  case True
  then obtain t ts where t: "dec_err (cl_dec s) = None" "texts (cl_dec s) = t # ts" by (auto simp: neq_Nil_conv)
  with assms(1) obtain r where r: "json_parse t \<noteq> None" "decode_Response t = Inr r"
    by (cases "decode_Response t") (auto simp: session_inv_def delivered_def)
  with assms(2) t have s': "s' = s\<lparr>cl_dec := (cl_dec s)\<lparr>texts := ts\<rparr>, got := got s @ [r]\<rparr>"
    by (simp add: client_receive_def Receive_def Decode_with_def)
  have "delivered (got s @ [r]) ((cl_dec s)\<lparr>texts := ts\<rparr>) (map (\<lambda>rq. Inr (fn rq)) (answered s)) (map Inr (notified s))"
    using assms(1) t(2) r(2) by (intro delivered_next) (simp_all add: session_inv_def)
  with assms(1) s' show ?thesis by (simp add: session_inv_def)
next
  case False
  show ?thesis
  proof (cases "dec_err (cl_dec s)")
    case None
    with False assms(2) obtain e x where "stream_end (cl_dec s) = Some x"
        "s' = s\<lparr>cl_dec := (cl_dec s)\<lparr>dec_err := Some x\<rparr>, got_err := Some e\<rparr>"
      by (auto simp: client_receive_def Receive_def Decode_with_def split: option.splits)
    with assms(1) show ?thesis by (simp add: session_inv_def delivered_def incoming_def)
  next
    case (Some x)
    with assms(2) obtain e where "s' = s\<lparr>got_err := Some e\<rparr>"
      by (auto simp: client_receive_def Receive_def Decode_with_def)
    with Some assms(1) show ?thesis by (simp add: session_inv_def)
  qed
qed

lemma session_inv_push:
  assumes "session_inv fn rqs ns s" and "push_notification n s = Some s'" and "srv_panic s = None"
  shows "session_inv fn rqs (ns @ [n]) s'"
proof -
  from assms(2) have "s' = s\<lparr>notifC := notifC s @ [n]\<rparr>" by (simp add: push_notification_def split: if_splits)
  with assms(1,3) show ?thesis using to_notify_push by (auto simp: session_inv_def)
qed

lemma session_inv_close_connection:
  assumes "session_inv fn rqs ns s" and "close_connection srv cl s = Some s'"
  shows "session_inv fn rqs ns s'"
proof -
  from assms(2) have "s' = s\<lparr>srv_dec := closed_after (fst srv) (snd srv) (srv_dec s),
      cl_dec := closed_after (fst cl) (snd cl) (cl_dec s), cl_closed := True\<rparr>"
    by (simp add: close_connection_def split: if_splits)
  with assms(1) show ?thesis
    using to_answer_closed delivered_closed by (auto simp: session_inv_def closed_after_def)
qed

lemma session_inv_close:
  assumes "session_inv fn rqs ns s"
  shows "close_listener s = Some s' \<Longrightarrow> session_inv fn rqs ns s'" and "close_channel s = Some s' \<Longrightarrow> session_inv fn rqs ns s'"
proof -
  have "session_inv fn rqs ns (s\<lparr>l_closed := True\<rparr>)" "session_inv fn rqs ns (s\<lparr>notif_closed := True\<rparr>)"
    using assms by (simp_all add: session_inv_def)
  then show "close_listener s = Some s' \<Longrightarrow> session_inv fn rqs ns s'" "close_channel s = Some s' \<Longrightarrow> session_inv fn rqs ns s'"
    unfolding close_listener_def close_channel_def by (metis option.distinct(1) option.inject)+
qed

text \<open>A response that is written comes in at the end.\<close>

lemma written_response:
  assumes "session_inv fn rqs ns s" and "plain_response r" and "server_write net r s = (None, s')"
  obtains en d where "s' = s\<lparr>srv_enc := en, cl_dec := d\<rparr>" and "dec_err d = dec_err (cl_dec s)"
    and "stream_end d = stream_end (cl_dec s)"
    and "delivered (got s) d (map (\<lambda>rq. Inr (fn rq)) (answered s) @ [Inr r]) (map Inr (notified s))"
    and "delivered (got s) d (map (\<lambda>rq. Inr (fn rq)) (answered s)) (map Inr (notified s) @ [Inr r])"
proof -
  obtain t en where t: "json_parse t \<noteq> None" "decode_Response t = Inr r"
      and s': "s' = s\<lparr>srv_enc := en, cl_dec := arrive t (cl_dec s)\<rparr>"
    using server_write_ok[OF assms(2,3)] .
  have "delivered (got s) (cl_dec s) (map (\<lambda>rq. Inr (fn rq)) (answered s)) (map Inr (notified s))"
    using assms(1) by (simp add: session_inv_def)
  from that[OF s' _ _ delivered_arrive[OF this t]] show thesis by (simp add: arrive_def)
qed

lemma session_inv_stops:
  assumes "session_inv fn rqs ns s" and "stream_end d = stream_end (srv_dec s)"
  shows "serve s \<notin> {ServeAccept, ServeDone} \<Longrightarrow>
      session_inv fn rqs ns (s\<lparr>srv_dec := d, srv_enc := en, serve := ServeWait\<rparr>)"
    and "notify s = NotifySend n \<Longrightarrow> session_inv fn rqs ns (s\<lparr>srv_enc := en, notify := NotifyDone\<rparr>)"
    and "session_inv fn rqs ns (panicf e (s\<lparr>srv_dec := d, srv_enc := en\<rparr>))"
  using assms by (auto simp: session_inv_def panicf_def)

lemma session_inv_accept:
  "session_inv fn rqs ns s \<Longrightarrow> serve s = ServeAccept \<Longrightarrow> session_inv fn rqs ns (serve_accept net s)"
  by (cases net) (auto simp: session_inv_def serve_accept_def panicf_def)

lemma session_inv_decode:
  assumes "session_inv fn rqs ns s" and "serve s = ServeDecode" and "serve_decode s = Some s'" and "srv_panic s = None"
  shows "session_inv fn rqs ns s'"
proof -
  from assms(1,2,4) obtain rest where rest: "rqs = answered s @ rest" "unread (srv_dec s) rest"
    by (auto simp: session_inv_def)
  from assms(3) obtain r dd where r: "Decode_with decode_Request (srv_dec s) = Some (r, dd)"
    by (auto simp: serve_decode_def split: option.splits)
  have se: "stream_end dd = stream_end (srv_dec s)"
    using r by (auto simp: Decode_with_def split: option.splits list.splits if_splits)
  show ?thesis
  proof (cases r)
    case (Inl err)
    with assms(3) r have "s' = (if isNetworkCloseError err then s\<lparr>srv_dec := dd, serve := ServeWait\<rparr>
        else panicf err (s\<lparr>srv_dec := dd\<rparr>))"
      by (simp add: serve_decode_def)
    with session_inv_stops(1,3)[OF assms(1) se, where en = "srv_enc s"] assms(2) show ?thesis by simp
  next
    case (Inr rq)
    with Decode_with_end[of decode_Request "srv_dec s" rq dd] r obtain t ts where t: "texts (srv_dec s) = t # ts"
      by (cases "texts (srv_dec s)") auto
    with rest obtain q qs where q: "rest = q # qs" "json_parse t \<noteq> None" "decode_Request t = Inr q"
      "unread ((srv_dec s)\<lparr>texts := ts\<rparr>) qs"
      by (cases rest) (auto simp: unread_def)
    with Decode_with_next[OF r _ t] rest Inr have "rq = q" "dd = (srv_dec s)\<lparr>texts := ts\<rparr>"
      by (auto simp: unread_def)
    with assms(3) r Inr have "s' = s\<lparr>srv_dec := (srv_dec s)\<lparr>texts := ts\<rparr>, serve := ServeAnswer q\<rparr>"
      by (simp add: serve_decode_def)
    with assms(1,2) rest(1) q show ?thesis by (simp add: session_inv_def)
  qed
qed

lemma session_inv_answer:
  assumes "session_inv fn rqs ns s" and "list_all (\<lambda>rq. plain_response (fn rq)) rqs"
    and "serve s = ServeAnswer rq" and "srv_panic s = None"
  shows "session_inv fn rqs ns (serve_answer fn net rq s)"
proof -
  from assms(1,3,4) obtain rest where rest: "rqs = answered s @ rq # rest" "unread (srv_dec s) rest"
    by (auto simp: session_inv_def neq_Nil_conv)
  with assms(2) have p: "plain_response (fn rq)" by simp
  obtain e z where w: "server_write net (fn rq) s = (e, z)" by (cases "server_write net (fn rq) s")
  show ?thesis
  proof (cases e)
    case None
    from written_response[OF assms(1) p w[unfolded None]] obtain en d where z: "z = s\<lparr>srv_enc := en, cl_dec := d\<rparr>"
      "dec_err d = dec_err (cl_dec s)" "stream_end d = stream_end (cl_dec s)"
      "delivered (got s) d (map (\<lambda>rq. Inr (fn rq)) (answered s) @ [Inr (fn rq)]) (map Inr (notified s))" .
    from w None z(1) have "serve_answer fn net rq s =
        s\<lparr>srv_enc := en, cl_dec := d, serve := ServeDecode, answered := answered s @ [rq]\<rparr>"
      by (simp add: serve_answer_def)
    with z(2-) assms(1,3) rest show ?thesis by (simp add: session_inv_def)
  next
    case (Some x)
    with server_write_error w obtain en where "z = s\<lparr>srv_enc := en\<rparr>" by metis
    with w Some have "serve_answer fn net rq s =
        (if isNetworkCloseError x then s\<lparr>srv_enc := en, serve := ServeWait\<rparr> else panicf x (s\<lparr>srv_enc := en\<rparr>))"
      by (simp add: serve_answer_def)
    with session_inv_stops(1,3)[OF assms(1), where d = "srv_dec s" and en = en] assms(3) show ?thesis by simp
  qed
qed

lemma session_inv_wait:
  assumes "session_inv fn rqs ns s" and "serve s = ServeWait" and "serve_wait s = Some s'"
  shows "session_inv fn rqs ns s'"
proof -
  have d: "delivered (got s) (cl_dec s) (map (\<lambda>rq. Inr (fn rq)) (answered s)) (map Inr (notified s))"
    using assms(1) by (simp add: session_inv_def)
  define cd where "cd = (if stream_end (cl_dec s) = None
      then closed_after (length (texts (cl_dec s))) errEOF (cl_dec s) else cl_dec s)"
  from d delivered_closed have "delivered (got s) cd (map (\<lambda>rq. Inr (fn rq)) (answered s)) (map Inr (notified s))"
    by (simp add: cd_def)
  moreover have "stream_end cd \<noteq> None" by (auto simp: cd_def closed_after_def)
  moreover from assms(3) have "s' = s\<lparr>serve := ServeDone, cl_dec := cd\<rparr>"
    by (auto simp: serve_wait_def cd_def split: if_splits)
  ultimately show ?thesis using assms(1,2) by (simp add: session_inv_def)
qed

lemma session_inv_serve:
  assumes "session_inv fn rqs ns s" and "list_all (\<lambda>rq. plain_response (fn rq)) rqs"
    and "serve_next fn net s = Some s'" and "srv_panic s = None"
  shows "session_inv fn rqs ns s'"
proof (cases "serve s")
  case ServeAccept
  with assms session_inv_accept show ?thesis by (simp add: serve_next_def split: if_splits) blast+
next
  case ServeDecode
  with assms session_inv_decode show ?thesis by (simp add: serve_next_def)
next
  case (ServeAnswer rq)
  with assms session_inv_answer show ?thesis by (simp add: serve_next_def) blast
next
  case ServeWait
  with assms session_inv_wait show ?thesis by (simp add: serve_next_def)
qed (use assms(3) in \<open>simp add: serve_next_def\<close>)

lemma session_inv_notify:
  assumes "session_inv fn rqs ns s" and "list_all plain_response ns" and "notify_next net s = Some s'"
    and "srv_panic s = None"
  shows "session_inv fn rqs ns s'"
proof (cases "notify s")
  case NotifyRange
  show ?thesis
  proof (cases "notifC s")
    case Nil
    with assms(3) NotifyRange have "s' = s\<lparr>notify := NotifyDone\<rparr>" by (simp add: notify_next_def split: if_splits)
    with assms(1) NotifyRange show ?thesis by (auto simp: session_inv_def)
  next
    case (Cons n c)
    with assms(3) NotifyRange have "s' = s\<lparr>notifC := c, notify := NotifySend n\<rparr>" by (simp add: notify_next_def)
    with assms(1) NotifyRange Cons show ?thesis by (simp add: session_inv_def)
  qed
next
  case (NotifySend n)
  with assms(1,4) have ns: "ns = notified s @ n # notifC s" by (auto simp: session_inv_def)
  with assms(2) have p: "plain_response n" by simp
  obtain e z where w: "server_write net n s = (e, z)" by (cases "server_write net n s")
  show ?thesis
  proof (cases e)
    case None
    from written_response[OF assms(1) p w[unfolded None]] obtain en d where z: "z = s\<lparr>srv_enc := en, cl_dec := d\<rparr>"
      "dec_err d = dec_err (cl_dec s)" "stream_end d = stream_end (cl_dec s)"
      "delivered (got s) d (map (\<lambda>rq. Inr (fn rq)) (answered s)) (map Inr (notified s) @ [Inr n])" .
    from w None z(1) assms(3) NotifySend
    have "s' = s\<lparr>srv_enc := en, cl_dec := d, notify := NotifyRange, notified := notified s @ [n]\<rparr>"
      by (simp add: notify_next_def)
    with z(2-) assms(1) ns NotifySend show ?thesis by (simp add: session_inv_def)
  next
    case (Some x)
    with server_write_error w obtain en where "z = s\<lparr>srv_enc := en\<rparr>" by metis
    with w Some NotifySend assms(3) have "s' =
        (if isNetworkCloseError x then s\<lparr>srv_enc := en, notify := NotifyDone\<rparr> else panicf x (s\<lparr>srv_enc := en\<rparr>))"
      by (simp add: notify_next_def split: if_splits)
    with session_inv_stops(2,3)[OF assms(1), where d = "srv_dec s" and en = en] NotifySend show ?thesis by simp
  qed
qed (use assms(3) in \<open>simp_all add: notify_next_def\<close>)

fun plain_event :: "session_event \<Rightarrow> bool" where
  "plain_event (ClientSend rq) = plain_request rq"
| "plain_event (Push n) = plain_response n"
| "plain_event _ = True"

lemma session_next_inv:
  assumes "session_next fn ev s = Some s'" and "session_inv fn rqs ns s" and "plain_event ev"
    and "list_all (\<lambda>rq. plain_response (fn rq)) rqs" and "list_all plain_response ns"
  shows "session_inv fn (rqs @ sent_request ev) (ns @ pushed ev) s'"
proof -
  from assms(1) have p: "srv_panic s = None" by (simp add: session_next_def split: if_splits)
  show ?thesis
  proof (cases ev)
    case (ClientSend rq)
    with assms p show ?thesis by (simp add: session_next_def session_inv_send)
  next
    case ClientReceive
    with assms p show ?thesis by (simp add: session_next_def session_inv_receive)
  next
    case (Push n)
    with assms p show ?thesis by (simp add: session_next_def session_inv_push)
  next
    case CloseListener
    with assms p show ?thesis by (simp add: session_next_def session_inv_close(1))
  next
    case (CloseClient srv cl)
    with assms p show ?thesis by (simp add: session_next_def session_inv_close_connection)
  next
    case CloseChannel
    with assms p show ?thesis by (simp add: session_next_def session_inv_close(2))
  next
    case (ServeStep net)
    with assms p show ?thesis by (simp add: session_next_def session_inv_serve)
  next
    case (NotifyStep net)
    with assms p show ?thesis by (simp add: session_next_def session_inv_notify)
  qed
qed

lemma session_run_inv:
  assumes "session_run fn evs s = Some s'" and "session_inv fn rqs ns s" and "list_all plain_event evs"
    and "list_all (\<lambda>rq. plain_response (fn rq)) (rqs @ concat (map sent_request evs))" and "list_all plain_response ns"
  shows "session_inv fn (rqs @ concat (map sent_request evs)) (ns @ concat (map pushed evs)) s'"
  using assms
proof (induction evs arbitrary: s rqs ns)
  case (Cons ev evs)
  then obtain z where z: "session_next fn ev s = Some z" "session_run fn evs z = Some s'"
    by (auto split: option.splits)
  have "session_inv fn (rqs @ sent_request ev) (ns @ pushed ev) z"
    using Cons.prems by (intro session_next_inv[OF z(1)]) simp_all
  moreover have "list_all plain_response (pushed ev)" using Cons.prems(3) by (cases ev) simp_all
  ultimately show ?case using Cons.IH[OF z(2), of "rqs @ sent_request ev" "ns @ pushed ev"] Cons.prems by simp
qed simp

lemma session_inv_new: "session_inv fn [] [] new_session"
  by (simp add: session_inv_def new_session_def delivered_def incoming_def fresh_decoder_def unread_def)

text \<open>
  C39.  However the steps of a session interleave, the client receives the answers of the function of the test to the
  requests that it sent, in the order of the requests, and the notifications of the test in their order; nothing else
  comes in between, and no message is changed or doubled.  Only when an end of the connection was closed may the last
  messages be lost, and only then does the client get an error.  When the server of an open session waits for the next
  request and the next notification, every request was answered and every notification was written.
\<close>

theorem session_answers:
  assumes "session_run fn evs new_session = Some s" and "list_all plain_event evs"
    and "list_all (\<lambda>rq. plain_response (fn rq)) (concat (map sent_request evs))"
  shows "(\<exists>lost. incoming (got s) (cl_dec s) @ lost
        \<in> shuffles (map (\<lambda>rq. Inr (fn rq)) (answered s)) (map Inr (notified s)) \<and>
      (lost = [] \<or> cl_closed s \<or> serve s = ServeDone)) \<and>
    (got_err s = None \<or> cl_closed s \<or> serve s = ServeDone) \<and>
    prefix (answered s) (concat (map sent_request evs)) \<and> prefix (notified s) (concat (map pushed evs)) \<and>
    (srv_panic s = None \<and> serve s = ServeDecode \<and> texts (srv_dec s) = [] \<and> notify s = NotifyRange \<and> notifC s = [] \<and>
       cl_closed s = False \<longrightarrow>
       answered s = concat (map sent_request evs) \<and> notified s = concat (map pushed evs))"
proof -
  have inv: "session_inv fn (concat (map sent_request evs)) (concat (map pushed evs)) s"
    using session_run_inv[OF assms(1) session_inv_new assms(2)] assms(3) by simp
  then have "\<exists>lost. incoming (got s) (cl_dec s) @ lost
        \<in> shuffles (map (\<lambda>rq. Inr (fn rq)) (answered s)) (map Inr (notified s)) \<and>
      (lost = [] \<or> cl_closed s \<or> serve s = ServeDone)"
    unfolding session_inv_def delivered_def by blast
  moreover have "got_err s = None \<or> cl_closed s \<or> serve s = ServeDone"
    using inv unfolding session_inv_def by blast
  moreover obtain qs ms where rest: "concat (map sent_request evs) = answered s @ qs"
      "concat (map pushed evs) = notified s @ ms"
      "srv_panic s = None \<longrightarrow> to_answer (serve s) (srv_dec s) qs" "srv_panic s = None \<longrightarrow> to_notify (notify s) (notifC s) ms"
    using inv unfolding session_inv_def by (elim conjE exE) (rule that)
  moreover have "stream_end (srv_dec s) = None" if "cl_closed s = False"
    using inv that unfolding session_inv_def by blast
  ultimately show ?thesis by simp (intro impI; simp add: unread_def)
qed

definition example_request :: Request where
  "example_request = \<lparr>ID = ''1'', Method = ''list_dbs'', Params = None\<rparr>"

definition example_reply :: TestFunc where
  "example_reply rq = zero_Response\<lparr>res_ID := Some (ID rq), res_Result := ''[]''\<rparr>"

definition example_note :: Response where
  "example_note = zero_Response\<lparr>res_Method := ''update''\<rparr>"

definition example_events :: "session_event list" where
  "example_events = [ServeStep None, ClientSend example_request, Push example_note, ServeStep None, NotifyStep None,
     NotifyStep None, ServeStep None, ClientReceive]"

lemma example_plain:
  "plain_request example_request" "plain_response (example_reply (as_sent example_request))" "plain_response example_note"
  "as_sent example_request = \<lparr>ID = ''1'', Method = ''list_dbs'', Params = Some (Inr (JArray []))\<rparr>"
proof -
  have "json_parse ''[]'' = Some (JArray [])" using json_parse_text[of "JArray []"] by simp
  then show "plain_request example_request" "plain_response (example_reply (as_sent example_request))"
    "plain_response example_note"
    "as_sent example_request = \<lparr>ID = ''1'', Method = ''list_dbs'', Params = Some (Inr (JArray []))\<rparr>"
    by (simp_all add: example_request_def example_reply_def example_note_def as_sent_def plain_request_def
        plain_response_def plain_raw_def zero_Response_def byte_def)
qed

lemma session_answers_witness:
  "case session_run example_reply example_events new_session of
     None \<Rightarrow> False
   | Some s \<Rightarrow> incoming (got s) (cl_dec s) \<in> shuffles [Inr (example_reply (as_sent example_request))] [Inr example_note] \<and>
       length (got s) = 1"
proof -
  note q = request_read[OF example_plain(1)]
  obtain t where t: "Response_text (example_reply (as_sent example_request)) = Inr t" "json_parse t \<noteq> None"
      "decode_Response t = Inr (example_reply (as_sent example_request))"
    using response_round_trip[OF example_plain(2)] .
  obtain u where u: "Response_text example_note = Inr u" "json_parse u \<noteq> None" "decode_Response u = Inr example_note"
    using response_round_trip[OF example_plain(3)] .
  obtain x y z where "json_parse (request_line example_request) = Some x" "json_parse t = Some y" "json_parse u = Some z"
    using q(2) t(2) u(2) by blast
  then have "\<exists>s. session_run example_reply example_events new_session = Some s \<and> srv_panic s = None \<and>
      serve s = ServeDecode \<and> texts (srv_dec s) = [] \<and> notify s = NotifyRange \<and> notifC s = [] \<and> length (got s) = 1 \<and> cl_closed s = False"
    using q(1,3) t(1,3) u(1,3)
    by (simp add: example_events_def new_session_def session_next_def serve_next_def serve_accept_def client_send_def
        push_notification_def serve_decode_def Decode_with_def arrive_def fresh_decoder_def notify_next_def
        server_write_def serve_answer_def client_receive_def Receive_def Encode_text_def new_text_def)
  then obtain s where s: "session_run example_reply example_events new_session = Some s" "srv_panic s = None"
      "serve s = ServeDecode" "texts (srv_dec s) = []" "notify s = NotifyRange" "notifC s = []" "length (got s) = 1"
      "cl_closed s = False"
    by blast
  have "list_all plain_event example_events"
    "list_all (\<lambda>rq. plain_response (example_reply rq)) (concat (map sent_request example_events))"
    using example_plain by (simp_all add: example_events_def)
  from session_answers[OF s(1) this] s(2-6,8)
  have "incoming (got s) (cl_dec s) \<in> shuffles [Inr (example_reply (as_sent example_request))] [Inr example_note]"
    by (auto simp: example_events_def)
  with s(1,7) show ?thesis by simp
qed

end
