(* ===== verification/LearnProps.thy ===== *)
theory LearnProps
  imports FlowProps
begin

text \<open>
  The action \<open>Learn\<close> of \<open>ovs/action.go\<close> and \<open>ovs/flow.go\<close>: when a learned flow has a text, and what the parser of
  \<open>ovs/actionparser.go\<close>, which does not know the action, makes of that text.
\<close>

section \<open>The text of a learned flow\<close>

definition plain_char :: "char \<Rightarrow> bool" where
  "plain_char c \<longleftrightarrow> arg_char c \<and> c \<notin> {CHR ''('', CHR '')'', CHR '':''}"

lemma plain_numbers:
  "list_all plain_char (itoa i)" "list_all plain_char (hex_lit k (w :: uint64))"
  by (auto simp: list_all_iff plain_char_def arg_char_def is_digit_def byte_def dest!: itoa_chars hex_lit_chars)

lemma plain_join: "list_all (list_all plain_char) ss \<Longrightarrow> list_all plain_char (join '','' ss)"
  using set_join_subset[of "'',''" ss] by (fastforce simp: list_all_iff plain_char_def arg_char_def byte_def)

text \<open>The options of a learned flow come before its actions, and are plain when its matches are.\<close>

lemma learned_text_head:
  assumes "list_all (list_all plain_char) ms"
  obtains u where "list_all plain_char u" and "learned_text f ms ss = u @ '','' @ join '','' ss"
proof (rule that)
  show "list_all plain_char
     (''priority='' @ itoa (LPriority f) @
     (if LInPort f \<noteq> 0 then
        '',in_port='' @ (if LInPort f = PortLOCAL then ''LOCAL'' else itoa (LInPort f))
      else []) @
     (if ms \<noteq> [] then '','' @ join '','' ms else []) @
     '',table='' @ itoa (LTable f) @
     '',idle_timeout='' @ itoa (LIdleTimeout f) @
     '',fin_hard_timeout='' @ itoa (FinHardTimeout f) @
     '',hard_timeout='' @ itoa (HardTimeout f) @
     (if Limit f > 0 then '',limit='' @ itoa (Limit f) else []) @
     (if DeleteLearned f then '',delete_learned'' else []) @
     (if LCookie f > 0 then '',cookie='' @ paddedHexUint64 (LCookie f) else []))"
    using plain_join[OF assms]
    by (simp add: if_distrib[of "list_all plain_char"] plain_numbers plain_char_def arg_char_def byte_def
          split del: if_split)
      (intro conjI; simp add: plain_numbers paddedHexUint64_def plain_char_def arg_char_def byte_def)
qed (simp add: learned_text_def)

section \<open>What the parser makes of it\<close>

text \<open>
  A literal that ends in a character which the text holds only once, or from there on only.
\<close>

lemma lit_once_absent:
  assumes "d \<notin> set x" and "d \<notin> set s" and "k \<noteq> []" and "x \<noteq> []" and "last k \<noteq> last x"
  shows "re_find (Lit (k @ [d]) # is) (x @ d # s) = None"
proof (rule re_find_None, rule notI)
  assume "sublist (k @ [d]) (x @ d # s)"
  then obtain a b where "x @ d # s = a @ (k @ [d]) @ b" unfolding sublist_def by blast
  then have "x @ d # s = (a @ k) @ d # b" by simp
  then have "x = a @ k" using append_Cons_eq_iff[OF assms(1,2)] by blast
  with assms(3,5) show False by simp
qed

lemma first_occurrence: "d \<notin> set l \<Longrightarrow> d \<notin> set x \<Longrightarrow> l @ d # t = x @ d # s \<Longrightarrow> l = x"
proof (induction l arbitrary: x)
  case Nil
  then show ?case by (cases x) auto
next
  case (Cons c l)
  then show ?case by (cases x) auto
qed

lemma re_find_skip:
  assumes "d \<notin> set x" and "d \<notin> set k"
  shows "re_find (Lit (k @ [d]) # is) (x @ k @ d # s) = re_find (Lit (k @ [d]) # is) (k @ d # s)"
  using assms(1)
proof (induction x)
  case (Cons c x)
  have "\<not> prefix (k @ [d]) (c # x @ k @ d # s)"
  proof
    assume "prefix (k @ [d]) (c # x @ k @ d # s)"
    then obtain t where t: "c # x @ k @ d # s = (k @ [d]) @ t" unfolding prefix_def by blast
    have "k = c # x @ k"
      by (rule first_occurrence[of d _ _ t s]) (use Cons.prems assms(2) t in simp_all)
    from arg_cong[OF this, of length] show False by simp
  qed
  with Cons show ?case by (simp add: re_find.simps)
qed simp

lemma plain_depth: "list_all plain_char s \<Longrightarrow> depth_ok (Suc d) (s @ t) = depth_ok (Suc d) t"
  by (induction s) (auto simp: plain_char_def arg_char_def byte_def)

lemma plain_absent: "list_all plain_char s \<Longrightarrow> c \<in> {CHR ''('', CHR '')'', CHR '':''} \<Longrightarrow> c \<notin> set s"
  by (auto simp: list_all_iff plain_char_def)

lemma plain_arg: "list_all plain_char s \<Longrightarrow> list_all arg_char s"
  by (simp add: list_all_iff plain_char_def)

lemma learned_load_parses:
  assumes "list_all plain_char u" and "list_all plain_char v" and "list_all plain_char g"
    and "v \<noteq> []" and "g \<noteq> []" and "\<not> contains g ''->''"
  shows "parseAction (''learn('' @ u @ '',load:'' @ v @ ''->'' @ g @ '')'') = Inr (Load v (g @ '')''))"
proof -
  let ?t = "''learn('' @ u @ '',load:'' @ v @ ''->'' @ g @ '')''"
  have ct: "re_find ctRe ?t = None" and rs: "re_find resubmitRe ?t = None"
    unfolding ctRe_def resubmitRe_def
    using lit_once_absent[of "CHR ''(''" "''learn''" "u @ '',load:'' @ v @ ''->'' @ g @ '')''" "''ct''"]
      lit_once_absent[of "CHR ''(''" "''learn''" "u @ '',load:'' @ v @ ''->'' @ g @ '')''" "''resubmit''"]
      plain_absent[OF assms(1)] plain_absent[OF assms(2)] plain_absent[OF assms(3)]
    by simp_all
  have rp: "re_find resubmitPortRe ?t = None"
    unfolding resubmitPortRe_def
    using lit_once_absent[of "CHR '':''" "''learn('' @ u @ '',load''" "v @ ''->'' @ g @ '')''" "''resubmit''"]
      plain_absent[OF assms(1)] plain_absent[OF assms(2)] plain_absent[OF assms(3)]
    by simp
  have "canonical_arg v" and "canonical_arg (g @ '')'')"
    using assms plain_arg by (auto simp: canonical_arg_def arg_char_def byte_def)
  moreover have "\<not> contains (g @ '')'') ''->''"
    using assms(6) by (auto simp: contains_iff sublist_snoc suffix_def)
  ultimately have "re_match [Rep not_space 1, Lit ''->'', Rep not_space 1] (v @ ''->'' @ g @ '')'') =
      Some [v, g @ '')'']"
    by (intro arrow_match)
  then have "re_find loadRe (''load:'' @ v @ ''->'' @ g @ '')'') = Some [v, g @ '')'']"
    unfolding loadRe_def
    by (intro re_find_prefix) (simp del: re_match.simps(2) add: re_match.simps(2)[of "Lit l" for l])
  then have ld: "re_find loadRe ?t = Some [v, g @ '')'']"
    unfolding loadRe_def
    using re_find_skip[of "CHR '':''" "''learn('' @ u @ '',''" "''load''"] plain_absent[OF assms(1)] by simp
  have "simple_action ?t = None" by (rule simple_action_none) simp
  with ct rs rp ld show ?thesis by (simp add: parseAction_defs has_prefix_def arrow_args_def)
qed

text \<open>
  C38.  The patterns of the parser are not anchored, so that the text of a \<open>Learn\<close> action with one \<open>Load\<close> action,
  which puts a value into a field of the packets of later flows, is read back without an error as that \<open>Load\<close>
  itself, to be done to the packet at hand, with the closing parenthesis of \<open>learn(...)\<close> in the name of the field.
\<close>
theorem learn_read_as_load:
  assumes "LActions f = [Load v g]" and "marshalMatches (LMatches f) = Inr ms"
    and "list_all (list_all plain_char) ms" and "list_all plain_char v" and "list_all plain_char g"
    and "v \<noteq> []" and "g \<noteq> []" and "\<not> contains g ''->''"
  shows "\<exists>t. marshalActions [Learn (Some f)] = Inr [t] \<and> Parse t = Inr ([Load v (g @ '')'')], [t])"
proof -
  let ?load = "''load:'' @ v @ ''->'' @ g"
  obtain u where u: "list_all plain_char u" "learned_text f ms [?load] = u @ '','' @ ?load"
    using learned_text_head[OF assms(3), of f "[?load]"] by auto
  let ?t = "''learn('' @ u @ '',load:'' @ v @ ''->'' @ g @ '')''"
  have "action_MarshalText (Load v g) = Inr ?load"
    using assms(6,7) by (simp add: action_MarshalText_defs Load_def)
  then have "LearnedFlow_MarshalText f = Inr (learned_text f ms [?load])"
    using assms(1,2) by (simp add: LearnedFlow_MarshalText.simps learned_marshal_def Load_def)
  then have "marshalActions [Learn (Some f)] = Inr [?t]"
    using u(2) by (simp add: marshalActions_def Learn_def)
  moreover have "depth_ok 0 ?t"
    using plain_depth[OF u(1)] plain_depth[OF assms(4)] plain_depth[OF assms(5)] by (simp add: byte_def)
  then have "Parse ?t = Inr ([Load v (g @ '')'')], [?t])"
    using Parse_join_aux[of "[?t]" "[Load v (g @ '')'')]"] learned_load_parses[OF u(1) assms(4-8)] by simp
  ultimately show ?thesis by blast
qed

definition example_learned :: learned_flow where
  "example_learned = LearnedFlow 10 0 [] 5 60 0 [Load ''NXM_OF_IN_PORT[]'' ''NXM_NX_REG0[]''] True 0 0 0"

lemma learn_read_as_load_witness:
  "\<exists>t. marshalActions [Learn (Some example_learned)] = Inr [t] \<and>
     Parse t = Inr ([Load ''NXM_OF_IN_PORT[]'' ''NXM_NX_REG0[])''], [t])"
  using learn_read_as_load[of example_learned "''NXM_OF_IN_PORT[]''" "''NXM_NX_REG0[]''" "[]"]
  by (simp add: example_learned_def marshalMatches_def plain_char_def arg_char_def byte_def contains_iff sublist_code)

end
