(* ===== verification/Spec2Isabelle.thy ===== *)
theory Spec2Isabelle
  imports PortRanges PortGreedy MatchProps ActionProps ActionReader StatsProps FlowProps GoStringProps ClientShell
    OpenFlowTheorems DumpProps VSwitchProps DataPathProps ProtoTraceProps OvsdbProps OvsdbSetup NetlinkProps
    TestServer LearnProps
begin

text \<open>
  A verification library for the Go packages for Open vSwitch: package \<open>ovs\<close> drives the command line programs
  of Open vSwitch, package \<open>ovsdb\<close> is a client of the database protocol of RFC 7047, and package \<open>ovsnl\<close> reads
  the kernel module over generic netlink.  All names of files below are relative to the root of the repository.

  \<^bold>\<open>The program.\<close>  The data of package \<open>ovs\<close> are flows (\<open>ovs/flow.go\<close>), flow patterns (\<open>ovs/matchflow.go\<close>), and what they
  are made of: matches (\<open>ovs/match.go\<close>), among them the ranges of ports (\<open>ovs/portrange.go\<close>), and actions
  (\<open>ovs/action.go\<close>).  Each of them prints itself (\<open>MarshalText\<close>) in the syntax of \<open>ovs-ofctl\<close>, and as a Go expression
  (\<open>GoString\<close>, with \<open>ovs/codegen.go\<close>).  The parsers \<open>ovs/matchparser.go\<close> and \<open>ovs/actionparser.go\<close> read the matches and
  the actions back, and \<open>UnmarshalText\<close> of a flow puts them together.  A client (\<open>ovs/client.go\<close>) runs programs; its
  services put commands together and read what the programs print: \<open>ovs/openflow.go\<close> (\<open>ovs-ofctl\<close>, with transactions of
  flows), \<open>ovs/vswitch.go\<close> and \<open>ovs/ovs.go\<close> (\<open>ovs-vsctl\<close>), \<open>ovs/datapath.go\<close> (\<open>ovs-dpctl\<close>), \<open>ovs/app.go\<close> with
  \<open>ovs/proto_trace.go\<close> (\<open>ovs-appctl\<close>), and the readers \<open>ovs/flowstats.go\<close>, \<open>ovs/portstats.go\<close>, \<open>ovs/table.go\<close>.  The client
  of package \<open>ovsdb\<close> (\<open>ovsdb/client.go\<close>) sends requests over a connection (\<open>ovsdb/internal/jsonrpc/conn.go\<close>) and has a
  goroutine that hands each response to the call that waits for it, one that answers echo requests and one that sends
  them; \<open>ovsdb/rpc.go\<close>, \<open>ovsdb/transact.go\<close> and \<open>ovsdb/result.go\<close> are the calls, their arguments and their results.
  Package \<open>ovsnl\<close> (\<open>ovsnl/client.go\<close>, \<open>ovsnl/datapath.go\<close>) asks the kernel for its datapaths and casts the bytes of the
  messages to structures (\<open>ovsnl/internal/ovsh\<close>).

  \<^bold>\<open>The language and its library.\<close>

    \<^item> \<open>GoPrelude\<close>: bytes, runes, machine integers, all errors of package \<open>ovs\<close> as one datatype, package \<open>strings\<close>, the
      loop that stops at the first error (\<open>mapR\<close>), and the contract \<open>sep_codec\<close> between a printer and a parser of
      values with a separator.
    \<^item> \<open>GoNumbers\<close>: \<open>strconv\<close> and the integer verbs of \<open>fmt\<close>.  \<open>GoQuote\<close>: \<open>%q\<close> and the reading of Go string literals.
      \<open>GoNet\<close>: addresses of package \<open>net\<close>.  \<open>GoScan\<close>: regular expressions and \<open>Sscanf\<close>, as far as they are used.
      \<open>Json\<close>: package \<open>encoding/json\<close>.
    \<^item> \<open>GoErrors\<close>: the texts of the errors (the methods \<open>Error\<close>).

  \<^bold>\<open>Flows, matches and actions.\<close>  A Go struct that implements an interface is a constructor of a datatype; a method \<open>m\<close> of
  the struct \<open>s\<close> is the function \<open>s_m\<close>; an error is the left side of a sum.

    \<^item> \<open>PortRanges\<close>: \<open>BitwiseMatch\<close> on 16-bit words, and that its pairs match each port of the range once and no other.
      \<open>PortGreedy\<close>: the same blocks are cut off by a reference definition on plain numbers; and the code with its calls
      counted: it makes one call for each block, and at most 32.
    \<^item> \<open>Matches\<close>, \<open>MatchParser\<close>: \<open>ovs/match.go\<close> and \<open>ovs/matchparser.go\<close>.  \<open>MatchRoundtrip\<close> and \<open>MatchProps\<close>: which matches
      read back as they were printed, and where the parser does something else.
    \<^item> \<open>Actions\<close>, \<open>ActionParser\<close>: \<open>ovs/action.go\<close> and \<open>ovs/actionparser.go\<close>.  \<open>ActionReader\<close>: the same parser with its reader
      and its stack, and which inputs it accepts as which texts, said with the depth of the parentheses alone.
      \<open>ActionRoundtrip\<close> and \<open>ActionProps\<close>: lists of actions read back; when the parser panics.
      \<open>LearnProps\<close> (on \<open>FlowProps\<close>): the text of a \<open>Learn\<close> action, which the parser takes for the \<open>Load\<close> in it.
    \<^item> \<open>Flows\<close>: \<open>ovs/flow.go\<close> and \<open>ovs/matchflow.go\<close>.  \<open>FlowRoundtrip\<close> and \<open>FlowProps\<close>: a flow in canonical form
      is read back from its text; which flows have a text.  \<open>DumpFormat\<close>: the lines of a dump in the format of the Open
      vSwitch tools, with ages and timeouts and with the priority left out when it is the default one, and what is read
      of them, the damage to lines without a priority included.  \<open>FlowTypes\<close>: what is read from
      any text is made of matches and actions that the exported functions make.
    \<^item> \<open>GoString\<close>: every method \<open>GoString\<close>.  \<open>GoExpr\<close> and \<open>GoSource\<close>: a reader and an evaluation of the printed
      expressions, with the contract \<open>literal\<close> between a printer of arguments and what it denotes.  \<open>GoStringProps\<close>: the
      expression of a match or an action makes it again, but for the functions whose names the code gets wrong and for
      \<open>FieldMatch\<close>, whose strings are not quoted; \<open>Learn\<close> and \<open>Multipath\<close> are left out of what is shown of the actions.

  \<^bold>\<open>The services.\<close>  What a program does is a function on a state of the world.

    \<^item> \<open>Client\<close>: the client, its options, \<open>exec\<close> and \<open>pipe\<close>.  \<open>ClientShell\<close>: the functions that run a program, over a record
      of the calls of package \<open>os/exec\<close>, and the debug log.
    \<^item> \<open>OpenFlow\<close>: transactions and all commands of \<open>ovs-ofctl\<close>.  \<open>OpenFlowProps\<close> and \<open>OpenFlowTheorems\<close>: a bundle is sent as
      a whole or not at all, its lines are the operations in order, and a dump is read flow by flow; the contract
      \<open>text_marshaler\<close> is that of flows and flow patterns.  \<open>DumpProps\<close>: the dumps of ports and of tables are read,
      entry by entry.
    \<^item> \<open>Stats\<close>, \<open>DataPath\<close>, \<open>VSwitch\<close>, \<open>ProtoTrace\<close>: the other services and readers, and \<open>StatsProps\<close>, \<open>DataPathProps\<close>,
      \<open>VSwitchProps\<close>, \<open>ProtoTraceProps\<close>: what the programs print in the documented form is read as what it shows, and
      the arguments of \<open>ovs-vsctl set\<close> are the columns and values that the options stand for.

  \<^bold>\<open>The clients of the database and of the kernel.\<close>

    \<^item> \<open>JsonRpc\<close>, \<open>Ovsdb\<close>: the messages, the operations of a transaction and the results; the contract \<open>json_marshaler\<close> is
      that of the parts of a request.
    \<^item> \<open>OvsdbClient\<close>: the client as a machine whose steps are the pieces of its goroutines between two points where
      another one sees a difference.  \<open>OvsdbClientInv\<close>: its invariant.  \<open>OvsdbProps\<close>: in every interleaving a call gets
      only the response to its own request, nothing blocks under the mutex, no callback is left behind, the client can
      be closed while its decoder has had no error; and the two ways in which it comes to a halt.
    \<^item> \<open>OvsdbSetup\<close>: options, \<open>Dial\<close> and \<open>New\<close>, and the connection that logs, which the contract \<open>quiet_logger\<close> shows to
      change nothing else.
    \<^item> \<open>TestServer\<close>: the server of \<open>ovsdb/internal/jsonrpc/testconn.go\<close> that runs the function of a test, its goroutine that
      writes the notifications, and a client (\<open>Send\<close>, \<open>Receive\<close>), as steps of a session.  The two directions of the
      socket are the queues of the decoders; the invariant follows every request and every notification through them,
      so that in every interleaving the client receives the answers and the notifications, each in their order, and
      loses the last of them at most when an end of the connection was closed.
    \<^item> \<open>Netlink\<close>, \<open>NetlinkProps\<close>: the families, the request and the reading of the messages, without a read outside them.

  \<^bold>\<open>Bounds and fuel.\<close>  The loops of the code are total functions with a measure on the input that is left or, for
  \<open>BitwiseMatch\<close>, on the ports that are left; \<open>BitwiseMatch_calls\<close>, which counts its calls, has the fuel 32, and the
  theorem on it shows that to be enough.  Two readers have fuel: that of JSON values, and that of Go
  expressions, which is no code of the repository; it is a multiple of the length of the text, which is enough for both.  A Go \<open>int\<close> has 64 bits.
  The identifiers of requests repeat after \<open>2 ^ 64\<close> requests; the invariant of the client holds before that.

  \<^bold>\<open>Parameters and assumptions.\<close>  Arguments of the definitions are: the functions that run programs, the calls of
  \<open>os/exec\<close>, the network connection, the netlink packages (a record of functions with the laws \<open>netlink_law\<close>), the table of printable
  characters, and the texts of the errors of other packages.  Strings are byte strings; a slice without elements is
  taken for nil where Go prints the two in different ways (the verb \<open>%#v\<close>).  The byte order of the kernel structures is little
  endian.

  \<^bold>\<open>Not modelled.\<close>  The constants and structures of \<open>ovsnl/internal/ovsh\<close> that no code uses; the opening of the
  local socket in \<open>ovsdb/internal/jsonrpc/testconn.go\<close>; the limit of the depth of nested JSON; data races of callers that use one client
  or one flow from several goroutines.
\<close>

end
